(* ===== verification/Prelude.thy ===== *)
theory Prelude
  imports Main "HOL-Library.Word"
begin

text \<open>
  Shared vocabulary of the development: Rust's \<open>Result\<close> with panics made visible, the
  \<open>?\<close> operator with and without a threaded state, machine words with Rust's saturating and
  wrapping operations, byte strings and the 32-byte hashes of the chain.
\<close>

section \<open>Results, panics and the question-mark operator\<close>

text \<open>
  A Rust function of type \<open>Result<T, E>\<close> returns a value or an error, and any Rust function may
  panic instead of returning. The three outcomes are the three constructors of \<open>res\<close>.
\<close>

datatype ('a, 'e) res = Ok 'a | Err 'e | Panic string

named_theorems res_simps
  \<open>inversion of the sequencing operators: when a composed call returns a given outcome\<close>

text \<open>\<open>Result::map_err\<close>, \<open>Option::ok_or_else\<close> and \<open>Option::expect\<close>.\<close>

primrec map_err :: "('e \<Rightarrow> 'f) \<Rightarrow> ('a, 'e) res \<Rightarrow> ('a, 'f) res" where
  "map_err f (Ok x) = Ok x"
| "map_err f (Err e) = Err (f e)"
| "map_err f (Panic m) = Panic m"

definition ok_or :: "'e \<Rightarrow> 'a option \<Rightarrow> ('a, 'e) res" where
  "ok_or e x = (case x of None \<Rightarrow> Err e | Some v \<Rightarrow> Ok v)"

definition expect :: "string \<Rightarrow> 'a option \<Rightarrow> ('a, 'e) res" where
  "expect msg x = (case x of None \<Rightarrow> Panic msg | Some v \<Rightarrow> Ok v)"

text \<open>\<open>Result::map\<close>\<close>

primrec map_ok :: "('a \<Rightarrow> 'b) \<Rightarrow> ('a, 'e) res \<Rightarrow> ('b, 'e) res" where
  "map_ok f (Ok x) = Ok (f x)"
| "map_ok f (Err e) = Err e"
| "map_ok f (Panic m) = Panic m"

text \<open>\<open>let x = m?; k(x)\<close>\<close>

primrec and_then :: "('a, 'e) res \<Rightarrow> ('a \<Rightarrow> ('b, 'e) res) \<Rightarrow> ('b, 'e) res" where
  "and_then (Ok x) k = k x"
| "and_then (Err e) k = Err e"
| "and_then (Panic m) k = Panic m"

text \<open>The same with a state that the calls read and write, in the order of the calls.\<close>

definition try_then ::
    "('s \<Rightarrow> ('a, 'e) res \<times> 's) \<Rightarrow> ('a \<Rightarrow> 's \<Rightarrow> ('b, 'e) res \<times> 's) \<Rightarrow> 's \<Rightarrow> ('b, 'e) res \<times> 's" where
  "try_then m k s = (case m s of
     (Ok x, s') \<Rightarrow> k x s'
   | (Err e, s') \<Rightarrow> (Err e, s')
   | (Panic p, s') \<Rightarrow> (Panic p, s'))"

definition with_err :: "('e \<Rightarrow> 'f) \<Rightarrow> ('s \<Rightarrow> ('a, 'e) res \<times> 's) \<Rightarrow> 's \<Rightarrow> ('a, 'f) res \<times> 's" where
  "with_err f m s = (case m s of (r, s') \<Rightarrow> (map_err f r, s'))"

definition lift_res :: "('a, 'e) res \<Rightarrow> 's \<Rightarrow> ('a, 'e) res \<times> 's" where
  "lift_res r s = (r, s)"

definition is_ok :: "('a, 'e) res \<Rightarrow> bool" where
  "is_ok r = (case r of Ok _ \<Rightarrow> True | Err _ \<Rightarrow> False | Panic _ \<Rightarrow> False)"

definition panics :: "('a, 'e) res \<Rightarrow> bool" where
  "panics r = (case r of Ok _ \<Rightarrow> False | Err _ \<Rightarrow> False | Panic _ \<Rightarrow> True)"

lemma is_ok_simps [simp]: "is_ok (Ok x)" "\<not> is_ok (Err e)" "\<not> is_ok (Panic m)"
  by (simp_all add: is_ok_def)

lemma panics_simps [simp]: "\<not> panics (Ok x)" "\<not> panics (Err e)" "panics (Panic m)"
  by (simp_all add: panics_def)

lemma is_ok_iff: "is_ok r \<longleftrightarrow> (\<exists>x. r = Ok x)"
  by (cases r) simp_all

lemma map_err_eq_Ok [simp, res_simps]: "map_err f r = Ok x \<longleftrightarrow> r = Ok x"
  by (cases r) auto

lemma map_err_eq_Err [res_simps]: "map_err f r = Err e \<longleftrightarrow> (\<exists>e'. r = Err e' \<and> e = f e')"
  by (cases r) auto

lemma panics_map_err [simp]: "panics (map_err f r) = panics r"
  by (cases r) auto

lemma is_ok_map_err [simp]: "is_ok (map_err f r) = is_ok r"
  by (cases r) auto

lemma ok_or_simps [simp]: "ok_or e None = Err e" "ok_or e (Some v) = Ok v"
  by (simp_all add: ok_or_def)

lemma ok_or_eq_Ok [simp, res_simps]: "ok_or e x = Ok v \<longleftrightarrow> x = Some v"
  by (cases x) simp_all

lemma expect_simps [simp]: "expect m None = Panic m" "expect m (Some v) = Ok v"
  by (simp_all add: expect_def)

lemma panics_ok_or [simp]: "\<not> panics (ok_or e x)"
  by (cases x) simp_all

lemma and_then_eq_Ok [res_simps]: "and_then m k = Ok y \<longleftrightarrow> (\<exists>x. m = Ok x \<and> k x = Ok y)"
  by (cases m) auto

lemma map_ok_and_then: "map_ok f (and_then m k) = and_then m (\<lambda>x. map_ok f (k x))"
  by (cases m) simp_all

lemma is_ok_map_ok [simp]: "is_ok (map_ok f r) = is_ok r"
  by (cases r) simp_all

lemma panics_and_then: "panics (and_then m k) \<longleftrightarrow> panics m \<or> (\<exists>x. m = Ok x \<and> panics (k x))"
  by (cases m) auto

lemma lift_res_apply [simp]: "lift_res r s = (r, s)"
  by (simp add: lift_res_def)

lemma try_then_eq_Ok [res_simps]:
  "try_then m k s = (Ok y, t) \<longleftrightarrow> (\<exists>x s'. m s = (Ok x, s') \<and> k x s' = (Ok y, t))"
  by (auto simp: try_then_def split: prod.splits res.splits)

lemma try_then_Ok: "m s = (Ok x, s') \<Longrightarrow> try_then m k s = k x s'"
  by (simp add: try_then_def)

lemma try_then_Err: "m s = (Err e, s') \<Longrightarrow> try_then m k s = (Err e, s')"
  by (simp add: try_then_def)

lemma try_then_Panic: "m s = (Panic e, s') \<Longrightarrow> try_then m k s = (Panic e, s')"
  by (simp add: try_then_def)

lemmas try_then_run = try_then_Ok try_then_Err try_then_Panic

lemma try_then_fst_Ok: "fst (try_then m k s) = Ok y \<longleftrightarrow> (\<exists>x s'. m s = (Ok x, s') \<and> fst (k x s') = Ok y)"
  by (auto simp: try_then_def split: prod.splits res.splits)

lemma with_err_eq_Ok [res_simps]: "with_err f m s = (Ok x, t) \<longleftrightarrow> m s = (Ok x, t)"
  by (auto simp: with_err_def split: prod.splits)

lemma with_err_pair [simp]: "m s = (r, t) \<Longrightarrow> with_err f m s = (map_err f r, t)"
  by (simp add: with_err_def)

lemma with_err_snd [simp]: "snd (with_err f m s) = snd (m s)"
  by (simp add: with_err_def split: prod.splits)

lemma with_err_fst [simp]: "fst (with_err f m s) = map_err f (fst (m s))"
  by (simp add: with_err_def split: prod.splits)

text \<open>A predicate on the state that each call keeps is kept by their sequence.\<close>

lemma try_then_keeps:
  assumes "P s" and "\<And>s. P s \<Longrightarrow> P (snd (m s))" and "\<And>x s. P s \<Longrightarrow> P (snd (k x s))"
  shows "P (snd (try_then m k s))"
  using assms(1) assms(2) [of s] assms(3)
  by (auto simp: try_then_def split: prod.splits res.splits)

section \<open>Machine integers\<close>

type_synonym u8 = "8 word"
type_synonym u32 = "32 word"
type_synonym u64 = "64 word"
type_synonym bytes = "u8 list"

text \<open>Rust's \<open>saturating_add\<close> and \<open>saturating_sub\<close> on unsigned integers.\<close>

definition sat_add :: "'n::len word \<Rightarrow> 'n word \<Rightarrow> 'n word" where
  "sat_add a b = (if unat a + unat b < 2 ^ LENGTH('n) then a + b else - 1)"

definition sat_sub :: "'n::len word \<Rightarrow> 'n word \<Rightarrow> 'n word" where
  "sat_sub a b = (if a < b then 0 else a - b)"

text \<open>
  \<open>saturated_into::<u64>()\<close> of a \<open>u32\<close> block number, and \<open>saturated_from\<close> in the other
  direction, which stops at \<open>u32::MAX\<close>.
\<close>

definition u32_to_u64 :: "u32 \<Rightarrow> u64" where
  "u32_to_u64 n = ucast n"

definition u64_to_u32_sat :: "u64 \<Rightarrow> u32" where
  "u64_to_u32_sat n = (if unat n < 2 ^ 32 then ucast n else - 1)"

lemma unat_max_word: "unat (- 1 :: 'n::len word) = 2 ^ LENGTH('n) - 1"
  by (simp add: unsigned_minus_1_eq_mask mask_eq_exp_minus_1)

lemma unat_lt_2p: "unat (w :: 'n::len word) < 2 ^ LENGTH('n)"
  by (rule unsigned_less)

lemma unat_sat_add: "unat (sat_add a (b :: 'n::len word)) = min (unat a + unat b) (2 ^ LENGTH('n) - 1)"
proof (cases "unat a + unat b < 2 ^ LENGTH('n)")
  case True
  then show ?thesis by (simp add: sat_add_def unat_word_ariths)
next
  case False
  then have "2 ^ LENGTH('n) - 1 \<le> unat a + unat b" by simp
  with False show ?thesis by (simp add: sat_add_def unat_max_word)
qed

lemma unat_sat_sub: "unat (sat_sub a (b :: 'n::len word)) = unat a - unat b"
  by (auto simp: sat_sub_def word_less_nat_alt unat_sub_if' not_less)

lemma sat_sub_eq_0_iff: "sat_sub a (b :: 'n::len word) = 0 \<longleftrightarrow> a \<le> b"
  by (metis diff_is_0_eq unat_eq_zero unat_sat_sub word_le_nat_alt)

lemma unat_u32_to_u64 [simp]: "unat (u32_to_u64 n) = unat n"
  using unat_lt_2p [of n]
  by (simp add: u32_to_u64_def unsigned_ucast_eq take_bit_nat_eq_self)

lemma unat_u64_to_u32_sat: "unat (u64_to_u32_sat n) = min (unat n) (2 ^ 32 - 1)"
proof (cases "unat n < 2 ^ 32")
  case True
  then have "unat (ucast n :: u32) = unat n"
    by (simp add: unsigned_ucast_eq take_bit_nat_eq_self)
  with True show ?thesis by (simp add: u64_to_u32_sat_def)
next
  case False
  then show ?thesis by (simp add: u64_to_u32_sat_def unat_max_word)
qed

lemma u64_to_u32_sat_roundtrip [simp]: "u64_to_u32_sat (u32_to_u64 n) = n"
proof -
  have "unat n < 2 ^ 32" using unat_lt_2p [of n] by simp
  then show ?thesis by (simp add: word_unat_eq_iff unat_u64_to_u32_sat)
qed

section \<open>Lists\<close>

lemma list_all2_left: "list_all2 P us vs \<Longrightarrow> u \<in> set us \<Longrightarrow> \<exists>v \<in> set vs. P u v"
  by (induction rule: list_all2_induct) auto

lemma list_all2_right: "list_all2 P us vs \<Longrightarrow> v \<in> set vs \<Longrightarrow> \<exists>u \<in> set us. P u v"
  by (induction rule: list_all2_induct) auto

end
