(* ===== verification/F64.thy ===== *)
theory F64
  imports Complex_Main Prelude "HOL-Library.Log_Nat"
begin

text \<open>
  Rust's \<open>f64\<close>: IEEE 754 binary64 with round-to-nearest-even. A finite value is a sign bit and a
  non-negative rational magnitude (so both zeros exist); every operation computes the exact
  rational result and rounds it once. The source uses division, multiplication, addition,
  comparison, \<open>min\<close>, the casts from \<open>u64\<close>/\<open>u32\<close>/\<open>usize\<close> and the saturating cast to \<open>u64\<close>;
  these are the operations defined here. The lemmas are the ones the participation and
  confidence bounds rest on: rounding is monotone, keeps its fixed points and has relative error
  at most \<open>2 ^ -53\<close> on normal values.
\<close>

section \<open>Rounding\<close>

text \<open>The integer part of \<open>log 2 q\<close> for a positive rational.\<close>

definition ilog2 :: "rat \<Rightarrow> int" where
  "ilog2 q = (case quotient_of q of (n, d) \<Rightarrow>
     let k = bitlen n - bitlen d
     in if 2 powi k \<le> q then k else k - 1)"

text \<open>Round to the nearest integer, ties to the even one.\<close>

definition rne :: "rat \<Rightarrow> int" where
  "rne x = (let f = \<lfloor>x\<rfloor>; r = x - of_int f in
     if r < 1 / 2 then f else if r > 1 / 2 then f + 1 else if even f then f else f + 1)"

text \<open>The exponent of the last place of a positive value: 53 significant bits, subnormals
  below \<open>2 ^ -1022\<close>.\<close>

definition ulp_exp :: "rat \<Rightarrow> int" where
  "ulp_exp q = max (ilog2 q - 52) (- 1074)"

definition rnd :: "rat \<Rightarrow> rat" where
  "rnd q = (if q \<le> 0 then 0
     else let e = ulp_exp q in of_int (rne (q / 2 powi e)) * 2 powi e)"

subsection \<open>The binary logarithm\<close>

lemma floorlog_pos_bounds:
  assumes "0 < n"
  shows "(2::rat) powi (int (floorlog 2 (nat n)) - 1) \<le> of_int n"
    and "of_int n < (2::rat) powi int (floorlog 2 (nat n))"
proof -
  let ?k = "floorlog 2 (nat n)"
  have b: "2 ^ (?k - 1) \<le> nat n" "nat n < 2 ^ ?k"
    using floorlog_bounds [of "nat n" 2] assms by auto
  have "0 < ?k" using assms by (simp add: floorlog_def)
  then have e: "int ?k - 1 = int (?k - 1)" by simp
  have "(2::int) ^ (?k - 1) \<le> n" using b(1) assms
    by (metis nat_le_iff nat_numeral nat_power_eq of_nat_numeral of_nat_power le_nat_iff zero_le_numeral less_imp_le)
  then have "(of_int (2 ^ (?k - 1)) :: rat) \<le> of_int n" by (simp only: of_int_le_iff)
  then show "(2::rat) powi (int ?k - 1) \<le> of_int n" unfolding e by simp
  have "n < (2::int) ^ ?k" using b(2) assms by (simp add: nat_less_iff)
  then have "(of_int n :: rat) < of_int (2 ^ ?k)" by (simp only: of_int_less_iff)
  then show "of_int n < (2::rat) powi int ?k" by simp
qed

lemma ilog2_bounds:
  assumes "0 < q"
  shows "2 powi ilog2 q \<le> q" and "q < 2 powi (ilog2 q + 1)"
proof -
  obtain n d where nd: "quotient_of q = (n, d)" by (cases "quotient_of q")
  have d: "0 < d" using quotient_of_denom_pos [OF nd] .
  have q: "q = of_int n / of_int d" using quotient_of_div [OF nd] .
  have n: "0 < n" using assms d unfolding q by (simp add: zero_less_divide_iff)
  define a b where "a = int (floorlog 2 (nat n))" and "b = int (floorlog 2 (nat d))"
  note N = floorlog_pos_bounds [OF n, folded a_def] and D = floorlog_pos_bounds [OF d, folded b_def]
  have up: "q < 2 powi (a - b + 1)"
  proof -
    have "q < 2 powi a / of_int d" unfolding q using N(2) d by (simp add: divide_strict_right_mono)
    also have "\<dots> \<le> 2 powi a / 2 powi (b - 1)"
      using D(1) d by (intro divide_left_mono) (auto intro!: mult_pos_pos)
    also have "\<dots> = 2 powi (a - b + 1)" by (simp add: power_int_diff [symmetric] algebra_simps)
    finally show ?thesis .
  qed
  have lo: "2 powi (a - b - 1) \<le> q"
  proof -
    have "2 powi (a - b - 1) = 2 powi (a - 1) / (2::rat) powi b"
      by (simp add: power_int_diff [symmetric] algebra_simps)
    also have "\<dots> \<le> of_int n / 2 powi b" using N(1) by (simp add: divide_right_mono)
    also have "\<dots> \<le> q" unfolding q
      using D(2) d n by (intro divide_left_mono) (auto intro!: mult_pos_pos)
    finally show ?thesis .
  qed
  have i: "ilog2 q = (if 2 powi (a - b) \<le> q then a - b else a - b - 1)"
    by (simp add: ilog2_def nd a_def b_def Let_def bitlen_def)
  show "2 powi ilog2 q \<le> q" using lo by (simp add: i)
  show "q < 2 powi (ilog2 q + 1)" using up by (auto simp: i)
qed

lemma powi_le_iff: "(2::rat) powi i \<le> 2 powi j \<longleftrightarrow> i \<le> j"
  using power_int_increasing [of i j "2::rat"] power_int_strict_increasing [of j i "2::rat"]
  by (force simp: not_le [symmetric])

lemma powi_less_iff: "(2::rat) powi i < 2 powi j \<longleftrightarrow> i < j"
  by (metis powi_le_iff not_le)

lemma ilog2_unique:
  assumes "2 powi k \<le> q" and "q < 2 powi (k + 1)"
  shows "ilog2 q = k"
proof -
  have q: "0 < q" using assms(1) by (meson less_le_trans zero_less_numeral zero_less_power_int)
  have "(2::rat) powi k < 2 powi (ilog2 q + 1)" using assms(1) ilog2_bounds(2) [OF q] by (rule le_less_trans)
  moreover have "(2::rat) powi ilog2 q < 2 powi (k + 1)" using ilog2_bounds(1) [OF q] assms(2) by (rule le_less_trans)
  ultimately show ?thesis by (simp add: powi_less_iff)
qed

lemma ilog2_mono: "0 < x \<Longrightarrow> x \<le> y \<Longrightarrow> ilog2 x \<le> ilog2 y"
proof -
  assume x: "0 < x" and xy: "x \<le> y"
  have "(2::rat) powi ilog2 x < 2 powi (ilog2 y + 1)"
    using ilog2_bounds(1) [OF x] ilog2_bounds(2) [of y] x xy by simp
  then show ?thesis by (simp add: powi_less_iff)
qed


subsection \<open>Rounding to an integer\<close>

lemma rne_of_int [simp]: "rne (of_int n) = n"
  by (simp add: rne_def)

lemma rne_floor: "\<lfloor>x\<rfloor> \<le> rne x" "rne x \<le> \<lfloor>x\<rfloor> + 1"
  by (simp_all add: rne_def Let_def)

lemma rne_mono: "x \<le> y \<Longrightarrow> rne x \<le> rne y"
proof -
  assume xy: "x \<le> y"
  show ?thesis
  proof (cases "\<lfloor>x\<rfloor> = \<lfloor>y\<rfloor>")
    case True
    then show ?thesis using xy by (auto simp: rne_def Let_def)
  next
    case False
    with floor_mono [OF xy] have "\<lfloor>x\<rfloor> + 1 \<le> \<lfloor>y\<rfloor>" by simp
    then show ?thesis using rne_floor(2) [of x] rne_floor(1) [of y] by linarith
  qed
qed

lemma rne_error: "\<bar>of_int (rne x) - x\<bar> \<le> 1 / 2"
proof -
  have "of_int \<lfloor>x\<rfloor> \<le> x" "x < of_int \<lfloor>x\<rfloor> + 1" by linarith+
  then show ?thesis by (auto simp: rne_def Let_def abs_le_iff)
qed

lemma rne_nonneg: "0 \<le> x \<Longrightarrow> 0 \<le> rne x"
  using rne_mono [of 0 x] rne_of_int [of 0] by simp

subsection \<open>Rounding to 53 bits\<close>

lemma ulp_exp_mono: "0 < x \<Longrightarrow> x \<le> y \<Longrightarrow> ulp_exp x \<le> ulp_exp y"
  using ilog2_mono [of x y] by (simp add: ulp_exp_def)

lemma rnd_nonneg [simp]: "0 \<le> rnd q"
  by (auto simp: rnd_def Let_def intro!: mult_nonneg_nonneg rne_nonneg divide_nonneg_nonneg)

lemma rnd_nonpos [simp]: "q \<le> 0 \<Longrightarrow> rnd q = 0"
  by (simp add: rnd_def)

text \<open>A multiple of its own last place is not changed.\<close>

lemma rnd_fixed:
  assumes "0 < q" and "q = of_int n * 2 powi e" and "ulp_exp q \<le> e"
  shows "rnd q = q"
proof -
  obtain k where k: "e = ulp_exp q + int k" using assms(3) by (metis zle_iff_zadd)
  have "q / 2 powi ulp_exp q = of_int (n * 2 ^ k)"
    using arg_cong [OF assms(2), of "\<lambda>z. z / 2 powi ulp_exp q"]
    by (simp add: k power_int_add)
  then have "rne (q / 2 powi ulp_exp q) = n * 2 ^ k" by (metis rne_of_int)
  moreover have "q = of_int (n * 2 ^ k) * 2 powi ulp_exp q"
    using assms(2) by (simp add: k power_int_add mult_ac)
  ultimately show ?thesis using assms(1) by (simp add: rnd_def Let_def)
qed

lemma rnd_le_grid:
  assumes "0 < x" and "x \<le> of_int n * 2 powi e" and "ulp_exp x \<le> e"
  shows "rnd x \<le> of_int n * 2 powi e"
proof -
  obtain k where k: "e = ulp_exp x + int k" using assms(3) by (metis zle_iff_zadd)
  have "x / 2 powi ulp_exp x \<le> of_int (n * 2 ^ k)"
    using assms(2) by (simp add: k power_int_add pos_divide_le_eq mult_ac)
  from rne_mono [OF this] have "rne (x / 2 powi ulp_exp x) \<le> n * 2 ^ k" by (simp only: rne_of_int)
  then have "of_int (rne (x / 2 powi ulp_exp x)) \<le> (of_int (n * 2 ^ k) :: rat)" by (simp only: of_int_le_iff)
  then have "rnd x \<le> of_int (n * 2 ^ k) * 2 powi ulp_exp x"
    using assms(1) by (simp add: rnd_def Let_def mult_right_mono)
  then show ?thesis by (simp add: k power_int_add mult_ac)
qed

lemma rnd_ge_grid:
  assumes "0 < x" and "of_int n * 2 powi e \<le> x" and "ulp_exp x \<le> e"
  shows "of_int n * 2 powi e \<le> rnd x"
proof -
  obtain k where k: "e = ulp_exp x + int k" using assms(3) by (metis zle_iff_zadd)
  have "of_int (n * 2 ^ k) \<le> x / 2 powi ulp_exp x"
    using assms(2) by (simp add: k power_int_add pos_le_divide_eq mult_ac)
  from rne_mono [OF this] have "n * 2 ^ k \<le> rne (x / 2 powi ulp_exp x)" by (simp only: rne_of_int)
  then have "(of_int (n * 2 ^ k) :: rat) \<le> of_int (rne (x / 2 powi ulp_exp x))" by (simp only: of_int_le_iff)
  then have "of_int (n * 2 ^ k) * 2 powi ulp_exp x \<le> rnd x"
    using assms(1) by (simp add: rnd_def Let_def mult_right_mono)
  then show ?thesis by (simp add: k power_int_add mult_ac)
qed

text \<open>Rounding is monotone, also across a change of exponent.\<close>

theorem rnd_mono: "x \<le> y \<Longrightarrow> rnd x \<le> rnd y"
proof (cases "0 < x")
  case False
  then show ?thesis by simp
next
  case True
  assume xy: "x \<le> y"
  show ?thesis
  proof (cases "ulp_exp x = ulp_exp y")
    case True
    with \<open>0 < x\<close> xy show ?thesis
      by (auto simp: rnd_def Let_def intro!: mult_right_mono rne_mono divide_right_mono)
  next
    case False
    with ulp_exp_mono [OF \<open>0 < x\<close> xy] have u: "ulp_exp x < ulp_exp y" by simp
    then have i: "ilog2 x < ilog2 y" "ulp_exp y \<le> ilog2 y" "ulp_exp x \<le> ilog2 y"
      by (auto simp: ulp_exp_def split: if_splits)
    have y: "0 < y" using \<open>0 < x\<close> xy by simp
    have "(2::rat) powi (ilog2 x + 1) \<le> 2 powi ilog2 y" using i(1) by (simp add: powi_le_iff)
    then have "x \<le> of_int 1 * 2 powi ilog2 y" using ilog2_bounds(2) [OF \<open>0 < x\<close>] by simp
    then have "rnd x \<le> of_int 1 * 2 powi ilog2 y" using i(3) \<open>0 < x\<close> by (intro rnd_le_grid) auto
    also have "\<dots> \<le> rnd y" using ilog2_bounds(1) [OF y] y i(2) by (intro rnd_ge_grid) auto
    finally show ?thesis .
  qed
qed

text \<open>Integers up to \<open>2 ^ 53\<close> are exact.\<close>

lemma rnd_of_nat: "n < 2 ^ 53 \<Longrightarrow> rnd (of_nat n) = of_nat n"
proof (cases "n = 0")
  case False
  assume n: "n < 2 ^ 53"
  have pos: "(0::rat) < of_nat n" using False by simp
  have "(2::rat) powi ilog2 (of_nat n) < 2 powi 53"
    using ilog2_bounds(1) [OF pos] n by (simp add: le_less_trans flip: of_nat_less_iff)
  then have "ilog2 (of_nat n) \<le> 52" by (simp only: powi_less_iff)
  then have "ulp_exp (of_nat n) \<le> 0" by (simp add: ulp_exp_def)
  then show ?thesis using rnd_fixed [OF pos, of "int n" 0] by simp
qed simp

lemma rnd_1 [simp]: "rnd 1 = 1"
  using rnd_of_nat [of 1] by simp

lemma rnd_0 [simp]: "rnd 0 = 0"
  by simp

text \<open>Relative error of a normal value.\<close>

lemma rnd_rel_error:
  assumes "2 powi (- 1022) \<le> q"
  shows "\<bar>rnd q - q\<bar> \<le> q / 2 ^ 53"
proof -
  have q: "0 < q" using assms by (meson less_le_trans zero_less_numeral zero_less_power_int)
  have "(2::rat) powi (- 1022) < 2 powi (ilog2 q + 1)"
    using assms ilog2_bounds(2) [OF q] by (rule le_less_trans)
  then have "- 1022 \<le> ilog2 q" by (simp only: powi_less_iff)
  then have u: "ulp_exp q = ilog2 q - 52" by (simp add: ulp_exp_def)
  let ?u = "2 powi ulp_exp q :: rat"
  have "rnd q - q = (of_int (rne (q / ?u)) - q / ?u) * ?u"
    using q by (simp add: rnd_def Let_def left_diff_distrib)
  then have "\<bar>rnd q - q\<bar> = \<bar>of_int (rne (q / ?u)) - q / ?u\<bar> * ?u"
    by (simp add: abs_mult)
  also have "\<dots> \<le> 1 / 2 * ?u" by (intro mult_right_mono rne_error) simp
  also have "\<dots> = 2 powi ilog2 q / 2 ^ 53" by (simp add: u power_int_diff)
  also have "\<dots> \<le> q / 2 ^ 53" using ilog2_bounds(1) [OF q] by (simp add: divide_right_mono)
  finally show ?thesis .
qed

section \<open>The type and its operations\<close>

text \<open>\<open>Fin s m\<close> is a finite value with sign bit \<open>s\<close> (true for negative) and magnitude \<open>m\<close>.\<close>

datatype f64 = NaN | Inf bool | Fin bool rat

definition f64_max :: rat where
  "f64_max = (2 ^ 53 - 1) * 2 ^ 971"

text \<open>The rounded result with a given sign: an infinity when the rounded magnitude is too large.\<close>

definition f64_round :: "bool \<Rightarrow> rat \<Rightarrow> f64" where
  "f64_round s m = (let r = rnd m in if r \<le> f64_max then Fin s r else Inf s)"

definition f64_lit :: "rat \<Rightarrow> f64" where
  "f64_lit q = f64_round False q"

definition f64_of_nat :: "nat \<Rightarrow> f64" where
  "f64_of_nat n = f64_round False (of_nat n)"

definition f64_of_word :: "'n::len word \<Rightarrow> f64" where
  "f64_of_word w = f64_of_nat (unat w)"

text \<open>The exact value of a finite number.\<close>

definition f64_value :: "bool \<Rightarrow> rat \<Rightarrow> rat" where
  "f64_value s m = (if s then - m else m)"

text \<open>The arithmetic and the (partial) order of the type, as instances of the classes that carry
  the operators.\<close>

instantiation f64 :: "{zero, one, plus, times, inverse, ord}"
begin

definition "0 = Fin False 0"

definition "1 = Fin False 1"

fun plus_f64 :: "f64 \<Rightarrow> f64 \<Rightarrow> f64" where
  "plus_f64 NaN y = NaN"
| "plus_f64 x NaN = NaN"
| "plus_f64 (Inf s) (Inf t) = (if s = t then Inf s else NaN)"
| "plus_f64 (Inf s) (Fin t b) = Inf s"
| "plus_f64 (Fin s a) (Inf t) = Inf t"
| "plus_f64 (Fin s a) (Fin t b) =
     (if s = t then f64_round s (a + b)
      else if b < a then f64_round s (a - b)
      else if a < b then f64_round t (b - a)
      else Fin False 0)"

fun times_f64 :: "f64 \<Rightarrow> f64 \<Rightarrow> f64" where
  "times_f64 NaN y = NaN"
| "times_f64 x NaN = NaN"
| "times_f64 (Inf s) (Inf t) = Inf (s \<noteq> t)"
| "times_f64 (Inf s) (Fin t b) = (if b = 0 then NaN else Inf (s \<noteq> t))"
| "times_f64 (Fin s a) (Inf t) = (if a = 0 then NaN else Inf (s \<noteq> t))"
| "times_f64 (Fin s a) (Fin t b) = f64_round (s \<noteq> t) (a * b)"

fun divide_f64 :: "f64 \<Rightarrow> f64 \<Rightarrow> f64" where
  "divide_f64 NaN y = NaN"
| "divide_f64 x NaN = NaN"
| "divide_f64 (Inf s) (Inf t) = NaN"
| "divide_f64 (Inf s) (Fin t b) = Inf (s \<noteq> t)"
| "divide_f64 (Fin s a) (Inf t) = Fin (s \<noteq> t) 0"
| "divide_f64 (Fin s a) (Fin t b) =
     (if b = 0 then if a = 0 then NaN else Inf (s \<noteq> t) else f64_round (s \<noteq> t) (a / b))"

definition inverse_f64 :: "f64 \<Rightarrow> f64" where
  "inverse_f64 x = Fin False 1 div x"

fun less_eq_f64 :: "f64 \<Rightarrow> f64 \<Rightarrow> bool" where
  "less_eq_f64 NaN y = False"
| "less_eq_f64 x NaN = False"
| "less_eq_f64 (Inf s) (Inf t) = (s \<or> \<not> t)"
| "less_eq_f64 (Inf s) (Fin t b) = s"
| "less_eq_f64 (Fin s a) (Inf t) = (\<not> t)"
| "less_eq_f64 (Fin s a) (Fin t b) = (f64_value s a \<le> f64_value t b)"

fun less_f64 :: "f64 \<Rightarrow> f64 \<Rightarrow> bool" where
  "less_f64 NaN y = False"
| "less_f64 x NaN = False"
| "less_f64 (Inf s) (Inf t) = (s \<and> \<not> t)"
| "less_f64 (Inf s) (Fin t b) = s"
| "less_f64 (Fin s a) (Inf t) = (\<not> t)"
| "less_f64 (Fin s a) (Fin t b) = (f64_value s a < f64_value t b)"

instance ..

end

text \<open>\<open>f64::min\<close>: a NaN operand is ignored.\<close>

definition f64_min :: "f64 \<Rightarrow> f64 \<Rightarrow> f64" where
  "f64_min x y = (if x = NaN then y else if y = NaN then x else if x \<le> y then x else y)"

text \<open>\<open>x as u64\<close>: truncates, stops at the ends of the range, NaN becomes 0.\<close>

fun f64_to_u64 :: "f64 \<Rightarrow> u64" where
  "f64_to_u64 NaN = 0"
| "f64_to_u64 (Inf s) = (if s then 0 else - 1)"
| "f64_to_u64 (Fin s m) = (if s then 0 else if m < 2 ^ 64 then of_int \<lfloor>m\<rfloor> else - 1)"

section \<open>Evaluation\<close>

text \<open>
  A rounding is computed from the binary exponent of its argument: this is how the literals of
  the source and the witnesses are evaluated.
\<close>

lemma rnd_eqI:
  assumes "2 powi k \<le> q" and "q < 2 powi (k + 1)" and "- 1022 \<le> k"
    and "rne (q * 2 powi (52 - k)) = n"
  shows "rnd q = of_int n * 2 powi (k - 52)"
proof -
  have q: "0 < q" using assms(1) by (meson less_le_trans zero_less_numeral zero_less_power_int)
  have "ulp_exp q = k - 52" using ilog2_unique [OF assms(1,2)] assms(3) by (simp add: ulp_exp_def)
  moreover have "q / 2 powi (k - 52) = q * 2 powi (52 - k)"
    by (simp add: power_int_diff)
  ultimately show ?thesis using q assms(4) by (simp add: rnd_def Let_def)
qed

lemma rne_near: "\<bar>x - of_int n\<bar> < 1 / 2 \<or> \<bar>x - of_int n\<bar> \<le> 1 / 2 \<and> even n \<Longrightarrow> rne x = n"
proof -
  assume h: "\<bar>x - of_int n\<bar> < 1 / 2 \<or> \<bar>x - of_int n\<bar> \<le> 1 / 2 \<and> even n"
  then have "\<bar>x - of_int n\<bar> \<le> 1 / 2" by linarith
  then have "of_int n - 1 / 2 \<le> x" "x \<le> of_int n + 1 / 2" by linarith+
  then have "\<lfloor>x\<rfloor> = n \<or> \<lfloor>x\<rfloor> = n - 1" by linarith
  then show ?thesis
  proof
    assume "\<lfloor>x\<rfloor> = n"
    with h show ?thesis by (auto simp: rne_def Let_def)
  next
    assume f: "\<lfloor>x\<rfloor> = n - 1"
    then have "x < of_int n" by linarith
    with h f show ?thesis by (auto simp: rne_def Let_def)
  qed
qed

text \<open>The certificate for a value in \<open>[2 ^ -j, 2 ^ (1 - j))\<close>: its rounded 53-bit significand.\<close>

lemma rnd_frac:
  assumes "1 \<le> q * 2 ^ j" and "q * 2 ^ j < 2" and "j \<le> 1022"
    and "\<bar>q * 2 ^ (52 + j) - of_int n\<bar> < 1 / 2 \<or> \<bar>q * 2 ^ (52 + j) - of_int n\<bar> \<le> 1 / 2 \<and> even n"
  shows "rnd q = of_int n / 2 ^ (52 + j)"
proof -
  have q: "0 < q" using assms(1) by (metis less_le_trans zero_less_one zero_less_mult_pos2 zero_less_numeral zero_less_power)
  have p1: "(2::rat) powi (- int j) = inverse (2 ^ j)" by (simp only: power_int_minus power_int_of_nat)
  have p2: "(2::rat) powi (- int j + 1) = inverse (2 ^ j) * 2"
    by (subst power_int_add) (simp_all only: p1 power_int_1_right, simp)
  have e: "- int j - 52 = - int (52 + j)" by (simp only: of_nat_add of_nat_numeral)
  have p3: "(2::rat) powi (- int j - 52) = inverse (2 ^ (52 + j))"
    unfolding e by (simp only: power_int_minus power_int_of_nat)
  have "ilog2 q = - int j"
  proof (rule ilog2_unique)
    show "2 powi (- int j) \<le> q" unfolding p1 using assms(1) by (simp add: field_simps)
    show "q < 2 powi (- int j + 1)" unfolding p2 using assms(2) by (simp add: field_simps)
  qed
  then have u: "ulp_exp q = - int j - 52" using assms(3) by (simp add: ulp_exp_def)
  have "q / inverse (2 ^ (52 + j)) = q * 2 ^ (52 + j)" by (simp only: divide_inverse inverse_inverse_eq)
  with rne_near [OF assms(4)] q show ?thesis
    by (simp only: rnd_def Let_def u p3 divide_inverse not_le [symmetric] simp_thms if_False)
qed

lemma rnd_pow2: "rnd (2 ^ j) = 2 ^ j"
proof (rule rnd_fixed [where n = 1 and e = "int j"])
  have "ilog2 (2 ^ j) = int j"
    by (rule ilog2_unique) (simp_all add: power_int_add)
  then show "ulp_exp (2 ^ j) \<le> int j" by (simp add: ulp_exp_def)
qed simp_all

lemma f64_round_small:
  assumes "m \<le> 2 ^ 1000"
  shows "f64_round s m = Fin s (rnd m)"
proof -
  have "rnd m \<le> rnd (2 ^ 1000)" using assms by (rule rnd_mono)
  also have "\<dots> = 2 ^ 1000" by (rule rnd_pow2)
  also have "\<dots> \<le> f64_max"  by (simp add: f64_max_def)
  finally show ?thesis by (simp add: f64_round_def Let_def)
qed

lemma f64_of_nat_fin:
  assumes "n < 2 ^ 64"
  shows "f64_of_nat n = Fin False (rnd (of_nat n))"
proof -
  have "(of_nat n :: rat) < of_nat (2 ^ 64)" using assms by (simp only: of_nat_less_iff)
  then have "(of_nat n :: rat) \<le> 2 ^ 64" by simp
  also have "(2::rat) ^ 64 \<le> 2 ^ 1000" by (rule power_increasing) simp_all
  finally show ?thesis by (simp add: f64_of_nat_def f64_round_small)
qed

lemma f64_of_u64: "f64_of_word (w :: u64) = Fin False (rnd (of_nat (unat w)))"
  using unat_lt_2p [of w] by (simp add: f64_of_word_def f64_of_nat_fin)

lemma f64_of_u32: "f64_of_word (w :: u32) = Fin False (of_nat (unat w))"
  using unat_lt_2p [of w] rnd_of_nat [of "unat w"] by (simp add: f64_of_word_def f64_of_nat_fin)

lemma rnd_le_fixed: "x \<le> y \<Longrightarrow> rnd y = y \<Longrightarrow> rnd x \<le> y"
  using rnd_mono [of x y] by simp

lemma rnd_ge_fixed: "y \<le> x \<Longrightarrow> rnd y = y \<Longrightarrow> y \<le> rnd x"
  using rnd_mono [of y x] by simp

lemma rnd_of_nat_ge_1: "0 < n \<Longrightarrow> 1 \<le> rnd (of_nat n)"
  by (rule rnd_ge_fixed) simp_all

text \<open>The literals of the source.\<close>

lemma lit_0: "f64_lit 0 = Fin False 0"
  by (simp add: f64_lit_def f64_round_small)

lemma lit_1: "f64_lit 1 = Fin False 1"
  by (simp add: f64_lit_def f64_round_small)

lemma lit_100: "f64_lit 100 = Fin False 100"
  using rnd_of_nat [of 100] by (simp add: f64_lit_def f64_round_small)

lemma rnd_067: "rnd (67 / 100) = 6034823500676465 / 2 ^ 53"
  using rnd_frac [of "67 / 100" 1 6034823500676465] by simp

lemma rnd_04: "rnd (4 / 10) = 3602879701896397 / 2 ^ 53"
  using rnd_frac [of "4 / 10" 2 7205759403792794] by simp

lemma rnd_02: "rnd (2 / 10) = 3602879701896397 / 2 ^ 54"
  using rnd_frac [of "2 / 10" 3 7205759403792794] by simp

lemma rnd_095: "rnd (95 / 100) = 8556839292003942 / 2 ^ 53"
  using rnd_frac [of "95 / 100" 1 8556839292003942] by simp

lemma lit_067: "f64_lit (67 / 100) = Fin False (6034823500676465 / 2 ^ 53)"
  by (simp add: f64_lit_def f64_round_small rnd_067 [simplified])

lemma lit_04: "f64_lit (4 / 10) = Fin False (3602879701896397 / 2 ^ 53)"
  by (simp add: f64_lit_def f64_round_small rnd_04 [simplified])

lemma lit_02: "f64_lit (2 / 10) = Fin False (3602879701896397 / 2 ^ 54)"
  by (simp add: f64_lit_def f64_round_small rnd_02 [simplified])

lemma lit_095: "f64_lit (95 / 100) = Fin False (8556839292003942 / 2 ^ 53)"
  by (simp add: f64_lit_def f64_round_small rnd_095 [simplified])

lemmas f64_lits = lit_0 lit_1 lit_100 lit_067 lit_04 lit_02 lit_095

section \<open>Order and non-negative values\<close>

lemma f64_value_simps [simp]: "f64_value False m = m" "f64_value True m = - m"
  by (simp_all add: f64_value_def)

lemma f64_le_less_trans: "(x :: f64) \<le> y \<Longrightarrow> y < z \<Longrightarrow> x < z"
  by (cases x; cases y; cases z) auto

lemma f64_le_trans: "(x :: f64) \<le> y \<Longrightarrow> y \<le> z \<Longrightarrow> x \<le> z"
  by (cases x; cases y; cases z) auto

lemma f64_less_not_le: "(x :: f64) < y \<Longrightarrow> \<not> y \<le> x"
  by (cases x; cases y) auto

lemma f64_le_Fin [simp]: "Fin False a \<le> Fin False b \<longleftrightarrow> a \<le> b"
  by simp

lemma f64_less_Fin [simp]: "Fin False a < Fin False b \<longleftrightarrow> a < b"
  by simp

definition f64_nonneg :: "f64 \<Rightarrow> bool" where
  "f64_nonneg x = (case x of NaN \<Rightarrow> False | Inf s \<Rightarrow> \<not> s | Fin s m \<Rightarrow> \<not> s \<and> 0 \<le> m)"

text \<open>A quotient of non-negative values, cut off at 1, lies between 0 and 1.\<close>

lemma f64_min_1_div:
  assumes "f64_nonneg x" and "f64_nonneg y"
  shows "\<exists>m. f64_min (x / y) (f64_lit 1) = Fin False m \<and> 0 \<le> m \<and> m \<le> 1"
proof -
  have r: "f64_round False m = Fin False (rnd m) \<or> f64_round False m = Inf False" for m
    by (simp add: f64_round_def Let_def)
  have n: "0 \<le> rnd m" for m by simp
  show ?thesis
    using assms
  proof (cases x; cases y)
    fix s a t b assume xy: "x = Fin s a" "y = Fin t b"
    have "x / y = NaN \<or> x / y = Inf False \<or> (\<exists>m. 0 \<le> m \<and> x / y = Fin False m)"
      using assms xy r [of "a / b"] n [of "a / b"] by (auto simp: f64_nonneg_def)
    then show ?thesis by (auto simp: f64_min_def lit_1)
  qed (auto simp: f64_nonneg_def f64_min_def lit_1)
qed

lemma f64_nonneg_Fin [simp]: "f64_nonneg (Fin s m) \<longleftrightarrow> \<not> s \<and> 0 \<le> m"
  by (simp add: f64_nonneg_def)

lemma f64_nonneg_of_u64 [simp]: "f64_nonneg (f64_of_word (w :: u64))"
  by (simp add: f64_of_u64)

lemma f64_nonneg_of_u32 [simp]: "f64_nonneg (f64_of_word (w :: u32))"
  using of_nat_0_le_iff [of "unat w", where 'a = rat] by (simp add: f64_of_u32)

text \<open>Operations on small finite non-negative values do not leave the finite range.\<close>

lemma f64_times_small: "a * b \<le> 2 ^ 1000 \<Longrightarrow> Fin False a * Fin False b = Fin False (rnd (a * b))"
  by (simp add: f64_round_small)

lemma f64_plus_small: "a + b \<le> 2 ^ 1000 \<Longrightarrow> Fin False a + Fin False b = Fin False (rnd (a + b))"
  by (simp add: f64_round_small)

lemma f64_div_small:
  "0 < b \<Longrightarrow> a / b \<le> 2 ^ 1000 \<Longrightarrow> Fin False a / Fin False b = Fin False (rnd (a / b))"
  by (simp add: f64_round_small)

lemma small_le_2_1000: "(x :: rat) \<le> 2 ^ 64 \<Longrightarrow> x \<le> 2 ^ 1000"
  using power_increasing [of 64 1000 "2 :: rat"] by linarith

end
