(* ===== verification/Metrics.thy ===== *)
theory Metrics
  imports F64
begin

text \<open>
  The process-wide metrics of \<open>src/finality/mod.rs\<close>: two counters and a gauge, each a
  \<open>once_cell::sync::Lazy\<close>. A lazy cell that nothing has dereferenced is \<open>None\<close>. The gauge is
  written through \<open>Deref\<close>, which registers it on first use; the counters are only read through
  \<open>Lazy::get\<close>, which answers \<open>None\<close> for a cell that was never forced and does not force it.
\<close>

record metrics =
  signature_verifications :: "u64 option"
  valid_signatures_total :: "u64 option"
  current_set_validators :: "f64 option"

definition metrics_init :: metrics where
  "metrics_init = \<lparr>signature_verifications = None, valid_signatures_total = None,
     current_set_validators = None\<rparr>"

text \<open>\<open>if let Some(counter) = Lazy::get(&C) { counter.increment(1) }\<close> for both counters.\<close>

definition count_valid_signature :: "metrics \<Rightarrow> metrics" where
  "count_valid_signature g = g\<lparr>
     signature_verifications := map_option (\<lambda>n. n + 1) (signature_verifications g),
     valid_signatures_total := map_option (\<lambda>n. n + 1) (valid_signatures_total g)\<rparr>"

text \<open>\<open>CURRENT_SET_VALIDATORS.set(n as f64)\<close>\<close>

definition set_validators_gauge :: "nat \<Rightarrow> metrics \<Rightarrow> metrics" where
  "set_validators_gauge n g = g\<lparr>current_set_validators := Some (f64_of_nat n)\<rparr>"

text \<open>The counters have not been registered.\<close>

definition counters_dead :: "metrics \<Rightarrow> bool" where
  "counters_dead g \<longleftrightarrow> signature_verifications g = None \<and> valid_signatures_total g = None"

lemma counters_dead_init [simp]: "counters_dead metrics_init"
  by (simp add: counters_dead_def metrics_init_def)

lemma count_valid_signature_dead [simp]: "counters_dead g \<Longrightarrow> count_valid_signature g = g"
  by (simp add: counters_dead_def count_valid_signature_def)

lemma set_validators_gauge_dead [simp]: "counters_dead (set_validators_gauge n g) = counters_dead g"
  by (simp add: counters_dead_def set_validators_gauge_def)

lemma gauge_last_write [simp]:
  "set_validators_gauge n (set_validators_gauge m g) = set_validators_gauge n g"
  by (simp add: set_validators_gauge_def)

lemma count_valid_signature_gauge [simp]:
  "current_set_validators (count_valid_signature g) = current_set_validators g"
  by (simp add: count_valid_signature_def)

end
