(* ===== verification/Authority.thy ===== *)
theory Authority
  imports Metrics
begin

text \<open>
  GRANDPA authority sets and \<open>AuthoritySetManager\<close> (\<open>src/finality/mod.rs\<close>, lines 73 to 174): the
  current set, the queue of scheduled changes and the last finalized block number. The number
  type is \<open>u32\<close>, which the pallet requires of its block type. The manager's operations also
  write the validators gauge, so they pass the metrics.
\<close>

section \<open>State and operations\<close>

type_synonym authority_id = bytes
type_synonym authority_list = "(authority_id \<times> u64) list"
type_synonym block_number = u32

record authority_set =
  authorities :: authority_list
  set_id :: u64

definition authority_set_new :: "authority_list \<Rightarrow> u64 \<Rightarrow> authority_set" where
  "authority_set_new as i = \<lparr>authorities = as, set_id = i\<rparr>"

definition current_authorities_of :: "authority_set \<Rightarrow> authority_list" where
  "current_authorities_of s = authorities s"

record authority_set_change =
  change_set_id :: u64
  change_authorities :: authority_list
  scheduled_at :: block_number

record authority_set_manager =
  current_set :: authority_set
  pending_changes :: "authority_set_change list"
  last_finalized :: block_number

definition manager_new :: "authority_set \<Rightarrow> metrics \<Rightarrow> authority_set_manager \<times> metrics" where
  "manager_new s g =
     (\<lparr>current_set = s, pending_changes = [], last_finalized = 0\<rparr>,
      set_validators_gauge (length (current_authorities_of s)) g)"

text \<open>The next set id is computed from the current set, with Rust's release-mode wrap-around.\<close>

definition schedule_change ::
    "authority_list \<Rightarrow> block_number \<Rightarrow> authority_set_manager \<Rightarrow> authority_set_manager" where
  "schedule_change new_auths sched m =
     (let next_set_id = set_id (current_set m) + 1
      in m\<lparr>pending_changes := pending_changes m @
            [\<lparr>change_set_id = next_set_id, change_authorities = new_auths, scheduled_at = sched\<rparr>]\<rparr>)"

definition apply_change ::
    "authority_set_change \<Rightarrow> authority_set_manager \<times> metrics \<Rightarrow> authority_set_manager \<times> metrics" where
  "apply_change c mg = (case mg of (m, g) \<Rightarrow>
     let s = authority_set_new (change_authorities c) (change_set_id c)
     in (m\<lparr>current_set := s\<rparr>, set_validators_gauge (length (current_authorities_of s)) g))"

text \<open>\<open>while let Some(change) = pending.first() { if due { remove(0); apply } else { break } }\<close>\<close>

function process_pending ::
    "block_number \<Rightarrow> authority_set_manager \<times> metrics \<Rightarrow> authority_set_manager \<times> metrics" where
  "process_pending n (m, g) = (case pending_changes m of
     [] \<Rightarrow> (m, g)
   | c # cs \<Rightarrow>
       if scheduled_at c \<le> n
       then process_pending n (apply_change c (m\<lparr>pending_changes := cs\<rparr>, g))
       else (m, g))"
  by pat_completeness auto
termination
  by (relation "measure (\<lambda>(n, m, g). length (pending_changes m))")
    (auto simp: apply_change_def Let_def)

declare process_pending.simps [simp del]

definition process_finalized_block ::
    "block_number \<Rightarrow> authority_set_manager \<times> metrics \<Rightarrow> authority_set_manager \<times> metrics" where
  "process_finalized_block n mg = (case mg of (m, g) \<Rightarrow>
     process_pending n (m\<lparr>last_finalized := n\<rparr>, g))"

definition current_authorities :: "authority_set_manager \<Rightarrow> authority_list" where
  "current_authorities m = current_authorities_of (current_set m)"

definition manager_set_id :: "authority_set_manager \<Rightarrow> u64" where
  "manager_set_id m = set_id (current_set m)"

section \<open>What a finalized block does to the queue\<close>

abbreviation due :: "block_number \<Rightarrow> authority_set_change \<Rightarrow> bool" where
  "due n c \<equiv> scheduled_at c \<le> n"

definition set_of_change :: "authority_set_change \<Rightarrow> authority_set" where
  "set_of_change c = authority_set_new (change_authorities c) (change_set_id c)"

text \<open>The abstract operation: the longest due prefix is consumed and its last change installed.\<close>

definition activate ::
    "block_number \<Rightarrow> authority_set_manager \<times> metrics \<Rightarrow> authority_set_manager \<times> metrics" where
  "activate n mg = (case mg of (m, g) \<Rightarrow>
     let ds = takeWhile (due n) (pending_changes m)
     in (m\<lparr>last_finalized := n, pending_changes := dropWhile (due n) (pending_changes m),
           current_set := (if ds = [] then current_set m else set_of_change (last ds))\<rparr>,
         if ds = [] then g else set_validators_gauge (length (change_authorities (last ds))) g))"

lemma process_pending_activate:
  "last_finalized m = n \<Longrightarrow> process_pending n (m, g) = activate n (m, g)"
proof (induction n "(m, g)" arbitrary: m g rule: process_pending.induct)
  case (1 n m g)
  show ?case
  proof (cases "pending_changes m")
    case Nil
    with 1(2) show ?thesis by (simp add: process_pending.simps [of n m g] activate_def)
  next
    case (Cons c cs)
    let ?m = "m\<lparr>pending_changes := cs, current_set := set_of_change c\<rparr>"
    let ?g = "set_validators_gauge (length (change_authorities c)) g"
    have a: "apply_change c (m\<lparr>pending_changes := cs\<rparr>, g) = (?m, ?g)"
      by (simp add: apply_change_def set_of_change_def authority_set_new_def current_authorities_of_def Let_def)
    show ?thesis
    proof (cases "due n c")
      case True
      have "process_pending n (m, g) = process_pending n (?m, ?g)"
        using Cons True a by (simp add: process_pending.simps [of n m g])
      also have "\<dots> = activate n (?m, ?g)"
        using 1(1) [OF Cons True a] 1(2) by simp
      also have "\<dots> = activate n (m, g)"
        using Cons True 1(2) by (simp add: activate_def Let_def)
      finally show ?thesis .
    next
      case False
      with Cons 1(2) show ?thesis
        by (simp add: process_pending.simps [of n m g] activate_def)
    qed
  qed
qed

lemma process_finalized_block_activate: "process_finalized_block n mg = activate n mg"
  by (cases mg) (simp add: process_finalized_block_def process_pending_activate activate_def Let_def)

section \<open>Set ids over a run\<close>

text \<open>
  The ids in the queue are non-decreasing and each is the current id or its successor, so
  activating any number of changes in one call moves the current id by at most one.
\<close>

definition ids_ok :: "authority_set_manager \<Rightarrow> bool" where
  "ids_ok m \<longleftrightarrow>
     (let i = unat (manager_set_id m); ids = map (unat \<circ> change_set_id) (pending_changes m)
      in sorted ids \<and> (\<forall>j \<in> set ids. i \<le> j \<and> j \<le> i + 1))"

lemma ids_ok_new: "ids_ok (fst (manager_new s g))"
  by (simp add: ids_ok_def manager_new_def)

lemma ids_ok_schedule:
  assumes "ids_ok m" and "manager_set_id m \<noteq> - 1"
  shows "ids_ok (schedule_change as n m)"
proof -
  have "unat (manager_set_id m + 1) = unat (manager_set_id m) + 1"
    using assms(2) unatSuc [of "manager_set_id m"] by (simp add: eq_neg_iff_add_eq_0 add.commute)
  then show ?thesis using assms(1)
    by (auto simp: ids_ok_def schedule_change_def manager_set_id_def Let_def sorted_append)
qed

text \<open>The id that a finalization leaves behind.\<close>

lemma activate_set_id:
  "manager_set_id (fst (activate n (m, g))) =
     (let ds = takeWhile (due n) (pending_changes m)
      in if ds = [] then manager_set_id m else change_set_id (last ds))"
  by (simp add: activate_def manager_set_id_def Let_def set_of_change_def authority_set_new_def)

lemma ids_ok_activate:
  assumes "ids_ok m"
  shows "ids_ok (fst (activate n (m, g)))"
    and "unat (manager_set_id m) \<le> unat (manager_set_id (fst (activate n (m, g))))"
    and "unat (manager_set_id (fst (activate n (m, g)))) \<le> unat (manager_set_id m) + 1"
proof -
  let ?f = "unat \<circ> change_set_id"
  define ds rest where ds: "ds = takeWhile (due n) (pending_changes m)"
    and rest: "rest = dropWhile (due n) (pending_changes m)"
  have split: "pending_changes m = ds @ rest" by (simp add: ds rest)
  have inv: "sorted (map ?f ds)" "sorted (map ?f rest)"
    "\<forall>c \<in> set ds. \<forall>d \<in> set rest. ?f c \<le> ?f d"
    "\<forall>c \<in> set ds \<union> set rest. unat (manager_set_id m) \<le> ?f c \<and> ?f c \<le> unat (manager_set_id m) + 1"
    using assms by (auto simp: ids_ok_def Let_def split sorted_append)
  have id: "manager_set_id (fst (activate n (m, g))) = (if ds = [] then manager_set_id m else change_set_id (last ds))"
    by (simp add: activate_set_id Let_def ds)
  have pend: "pending_changes (fst (activate n (m, g))) = rest"
    by (simp add: activate_def Let_def rest)
  show "unat (manager_set_id m) \<le> unat (manager_set_id (fst (activate n (m, g))))"
    and "unat (manager_set_id (fst (activate n (m, g)))) \<le> unat (manager_set_id m) + 1"
    using inv(4) last_in_set [of ds] by (auto simp: id)
  show "ids_ok (fst (activate n (m, g)))"
  proof (cases "ds = []")
    case True
    with inv(2,4) show ?thesis by (auto simp: ids_ok_def Let_def pend id)
  next
    case False
    then have l: "last ds \<in> set ds" by simp
    have "\<forall>d \<in> set rest. ?f (last ds) \<le> ?f d \<and> ?f d \<le> ?f (last ds) + 1"
    proof
      fix d assume d: "d \<in> set rest"
      then have "?f d \<le> unat (manager_set_id m) + 1" "unat (manager_set_id m) \<le> ?f (last ds)"
        using inv(4) l by blast+
      with inv(3) l d show "?f (last ds) \<le> ?f d \<and> ?f d \<le> ?f (last ds) + 1" by fastforce
    qed
    with False inv(2) show ?thesis by (auto simp: ids_ok_def Let_def pend id)
  qed
qed

text \<open>
  A run of the manager, as long as the id counter is not at \<open>u64::MAX\<close> when a change is
  scheduled (there the addition overflows).
\<close>

inductive manager_step ::
    "authority_set_manager \<times> metrics \<Rightarrow> authority_set_manager \<times> metrics \<Rightarrow> bool" where
  schedule: "manager_set_id m \<noteq> - 1 \<Longrightarrow> manager_step (m, g) (schedule_change as n m, g)"
| finalize: "manager_step (m, g) (process_finalized_block n (m, g))"

inductive_cases manager_stepE: "manager_step s t"

inductive manager_reachable ::
    "authority_set \<Rightarrow> metrics \<Rightarrow> authority_set_manager \<times> metrics \<Rightarrow> bool"
  for s :: authority_set and g :: metrics where
  start: "manager_reachable s g (manager_new s g)"
| step: "manager_reachable s g t \<Longrightarrow> manager_step t u \<Longrightarrow> manager_reachable s g u"

lemma manager_step_ids: "manager_step s t \<Longrightarrow> ids_ok (fst s) \<Longrightarrow> ids_ok (fst t)"
  by (auto elim!: manager_stepE simp: ids_ok_schedule process_finalized_block_activate ids_ok_activate)

lemma reachable_ids: "manager_reachable s g t \<Longrightarrow> ids_ok (fst t)"
  by (induction rule: manager_reachable.induct) (auto simp: ids_ok_new intro: manager_step_ids)

lemma manager_step_gauge:
  "manager_step s t \<Longrightarrow>
   current_set_validators (snd s) = Some (f64_of_nat (length (current_authorities (fst s)))) \<Longrightarrow>
   current_set_validators (snd t) = Some (f64_of_nat (length (current_authorities (fst t))))"
  by (auto elim!: manager_stepE simp: process_finalized_block_activate activate_def Let_def
      schedule_change_def current_authorities_def current_authorities_of_def set_of_change_def
      authority_set_new_def set_validators_gauge_def)

lemma reachable_gauge:
  "manager_reachable s g t \<Longrightarrow>
   current_set_validators (snd t) = Some (f64_of_nat (length (current_authorities (fst t))))"
proof (induction rule: manager_reachable.induct)
  case start
  show ?case by (simp add: manager_new_def set_validators_gauge_def current_authorities_def)
next
  case (step t u)
  then show ?case by (blast intro: manager_step_gauge)
qed

text \<open>When changes are queued in the order of their blocks, the due prefix is all that is due.\<close>

lemma takeWhile_due_filter:
  "sorted (map scheduled_at cs) \<Longrightarrow>
   takeWhile (due n) cs = filter (due n) cs \<and> dropWhile (due n) cs = filter (\<lambda>c. \<not> due n c) cs"
proof (induction cs)
  case (Cons c cs)
  show ?case
  proof (cases "due n c")
    case True
    with Cons show ?thesis by simp
  next
    case False
    then have "\<forall>d \<in> set cs. \<not> due n d" using Cons.prems by fastforce
    with False show ?thesis by (simp add: filter_empty_conv)
  qed
qed simp

section \<open>Properties\<close>

text \<open>C17. Processing a finalized block refines the abstract activation: the loop of front removals
  consumes exactly the longest prefix of the queue whose changes are due, installs the last of them
  with its own set id, publishes its size in the gauge and records the block number.\<close>

theorem finalized_block_activates_due_prefix:
  "process_finalized_block n (m, g) = activate n (m, g)"
  by (rule process_finalized_block_activate)


definition sample_manager :: authority_set_manager where
  "sample_manager = schedule_change [([2], 1)] 5 (fst (manager_new (authority_set_new [([1], 1)] 7) metrics_init))"


text \<open>Two changes scheduled before either is activated are given the same set id: once both are
  due, the second list is installed under the id announced for the first, and the id has advanced once
  for two changes.\<close>

lemma scheduled_changes_share_set_id:
  assumes "pending_changes m = []" and "a \<le> n" and "b \<le> n"
  shows "(let m' = fst (process_finalized_block n (schedule_change bs b (schedule_change as a m), g)) in
     current_authorities m' = bs \<and> pending_changes m' = [] \<and> manager_set_id m' = manager_set_id m + 1)"
  using assms
  by (simp add: process_finalized_block_activate activate_def schedule_change_def Let_def set_of_change_def
      authority_set_new_def current_authorities_def current_authorities_of_def manager_set_id_def)

lemma scheduled_changes_share_set_id_witness:
  "let m = fst (manager_new (authority_set_new [([1], 1)] 7) metrics_init);
       m' = fst (process_finalized_block 10 (schedule_change [([3], 1)] 9 (schedule_change [([2], 1)] 5 m), metrics_init))
   in current_authorities m' = [([3], 1)] \<and> manager_set_id m' = 8"
  using scheduled_changes_share_set_id [of "fst (manager_new (authority_set_new [([1], 1)] 7) metrics_init)" 5 10 9
      "[([3], 1)]" "[([2], 1)]" metrics_init]
  by (simp add: manager_new_def Let_def manager_set_id_def authority_set_new_def)

text \<open>When changes are queued in the order of their blocks, a finalized block leaves no due change
  behind and drops no change that is not due.\<close>

lemma ordered_queue_leaves_nothing_due:
  assumes "sorted (map scheduled_at (pending_changes m))"
  shows "pending_changes (fst (process_finalized_block n (m, g))) =
     filter (\<lambda>c. n < scheduled_at c) (pending_changes m)"
  using takeWhile_due_filter [OF assms, of n]
  by (simp add: process_finalized_block_activate activate_def Let_def not_le)

lemma ordered_queue_leaves_nothing_due_witness:
  "pending_changes (fst (process_finalized_block 5 (schedule_change [([3], 1)] 9 sample_manager, metrics_init))) =
     [\<lparr>change_set_id = 8, change_authorities = [([3], 1)], scheduled_at = 9\<rparr>]"
  using ordered_queue_leaves_nothing_due [of "schedule_change [([3], 1)] 9 sample_manager" 5 metrics_init]
  by (simp add: sample_manager_def schedule_change_def manager_new_def authority_set_new_def Let_def)

text \<open>A change at the head of the queue that is not due blocks the queue: the block is recorded
  and nothing is activated, even when later entries are due.\<close>

lemma undue_head_blocks_queue:
  assumes "pending_changes m = c # cs" and "n < scheduled_at c"
  shows "process_finalized_block n (m, g) = (m\<lparr>last_finalized := n\<rparr>, g)"
  using assms by (simp add: process_finalized_block_activate activate_def not_le [symmetric])

lemma undue_head_blocks_queue_witness:
  "let m = schedule_change [([3], 1)] 2 sample_manager
   in process_finalized_block 4 (m, metrics_init) = (m\<lparr>last_finalized := 4\<rparr>, metrics_init)"
  using undue_head_blocks_queue [of "schedule_change [([3], 1)] 2 sample_manager"
      "\<lparr>change_set_id = 8, change_authorities = [([2], 1)], scheduled_at = 5\<rparr>"
      "[\<lparr>change_set_id = 8, change_authorities = [([3], 1)], scheduled_at = 2\<rparr>]" 4 metrics_init]
  by (simp add: sample_manager_def schedule_change_def manager_new_def authority_set_new_def Let_def)

end
