(* ===== verification/Protocol_Types.thy ===== *)
theory Protocol_Types
  imports Authority
begin

text \<open>
  The data that the source exchanges with \<open>frost_protocol\<close>, Substrate and \<open>finality-grandpa\<close>:
  the fields and constructors the source itself reads and writes, and nothing of those crates'
  code. What the source calls there is collected in two records that the operations take as
  arguments: \<open>client\<close>, one snapshot of the answers of the blockchain backend and runtime API, and
  \<open>externs\<close>, the pure functions of the libraries (voter sets, signatures, codecs, formatting).
\<close>

section \<open>Hashes\<close>

text \<open>\<open>H256\<close> and \<open>[u8; 32]\<close> are 256-bit words; their bytes are most significant first.\<close>

type_synonym h256 = "256 word"

fun be_digits :: "nat \<Rightarrow> nat \<Rightarrow> nat list" where
  "be_digits 0 n = []"
| "be_digits (Suc k) n = be_digits k (n div 256) @ [n mod 256]"

definition h256_bytes :: "h256 \<Rightarrow> bytes" where
  "h256_bytes h = map of_nat (be_digits 32 (unat h))"

text \<open>\<open>slice.try_into::<[u8; 32]>()\<close>: fails on any other length.\<close>

definition array32 :: "bytes \<Rightarrow> h256 option" where
  "array32 bs = (if length bs = 32
     then Some (of_nat (foldl (\<lambda>n b. n * 256 + unat b) 0 bs)) else None)"

lemma length_be_digits [simp]: "length (be_digits k n) = k"
  by (induction k arbitrary: n) simp_all

lemma length_h256_bytes [simp]: "length (h256_bytes h) = 32"
  by (simp add: h256_bytes_def)

lemma be_digits_value:
  "foldl (\<lambda>n b. n * 256 + unat (b :: u8)) 0 (map of_nat (be_digits k n)) = n mod 256 ^ k"
proof (induction k arbitrary: n)
  case (Suc k)
  have "unat (of_nat (n mod 256) :: u8) = n mod 256"
    by (simp add: unat_of_nat)
  with Suc [of "n div 256"] show ?case
    by (simp add: mod_mult2_eq [of n 256 "256 ^ k"] mult.commute)
qed simp

lemma array32_h256_bytes [simp]: "array32 (h256_bytes h) = Some h"
proof -
  have "unat h < 256 ^ 32" using unat_lt_2p [of h] by simp
  then show ?thesis
    using be_digits_value [of 32 "unat h"] by (simp add: array32_def h256_bytes_def)
qed

section \<open>Data of the protocol crates\<close>

datatype chain_id = ChainId string

record block_ref =
  br_chain_id :: chain_id
  br_number :: u64
  br_hash :: h256

text \<open>\<open>serde_json::Value\<close>, the type of the literals built with \<open>json!\<close>.\<close>

datatype json = JNull | JBool bool | JInt int | JFloat f64 | JStr string
  | JArr "json list" | JObj "(string \<times> json) list"

text \<open>
  The thresholds are kept at the width of the source's \<open>as u64\<close>. Durations are in nanoseconds.
\<close>

record predicate_config =
  cfg_confidence_threshold :: f64
  cfg_min_confirmations :: u64
  cfg_evaluation_timeout :: nat

record chain_rules =
  rule_min_confirmations :: u64
  rule_confidence_threshold :: f64
  rule_max_fork_depth :: u64
  rule_min_participation :: f64
  rule_chain_params :: json

datatype finality_error =
    ChainError string
  | ConsensusError string u64 u64
  | Timeout block_ref nat nat

datatype fv_error = FinalityVerificationError string

section \<open>Data of Substrate and GRANDPA\<close>

record header =
  hd_number :: block_number
  hd_hash :: h256
  hd_parent_hash :: h256
  hd_state_root :: h256

record chain_info =
  best_hash :: h256
  best_number :: block_number
  finalized_number :: block_number

text \<open>Justifications are stored per consensus engine, as encoded bytes.\<close>

type_synonym justifications = "(bytes \<times> bytes) list"

text \<open>The answers of \<open>HeaderBackend\<close>, \<open>Backend\<close> and \<open>GrandpaApi\<close>; an error is its \<open>Display\<close> text.\<close>

record client =
  cl_header :: "h256 \<Rightarrow> (header option, string) res"
  cl_info :: chain_info
  cl_justifications :: "h256 \<Rightarrow> (justifications option, string) res"
  cl_grandpa_authorities :: "h256 \<Rightarrow> (authority_list, string) res"

record precommit =
  pc_target_hash :: h256
  pc_target_number :: block_number

record signed_precommit =
  sp_precommit :: precommit
  sp_signature :: bytes
  sp_id :: authority_id

record commit =
  cm_target_hash :: h256
  cm_target_number :: block_number
  cm_precommits :: "signed_precommit list"

record grandpa_justification =
  gj_round :: u64
  gj_commit :: commit

text \<open>
  The library functions: \<open>VoterSet::new\<close>, \<open>get\<close> with the voter's weight, \<open>total_weight\<close>; signature
  verification and the encoding of a precommit; \<open>into_justification(GRANDPA_ENGINE_ID)\<close> and the
  decoding of a justification; \<open>{:?}\<close> and \<open>{}\<close> of a hash, \<open>{}\<close> of a verification error; the hash
  of an authority list under \<open>DefaultHasher\<close>.
\<close>

record 'vs externs =
  vs_new :: "authority_list \<Rightarrow> 'vs option"
  vs_get :: "'vs \<Rightarrow> authority_id \<Rightarrow> u64 option"
  vs_total :: "'vs \<Rightarrow> u64"
  verify_sig :: "bytes \<Rightarrow> bytes \<Rightarrow> authority_id \<Rightarrow> bool"
  encode_precommit :: "precommit \<Rightarrow> bytes"
  into_grandpa_justification :: "justifications \<Rightarrow> bytes option"
  decode_justification :: "bytes \<Rightarrow> (grandpa_justification, string) res"
  debug_hash :: "h256 \<Rightarrow> string"
  display_hash :: "h256 \<Rightarrow> string"
  display_fv_error :: "fv_error \<Rightarrow> string"
  hash_authorities :: "authority_list \<Rightarrow> u64"

section \<open>What the source relies on in \<open>VoterSet\<close>\<close>

text \<open>
  The documentation of \<open>finality_grandpa::VoterSet::new\<close>: weights of one id are partial weights
  and are accumulated; the result is \<open>None\<close> when no weight is non-zero or the total exceeds
  \<open>u64::MAX\<close>.
\<close>

definition weight_of :: "authority_list \<Rightarrow> authority_id \<Rightarrow> nat" where
  "weight_of as i = sum_list (map (unat \<circ> snd) (filter (\<lambda>a. fst a = i) as))"

definition total_of :: "authority_list \<Rightarrow> nat" where
  "total_of as = sum_list (map (unat \<circ> snd) as)"

definition voter_set_of :: "'vs externs \<Rightarrow> authority_list \<Rightarrow> 'vs \<Rightarrow> bool" where
  "voter_set_of X as vs \<longleftrightarrow>
     unat (vs_total X vs) = total_of as \<and>
     (\<forall>i. map_option unat (vs_get X vs i) = (if weight_of as i = 0 then None else Some (weight_of as i)))"

definition voter_set_laws :: "'vs externs \<Rightarrow> bool" where
  "voter_set_laws X \<longleftrightarrow>
     (\<forall>as. (vs_new X as = None \<longleftrightarrow> total_of as = 0 \<or> 2 ^ 64 \<le> total_of as) \<and>
           (\<forall>vs. vs_new X as = Some vs \<longrightarrow> voter_set_of X as vs))"

lemma voter_set_laws_Nil: "voter_set_laws X \<Longrightarrow> vs_new X [] = None"
  unfolding voter_set_laws_def by (metis list.simps(8) sum_list.Nil total_of_def)

lemma voter_set_laws_None:
  "voter_set_laws X \<Longrightarrow> vs_new X as = None \<longleftrightarrow> total_of as = 0 \<or> 2 ^ 64 \<le> total_of as"
  unfolding voter_set_laws_def by blast

lemma voter_set_laws_Some:
  "voter_set_laws X \<Longrightarrow> vs_new X as = Some vs \<Longrightarrow>
     voter_set_of X as vs \<and> \<not> (total_of as = 0 \<or> 2 ^ 64 \<le> total_of as)"
  unfolding voter_set_laws_def by (metis option.distinct(1))

lemma weight_of_Nil [simp]: "weight_of [] i = 0"
  by (simp add: weight_of_def)

lemma weight_of_Cons [simp]: "weight_of ((j, w) # as) i = (if i = j then unat w else 0) + weight_of as i"
  by (simp add: weight_of_def)

lemma total_of_simps [simp]: "total_of [] = 0" "total_of ((j, w) # as) = unat w + total_of as"
  by (simp_all add: total_of_def)

text \<open>Distinct ids together weigh at most the total.\<close>

lemma sum_weight_of_le:
  assumes "finite S"
  shows "(\<Sum>i\<in>S. weight_of as i) \<le> total_of as"
proof (induction as)
  case (Cons a as)
  obtain j w where a: "a = (j, w)" by (cases a)
  have "(\<Sum>i\<in>S. weight_of (a # as) i) = (\<Sum>i\<in>S. if i = j then unat w else 0) + (\<Sum>i\<in>S. weight_of as i)"
    by (simp add: a sum.distrib)
  also have "(\<Sum>i\<in>S. if i = j then unat w else 0) \<le> unat w"
    using assms by (simp add: sum.delta)
  finally show ?case using Cons by (simp add: a)
qed simp

lemma weight_of_le_total: "weight_of as i \<le> total_of as"
  using sum_weight_of_le [of "{i}" as] by simp

text \<open>
  A concrete library that keeps these laws, for the theorems that evaluate the model: a voter set
  is its authority list, a signature is valid when it repeats the signer's id.
\<close>

definition list_externs :: "authority_list externs" where
  "list_externs = \<lparr>
     vs_new = (\<lambda>as. if total_of as = 0 \<or> 2 ^ 64 \<le> total_of as then None else Some as),
     vs_get = (\<lambda>as i. if weight_of as i = 0 then None else Some (of_nat (weight_of as i))),
     vs_total = (\<lambda>as. of_nat (total_of as)),
     verify_sig = (\<lambda>sig msg i. sig = i),
     encode_precommit = (\<lambda>p. h256_bytes (pc_target_hash p)),
     into_grandpa_justification = (\<lambda>js. map_of js [70, 82, 78, 75]),
     decode_justification = (\<lambda>bs. Err ''not a justification''),
     debug_hash = (\<lambda>h. ''hash''),
     display_hash = (\<lambda>h. ''hash''),
     display_fv_error = (\<lambda>e. case e of FinalityVerificationError m \<Rightarrow> m),
     hash_authorities = (\<lambda>as. of_nat (length as))\<rparr>"

lemma list_externs_laws: "voter_set_laws list_externs"
proof -
  have "voter_set_of list_externs as as" if "total_of as < 2 ^ 64" for as
  proof -
    have "weight_of as i < 2 ^ 64" for i using weight_of_le_total [of as i] that by linarith
    then show ?thesis using that
      by (simp add: voter_set_of_def list_externs_def unat_of_nat)
  qed
  then show ?thesis by (auto simp: voter_set_laws_def list_externs_def)
qed

end
