(* ===== verification/Chain_Config.thy ===== *)
theory Chain_Config
  imports Protocol_Types
begin

text \<open>
  Chain configuration and the GRANDPA error type of \<open>src/finality/mod.rs\<close> (lines 176 to 209 and
  1000 to 1048): the network a chain id is derived from, and the conversions of verification
  errors into the errors of \<open>frost_protocol\<close>.
\<close>

section \<open>Networks and chain ids\<close>

datatype network_type = Mainnet | Testnet string | Development

record chain_config =
  cc_chain_id :: string
  cc_network_type :: network_type
  cc_authority_set_id :: u64

definition chain_config_default :: chain_config where
  "chain_config_default = \<lparr>cc_chain_id = ''substrate-default'', cc_network_type = Development,
     cc_authority_set_id = 0\<rparr>"

definition get_chain_id :: "chain_config \<Rightarrow> string" where
  "get_chain_id c = (case cc_network_type c of
     Mainnet \<Rightarrow> cc_chain_id c
   | Testnet name \<Rightarrow> cc_chain_id c @ ''-testnet-'' @ name
   | Development \<Rightarrow> cc_chain_id c @ ''-dev'')"

section \<open>Errors of the verification client\<close>

datatype gv_error =
    GvChainError string
  | GvBlockNotFound string
  | GvConsensusError string
  | GvTimeoutError string
  | GvInvalidJustification string
  | GvInvalidProof string
  | GvAuthoritySetError string
  | GvSignatureVerificationError string
  | GvInvalidInput string

text \<open>The \<open>#[error("...")]\<close> attributes.\<close>

primrec gv_to_string :: "gv_error \<Rightarrow> string" where
  "gv_to_string (GvChainError s) = ''Chain error: '' @ s"
| "gv_to_string (GvBlockNotFound s) = ''Block not found: '' @ s"
| "gv_to_string (GvConsensusError s) = ''Consensus error: '' @ s"
| "gv_to_string (GvTimeoutError s) = ''Timeout error: '' @ s"
| "gv_to_string (GvInvalidJustification s) = ''Invalid justification: '' @ s"
| "gv_to_string (GvInvalidProof s) = ''Invalid proof: '' @ s"
| "gv_to_string (GvAuthoritySetError s) = ''Authority set error: '' @ s"
| "gv_to_string (GvSignatureVerificationError s) = ''Signature verification failed: '' @ s"
| "gv_to_string (GvInvalidInput s) = ''Invalid input: '' @ s"

definition gv_into_fv :: "gv_error \<Rightarrow> fv_error" where
  "gv_into_fv e = FinalityVerificationError (gv_to_string e)"

definition gv_into_finality :: "gv_error \<Rightarrow> finality_error" where
  "gv_into_finality e = (case e of
     GvConsensusError msg \<Rightarrow> ConsensusError msg 0 0
   | _ \<Rightarrow> ChainError (gv_to_string e))"

section \<open>Lemmas\<close>

lemma get_chain_id_prefix: "take (length (cc_chain_id c)) (get_chain_id c) = cc_chain_id c"
  by (simp add: get_chain_id_def split: network_type.splits)

lemma get_chain_id_inj:
  "cc_chain_id c = cc_chain_id d \<Longrightarrow> get_chain_id c = get_chain_id d \<Longrightarrow>
   cc_network_type c = cc_network_type d"
  by (auto simp: get_chain_id_def split: network_type.splits)

lemma gv_to_string_inj: "gv_to_string e = gv_to_string e' \<Longrightarrow> e = e'"
  by (cases e; cases e') simp_all

lemma gv_into_fv_inj: "gv_into_fv e = gv_into_fv e' \<longleftrightarrow> e = e'"
  using gv_to_string_inj by (auto simp: gv_into_fv_def)

end
