(* ===== verification/Finality_Predicate.thy ===== *)
theory Finality_Predicate
  imports Chain_Config
begin

text \<open>
  \<open>GrandpaFinality\<close> as the implementation of the \<open>FinalityPredicate\<close> trait
  (\<open>src/finality/mod.rs\<close>, lines 322 to 407): \<open>is_final\<close> over the three checks of a verification
  client, and the polling loop \<open>wait_for_finality\<close>. The client is a trait object, so the checks are
  arguments; the locale \<open>verification_client\<close> states what a client promises and derives what the
  predicate promises from it, the locale \<open>finality_predicate\<close>. Between two awaited calls other
  tasks may run: \<open>env i\<close> is what they do to the world between call \<open>i\<close> and the next.
\<close>

section \<open>The predicate\<close>

type_synonym ('w, 'a) fv_call = "'w \<Rightarrow> ('a, fv_error) res \<times> 'w"

definition grandpa_rules :: "predicate_config \<Rightarrow> chain_rules" where
  "grandpa_rules cfg = \<lparr>rule_min_confirmations = cfg_min_confirmations cfg,
     rule_confidence_threshold = cfg_confidence_threshold cfg,
     rule_max_fork_depth = 50,
     rule_min_participation = f64_lit (67 / 100),
     rule_chain_params = JObj [(''finality_protocol'', JStr ''GRANDPA''), (''voting_rounds'', JInt 2),
       (''supermajority_threshold'', JFloat (f64_lit (67 / 100)))]\<rparr>"

definition is_final ::
    "(fv_error \<Rightarrow> string) \<Rightarrow>
     (block_ref \<Rightarrow> ('w, bool) fv_call) \<Rightarrow> (block_ref \<Rightarrow> ('w, f64) fv_call) \<Rightarrow>
     (block_ref \<Rightarrow> chain_rules \<Rightarrow> ('w, bool) fv_call) \<Rightarrow>
     predicate_config \<Rightarrow> (nat \<Rightarrow> 'w \<Rightarrow> 'w) \<Rightarrow> block_ref \<Rightarrow> 'w \<Rightarrow> (bool, finality_error) res \<times> 'w" where
  "is_final show_err verify_hash confidence verify_rules cfg env b =
     (let threshold = cfg_confidence_threshold cfg; rules = grandpa_rules cfg in
      try_then (with_err (\<lambda>e. ChainError (''Block verification failed: '' @ show_err e)) (verify_hash b))
        (\<lambda>exists w.
      if \<not> exists then (Err (ChainError ''Block not found''), w) else
      try_then (with_err (\<lambda>e. ConsensusError (''Failed to get finality confidence: '' @ show_err e)
            (f64_to_u64 (threshold * f64_lit 100)) 0) (confidence b))
        (\<lambda>c w.
      if c < threshold then (Ok False, w) else
      with_err (\<lambda>e. ConsensusError (''Chain rule verification failed: '' @ show_err e)
            (f64_to_u64 (rule_min_participation rules * f64_lit 100)) (f64_to_u64 (c * f64_lit 100)))
        (verify_rules b rules) (env 1 w)) (env 0 w)))"

text \<open>
  The polling loop. Iteration \<open>n\<close> evaluates the predicate, reads the clock (\<open>since_start n\<close>) and
  sleeps (\<open>sleep n\<close> is what happens to the world meanwhile). \<open>None\<close> is a loop that never returns.
\<close>

partial_function (option) wait_loop ::
    "(nat \<Rightarrow> 'w \<Rightarrow> (bool, finality_error) res \<times> 'w) \<Rightarrow> (nat \<Rightarrow> nat) \<Rightarrow> (nat \<Rightarrow> 'w \<Rightarrow> 'w) \<Rightarrow>
     predicate_config \<Rightarrow> block_ref \<Rightarrow> nat \<Rightarrow> 'w \<Rightarrow> ((unit, finality_error) res \<times> 'w) option" where
  "wait_loop final_now since_start sleep cfg b retry_count w =
     (case final_now retry_count w of
       (r, w') \<Rightarrow> (case r of
         Ok fin \<Rightarrow>
           if fin then Some (Ok (), w')
           else if cfg_evaluation_timeout cfg < since_start retry_count
           then Some (Err (Timeout b (cfg_evaluation_timeout cfg) retry_count), w')
           else wait_loop final_now since_start sleep cfg b (Suc retry_count) (sleep retry_count w')
       | Err e \<Rightarrow> Some (Err e, w')
       | Panic m \<Rightarrow> Some (Panic m, w')))"

definition wait_for_finality ::
    "(nat \<Rightarrow> 'w \<Rightarrow> (bool, finality_error) res \<times> 'w) \<Rightarrow> (nat \<Rightarrow> nat) \<Rightarrow> (nat \<Rightarrow> 'w \<Rightarrow> 'w) \<Rightarrow>
     predicate_config \<Rightarrow> block_ref \<Rightarrow> 'w \<Rightarrow> ((unit, finality_error) res \<times> 'w) option" where
  "wait_for_finality final_now since_start sleep cfg b w =
     wait_loop final_now since_start sleep cfg b 0 w"

section \<open>The polling loop\<close>

text \<open>How the loop turns the last evaluation into its result.\<close>

definition loop_result ::
    "predicate_config \<Rightarrow> block_ref \<Rightarrow> nat \<Rightarrow> (bool, finality_error) res \<Rightarrow> (unit, finality_error) res" where
  "loop_result cfg b k r = (case r of
     Ok fin \<Rightarrow> if fin then Ok () else Err (Timeout b (cfg_evaluation_timeout cfg) k)
   | Err e \<Rightarrow> Err e
   | Panic m \<Rightarrow> Panic m)"

text \<open>A world invariant that evaluations and sleeps keep.\<close>

definition loop_keeps ::
    "('w \<Rightarrow> bool) \<Rightarrow> (nat \<Rightarrow> 'w \<Rightarrow> (bool, finality_error) res \<times> 'w) \<Rightarrow> (nat \<Rightarrow> 'w \<Rightarrow> 'w) \<Rightarrow> bool" where
  "loop_keeps I F sl \<longleftrightarrow> (\<forall>k w. I w \<longrightarrow> I (snd (F k w)) \<and> I (sl k w))"

definition loop_ends ::
    "('w \<Rightarrow> bool) \<Rightarrow> (nat \<Rightarrow> 'w \<Rightarrow> (bool, finality_error) res \<times> 'w) \<Rightarrow> (nat \<Rightarrow> nat) \<Rightarrow>
     predicate_config \<Rightarrow> block_ref \<Rightarrow> nat \<Rightarrow> (unit, finality_error) res \<times> 'w \<Rightarrow> bool" where
  "loop_ends I F S cfg b n x \<longleftrightarrow> (\<exists>k w r0. n \<le> k \<and> I w \<and> F k w = (r0, snd x) \<and>
     fst x = loop_result cfg b k r0 \<and> (r0 = Ok False \<longrightarrow> cfg_evaluation_timeout cfg < S k))"

lemma loop_ends_Suc: "loop_ends I F S cfg b (Suc n) x \<Longrightarrow> loop_ends I F S cfg b n x"
  unfolding loop_ends_def by (meson Suc_leD)

lemma loop_endsI:
  "F n w = (r0, w') \<Longrightarrow> I w \<Longrightarrow> (r0 = Ok False \<longrightarrow> cfg_evaluation_timeout cfg < S n) \<Longrightarrow>
   loop_ends I F S cfg b n (loop_result cfg b n r0, w')"
  unfolding loop_ends_def by fastforce

lemma wait_loop_ends_aux:
  "wait_loop F S sl cfg b n w = Some x \<Longrightarrow> loop_keeps I F sl \<longrightarrow> I w \<longrightarrow> loop_ends I F S cfg b n x"
proof (rule wait_loop.raw_induct
    [where P = "\<lambda>F S sl cfg b n w x. loop_keeps I F sl \<longrightarrow> I w \<longrightarrow> loop_ends I F S cfg b n x"], goal_cases)
  case (1 loop F S sl cfg b n w x)
  obtain r1 w1 where F: "F n w = (r1, w1)" by (cases "F n w")
  note stop = loop_endsI [of F n w r1 w1 I cfg S b, OF F]
  show ?case
  proof (intro impI)
    assume K: "loop_keeps I F sl" and I: "I w"
    show "loop_ends I F S cfg b n x"
    proof (cases "r1 = Ok False \<and> \<not> cfg_evaluation_timeout cfg < S n")
      case True
      with 1(3) have l: "loop F S sl cfg b (Suc n) (sl n w1) = Some x" by (simp add: F)
      have "I (snd (F n w))" using K I unfolding loop_keeps_def by blast
      then have "I w1" by (simp add: F)
      then have "I (sl n w1)" using K unfolding loop_keeps_def by blast
      from 1(2) [OF l, rule_format, OF K this] show ?thesis by (rule loop_ends_Suc)
    next
      case False
      then have "x = (loop_result cfg b n r1, w1)"
        using 1(3) by (cases r1) (simp_all add: F loop_result_def split: if_splits)
      then show ?thesis using stop [OF I] False by blast
    qed
  qed
qed

lemma wait_loop_ends:
  "wait_loop F S sl cfg b n w = Some x \<Longrightarrow> loop_keeps I F sl \<Longrightarrow> I w \<Longrightarrow> loop_ends I F S cfg b n x"
  by (rule wait_loop_ends_aux [rule_format])

text \<open>The loop returns once the clock passes the timeout, and not later than that evaluation.\<close>

lemma wait_loop_returns:
  assumes "cfg_evaluation_timeout cfg < S (n + m)"
  shows "\<exists>k v r0 w'. n \<le> k \<and> k \<le> n + m \<and> F k v = (r0, w') \<and>
    wait_loop F S sl cfg b n w = Some (loop_result cfg b k r0, w') \<and>
    (r0 = Ok False \<longrightarrow> cfg_evaluation_timeout cfg < S k)"
  using assms
proof (induction m arbitrary: n w)
  case 0
  obtain r1 w1 where F: "F n w = (r1, w1)" by (cases "F n w")
  then have "wait_loop F S sl cfg b n w = Some (loop_result cfg b n r1, w1)"
    using 0 by (subst wait_loop.simps) (auto simp: loop_result_def split: res.splits)
  with F 0 show ?case by fastforce
next
  case (Suc m)
  obtain r1 w1 where F: "F n w = (r1, w1)" by (cases "F n w")
  show ?case
  proof (cases "r1 = Ok False \<and> \<not> cfg_evaluation_timeout cfg < S n")
    case True
    then have "wait_loop F S sl cfg b n w = wait_loop F S sl cfg b (Suc n) (sl n w1)"
      by (subst wait_loop.simps) (simp add: F)
    moreover have "cfg_evaluation_timeout cfg < S (Suc n + m)" using Suc.prems by simp
    note Suc.IH [OF this, of "sl n w1"]
    ultimately show ?thesis by (metis Suc_leD add_Suc_shift)
  next
    case False
    then have "wait_loop F S sl cfg b n w = Some (loop_result cfg b n r1, w1)"
      by (subst wait_loop.simps) (auto simp: F loop_result_def split: res.splits)
    with F False show ?thesis by (metis le_add1 order_refl)
  qed
qed

text \<open>
  The loop along a given sequence of worlds that the sleeps produce: if every evaluation up to number
  \<open>m\<close> answers, the one numbered \<open>m\<close> answers true and the timeout has not passed before it, the loop
  succeeds at one of them.
\<close>

lemma wait_loop_succeeds:
  assumes "\<And>k. k \<le> m \<Longrightarrow> \<exists>v. F k (ws k) = (Ok v, ws k)" and "F m (ws m) = (Ok True, ws m)"
    and "\<And>k. k < m \<Longrightarrow> sl k (ws k) = ws (Suc k)"
    and "\<And>k. k < m \<Longrightarrow> S k \<le> cfg_evaluation_timeout cfg" and "n \<le> m"
  shows "\<exists>k. n \<le> k \<and> k \<le> m \<and> F k (ws k) = (Ok True, ws k) \<and> wait_loop F S sl cfg b n (ws n) = Some (Ok (), ws k)"
  using assms(5)
proof (induction "m - n" arbitrary: n)
  case 0
  then have "n = m" by simp
  then have "wait_loop F S sl cfg b n (ws n) = Some (Ok (), ws n)"
    using assms(2) by (subst wait_loop.simps) simp
  then show ?case using assms(2) \<open>n = m\<close> by blast
next
  case (Suc d)
  then have n: "n < m" by simp
  obtain v where v: "F n (ws n) = (Ok v, ws n)" using assms(1) [of n] n by auto
  show ?case
  proof (cases v)
    case True
    then have "wait_loop F S sl cfg b n (ws n) = Some (Ok (), ws n)"
      using v by (subst wait_loop.simps) simp
    then show ?thesis using v True n by (intro exI [of _ n]) simp
  next
    case False
    then have "wait_loop F S sl cfg b n (ws n) = wait_loop F S sl cfg b (Suc n) (ws (Suc n))"
      using v assms(3,4) [OF n] by (subst wait_loop.simps) simp
    moreover have "d = m - Suc n" "Suc n \<le> m" using Suc.hyps(2) by simp_all
    from Suc.hyps(1) [OF this] obtain k where "Suc n \<le> k" "k \<le> m" "F k (ws k) = (Ok True, ws k)"
        "wait_loop F S sl cfg b (Suc n) (ws (Suc n)) = Some (Ok (), ws k)"
      by blast
    ultimately show ?thesis by (intro exI [of _ k]) simp
  qed
qed

section \<open>The interfaces\<close>

text \<open>What a world shows of the chain: header numbers by hash, the last finalized and best number.\<close>

record chain_view =
  cv_block_at :: "h256 \<rightharpoonup> block_number"
  cv_finalized :: block_number
  cv_best :: block_number

text \<open>The chain only grows: headers stay, finality and the best number do not go back.\<close>

definition view_le :: "chain_view \<Rightarrow> chain_view \<Rightarrow> bool" where
  "view_le v v' \<longleftrightarrow> cv_block_at v \<subseteq>\<^sub>m cv_block_at v' \<and> cv_finalized v \<le> cv_finalized v' \<and> cv_best v \<le> cv_best v'"

lemma view_le_refl [simp]: "view_le v v"
  by (simp add: view_le_def)

lemma view_le_trans: "view_le u v \<Longrightarrow> view_le v w \<Longrightarrow> view_le u w"
  unfolding view_le_def by (meson map_le_trans order_trans)

lemma view_le_block: "view_le v v' \<Longrightarrow> cv_block_at v h = Some n \<Longrightarrow> cv_block_at v' h = Some n"
  by (auto simp: view_le_def map_le_def dom_def)

text \<open>The block is known at its number, buried deep enough under finalized blocks and not too far
  behind the best block.\<close>

definition settled :: "u64 \<Rightarrow> u64 \<Rightarrow> chain_view \<Rightarrow> block_ref \<Rightarrow> bool" where
  "settled min_conf max_fork v b \<longleftrightarrow> (case cv_block_at v (br_hash b) of
     None \<Rightarrow> False
   | Some n \<Rightarrow> n = u64_to_u32_sat (br_number b) \<and>
       unat (u64_to_u32_sat min_conf) \<le> unat (cv_finalized v) - unat n \<and>
       unat (cv_best v) - unat n \<le> unat (u64_to_u32_sat max_fork))"

text \<open>
  The contract of a finality verification client: each check leaves the view alone and keeps the
  invariant, a confirmed hash is known at its number, the confidence of a block that is not
  finalized does not exceed \<open>cap\<close>, and accepted chain rules hold of the view.
\<close>

locale verification_client =
  fixes verify_hash :: "block_ref \<Rightarrow> ('w, bool) fv_call"
    and confidence :: "block_ref \<Rightarrow> ('w, f64) fv_call"
    and verify_rules :: "block_ref \<Rightarrow> chain_rules \<Rightarrow> ('w, bool) fv_call"
    and view :: "'w \<Rightarrow> chain_view"
    and inv :: "'w \<Rightarrow> bool"
    and cap :: f64
  assumes hash_frame: "view (snd (verify_hash b w)) = view w" "inv w \<Longrightarrow> inv (snd (verify_hash b w))"
    and confidence_frame: "view (snd (confidence b w)) = view w" "inv w \<Longrightarrow> inv (snd (confidence b w))"
    and rules_frame: "view (snd (verify_rules b r w)) = view w" "inv w \<Longrightarrow> inv (snd (verify_rules b r w))"
    and hash_known: "fst (verify_hash b w) = Ok True \<Longrightarrow>
        cv_block_at (view w) (br_hash b) = Some (u64_to_u32_sat (br_number b))"
    and confidence_cap: "inv w \<Longrightarrow> fst (confidence b w) = Ok c \<Longrightarrow>
        \<exists>n. cv_block_at (view w) (br_hash b) = Some n \<and> (n \<le> cv_finalized (view w) \<or> c \<le> cap)"
    and rules_hold: "fst (verify_rules b r w) = Ok True \<Longrightarrow>
        \<exists>n. cv_block_at (view w) (br_hash b) = Some n \<and>
          unat (u64_to_u32_sat (rule_min_confirmations r)) \<le> unat (cv_finalized (view w)) - unat n \<and>
          unat (cv_best (view w)) - unat n \<le> unat (u64_to_u32_sat (rule_max_fork_depth r))"
begin

text \<open>A successful evaluation passes three stages, each on its own snapshot.\<close>

lemma is_final_stages:
  assumes "is_final D verify_hash confidence verify_rules cfg env b w = (Ok True, w')"
  obtains w1 c w2 where "verify_hash b w = (Ok True, w1)"
    and "confidence b (env 0 w1) = (Ok c, w2)" and "\<not> c < cfg_confidence_threshold cfg"
    and "verify_rules b (grandpa_rules cfg) (env 1 w2) = (Ok True, w')"
  using assms by (auto simp: is_final_def Let_def res_simps split: if_splits)

lemma is_final_sound:
  assumes fin: "is_final D verify_hash confidence verify_rules cfg env b w = (Ok True, w')"
    and inv: "inv w"
    and env: "\<And>i w. inv w \<Longrightarrow> inv (env i w) \<and> view_le (view w) (view (env i w))"
  shows "inv w' \<and> view_le (view w) (view w') \<and> settled (cfg_min_confirmations cfg) 50 (view w') b \<and>
    (cap < cfg_confidence_threshold cfg \<longrightarrow>
      u64_to_u32_sat (br_number b) \<le> cv_finalized (view w'))"
proof -
  obtain w1 c w2 where s: "verify_hash b w = (Ok True, w1)"
      "confidence b (env 0 w1) = (Ok c, w2)" "\<not> c < cfg_confidence_threshold cfg"
      "verify_rules b (grandpa_rules cfg) (env 1 w2) = (Ok True, w')"
    using is_final_stages [OF fin] .
  let ?n = "u64_to_u32_sat (br_number b)"
  have f: "view w1 = view w" "view w2 = view (env 0 w1)" "view w' = view (env 1 w2)"
    using hash_frame(1) [of b w] confidence_frame(1) [of b "env 0 w1"]
      rules_frame(1) [of b "grandpa_rules cfg" "env 1 w2"] s by simp_all
  have i: "inv w1" "inv (env 0 w1)" "inv w2" "inv (env 1 w2)" "inv w'"
    using hash_frame(2) [OF inv, of b] env confidence_frame(2) [of "env 0 w1" b]
      rules_frame(2) [of "env 1 w2" b "grandpa_rules cfg"] s by auto
  have le: "view_le (view w) (view (env 0 w1))" "view_le (view (env 0 w1)) (view w')"
    using env [OF i(1), of 0] env [OF i(3), of 1] f by simp_all
  then have le': "view_le (view w) (view w')" by (rule view_le_trans)
  have n: "cv_block_at (view w) (br_hash b) = Some ?n" using hash_known [of b w] s(1) by simp
  have n': "cv_block_at (view w') (br_hash b) = Some ?n" using le' n by (rule view_le_block)
  have n0: "cv_block_at (view (env 0 w1)) (br_hash b) = Some ?n" using le(1) n by (rule view_le_block)
  have "settled (cfg_min_confirmations cfg) 50 (view w') b"
    using rules_hold [of b "grandpa_rules cfg" "env 1 w2"] s(4) n' f(3)
    by (simp add: settled_def grandpa_rules_def)
  moreover have "?n \<le> cv_finalized (view w')" if "cap < cfg_confidence_threshold cfg"
  proof -
    have "\<not> c \<le> cap" using that s(3) f64_le_less_trans by blast
    then have "?n \<le> cv_finalized (view (env 0 w1))"
      using confidence_cap [OF i(2), of b c] s(2) n0 by simp
    then show ?thesis using le(2) unfolding view_le_def by (meson order_trans)
  qed
  ultimately show ?thesis using i(5) le' by blast
qed

end

text \<open>
  The contract of a finality predicate, as its callers use it: a world-passing check, given the
  number of the evaluation, that, when it answers \<open>true\<close>, leaves a world whose view satisfies \<open>promised\<close>.
\<close>

locale finality_predicate =
  fixes final_check :: "nat \<Rightarrow> block_ref \<Rightarrow> 'w \<Rightarrow> (bool, finality_error) res \<times> 'w"
    and view :: "'w \<Rightarrow> chain_view"
    and inv :: "'w \<Rightarrow> bool"
    and promised :: "chain_view \<Rightarrow> block_ref \<Rightarrow> bool"
  assumes final_sound: "inv w \<Longrightarrow> final_check k b w = (Ok True, w') \<Longrightarrow> promised (view w') b"
    and final_keeps: "inv w \<Longrightarrow> inv (snd (final_check k b w))"
begin

text \<open>What waiting for finality establishes when it returns without an error.\<close>

lemma wait_sound:
  assumes wait: "wait_for_finality (\<lambda>k. final_check k b) S sl cfg b w = Some (Ok (), w')"
    and inv: "inv w" and sl: "\<And>n w. inv w \<Longrightarrow> inv (sl n w)"
  shows "promised (view w') b"
proof -
  have "loop_keeps inv (\<lambda>k. final_check k b) sl" using final_keeps sl by (simp add: loop_keeps_def)
  from wait_loop_ends [OF wait [unfolded wait_for_finality_def] this inv]
  obtain k v r0 where "inv v" "final_check k b v = (r0, w')" "Ok () = loop_result cfg b k r0"
    unfolding loop_ends_def by auto
  then show ?thesis using final_sound
    by (auto simp: loop_result_def split: res.splits if_splits)
qed

end

text \<open>
  A verification client in an environment in which the chain only grows gives a predicate: this is
  what \<open>GrandpaFinality\<close> adds to its client.
\<close>

locale grandpa_predicate = verification_client verify_hash confidence verify_rules view inv cap
  for verify_hash :: "block_ref \<Rightarrow> ('w, bool) fv_call"
    and confidence :: "block_ref \<Rightarrow> ('w, f64) fv_call"
    and verify_rules :: "block_ref \<Rightarrow> chain_rules \<Rightarrow> ('w, bool) fv_call"
    and view inv cap +
  fixes show_err :: "fv_error \<Rightarrow> string"
    and cfg :: predicate_config
    and env :: "nat \<Rightarrow> nat \<Rightarrow> 'w \<Rightarrow> 'w"
  assumes env_inv: "inv w \<Longrightarrow> inv (env k i w)"
    and env_view: "inv w \<Longrightarrow> view_le (view w) (view (env k i w))"
begin

lemma is_final_keeps: "inv w \<Longrightarrow> inv (snd (is_final show_err verify_hash confidence verify_rules cfg (env k) b w))"
  unfolding is_final_def Let_def
proof (rule try_then_keeps [where P = inv], goal_cases)
  case (2 s)
  then show ?case by (simp add: hash_frame(2))
next
  case (3 ex s)
  then have s: "inv (env k 0 s)" by (simp add: env_inv)
  show ?case
  proof (cases ex)
    case True
    have "inv (snd (try_then (with_err f (confidence b)) h (env k 0 s)))"
      if "\<And>c s. inv s \<Longrightarrow> inv (snd (h c s))" for f :: "fv_error \<Rightarrow> finality_error"
        and h :: "f64 \<Rightarrow> 'w \<Rightarrow> (bool, finality_error) res \<times> 'w"
      by (rule try_then_keeps [where P = inv]) (simp_all add: s that confidence_frame(2))
    then show ?thesis using True by (simp add: env_inv rules_frame(2))
  qed (use 3 in simp)
qed

end

sublocale grandpa_predicate \<subseteq> finality_predicate
  "\<lambda>k. is_final show_err verify_hash confidence verify_rules cfg (env k)" view inv
  "settled (cfg_min_confirmations cfg) 50"
  using is_final_sound env_inv env_view is_final_keeps by unfold_locales blast+

end
