(* ===== verification/Justification.thy ===== *)
theory Justification
  imports Finality_Predicate
begin

text \<open>
  The state of \<open>SubstrateVerificationClient\<close> and its verification of GRANDPA justifications
  (\<open>src/finality/mod.rs\<close>, lines 409 to 469 and 551 to 597). The record \<open>node\<close> holds the fields of
  the struct, with the process-wide metrics as its last field; every operation takes the node it
  runs on and returns the node it leaves. The lemmas relate the computed participation rate to the
  weight of the signers.
\<close>

section \<open>Parameters, status and state\<close>

record verification_params =
  min_confirmations :: u32
  min_participation :: f64
  max_fork_depth :: u32
  timeout_ns :: nat
  params_set_id :: u64
  strict_signature_verification :: bool

definition verification_params_default :: verification_params where
  "verification_params_default = \<lparr>min_confirmations = 2, min_participation = f64_lit (67 / 100),
     max_fork_depth = 50, timeout_ns = 30 * 10 ^ 9, params_set_id = 0,
     strict_signature_verification = True\<rparr>"

record finality_status =
  st_block_number :: block_number
  st_confirmations :: block_number
  st_has_justification :: bool
  st_is_finalized :: bool
  st_participation_rate :: f64

record 'vs node =
  nd_client :: client
  nd_voter_set :: 'vs
  nd_params :: verification_params
  nd_chain_config :: chain_config
  nd_finality_cache :: "h256 \<rightharpoonup> finality_status \<times> nat"
  nd_metrics :: metrics

section \<open>Justifications\<close>

text \<open>The accumulators of the loop over the precommits, with the counters it may write.\<close>

record tally =
  signed_weight :: u64
  valid_signatures :: u32
  tally_metrics :: metrics

definition count_precommit :: "'vs externs \<Rightarrow> 'vs \<Rightarrow> signed_precommit \<Rightarrow> tally \<Rightarrow> tally" where
  "count_precommit X vs p t = (case vs_get X vs (sp_id p) of
     None \<Rightarrow> t
   | Some weight \<Rightarrow>
       let encoded = encode_precommit X (sp_precommit p)
       in if verify_sig X (sp_signature p) encoded (sp_id p)
          then t\<lparr>signed_weight := sat_add (signed_weight t) weight,
                 valid_signatures := valid_signatures t + 1,
                 tally_metrics := count_valid_signature (tally_metrics t)\<rparr>
          else t)"

definition participation :: "u64 \<Rightarrow> u64 \<Rightarrow> f64" where
  "participation signed_w total_w =
     (if 0 < total_w then f64_of_word signed_w / f64_of_word total_w else f64_lit 0)"

definition verify_justification ::
    "'vs externs \<Rightarrow> grandpa_justification \<Rightarrow> 'vs node \<Rightarrow> (bool \<times> f64, gv_error) res \<times> 'vs node" where
  "verify_justification X j nd =
     (let vs = nd_voter_set nd;
          t = fold (count_precommit X vs) (cm_precommits (gj_commit j))
                \<lparr>signed_weight = 0, valid_signatures = 0, tally_metrics = nd_metrics nd\<rparr>;
          total_weight = vs_total X vs;
          rate = participation (signed_weight t) total_weight
      in (Ok (min_participation (nd_params nd) \<le> rate, rate), nd\<lparr>nd_metrics := tally_metrics t\<rparr>))"

section \<open>Lemmas: signed weight\<close>

definition precommit_valid :: "'vs externs \<Rightarrow> 'vs \<Rightarrow> signed_precommit \<Rightarrow> bool" where
  "precommit_valid X vs p \<longleftrightarrow> vs_get X vs (sp_id p) \<noteq> None \<and>
     verify_sig X (sp_signature p) (encode_precommit X (sp_precommit p)) (sp_id p)"

definition voter_weight :: "'vs externs \<Rightarrow> 'vs \<Rightarrow> authority_id \<Rightarrow> nat" where
  "voter_weight X vs i = (case vs_get X vs i of None \<Rightarrow> 0 | Some w \<Rightarrow> unat w)"

text \<open>What the precommits that pass both checks weigh together, each counted once per occurrence.\<close>

definition signed_sum :: "'vs externs \<Rightarrow> 'vs \<Rightarrow> signed_precommit list \<Rightarrow> nat" where
  "signed_sum X vs ps = sum_list (map (voter_weight X vs \<circ> sp_id) (filter (precommit_valid X vs) ps))"

lemma count_precommit_weight:
  "unat (signed_weight (count_precommit X vs p t)) =
     min (unat (signed_weight t) + (if precommit_valid X vs p then voter_weight X vs (sp_id p) else 0)) (2 ^ 64 - 1)"
  using unat_lt_2p [of "signed_weight t"]
  by (auto simp: count_precommit_def precommit_valid_def voter_weight_def Let_def unat_sat_add
      split: option.splits)

lemma fold_count_weight:
  "unat (signed_weight (fold (count_precommit X vs) ps t)) =
     min (unat (signed_weight t) + signed_sum X vs ps) (2 ^ 64 - 1)"
proof (induction ps arbitrary: t)
  case Nil
  then show ?case using unat_lt_2p [of "signed_weight t"] by (simp add: signed_sum_def)
next
  case (Cons p ps)
  have "signed_sum X vs (p # ps) =
      (if precommit_valid X vs p then voter_weight X vs (sp_id p) else 0) + signed_sum X vs ps"
    by (simp add: signed_sum_def)
  with Cons show ?case by (auto simp: count_precommit_weight)
qed

lemma count_precommit_dead:
  "counters_dead (tally_metrics t) \<Longrightarrow> tally_metrics (count_precommit X vs p t) = tally_metrics t"
  by (auto simp: count_precommit_def Let_def split: option.splits)

lemma fold_count_dead:
  "counters_dead (tally_metrics t) \<Longrightarrow> tally_metrics (fold (count_precommit X vs) ps t) = tally_metrics t"
  by (induction ps arbitrary: t) (simp_all add: count_precommit_dead)

section \<open>Lemmas: the participation rate\<close>

lemma participation_pos:
  assumes "0 < t"
  shows "participation s t = Fin False (rnd (rnd (of_nat (unat s)) / rnd (of_nat (unat t))))"
proof -
  have t: "1 \<le> rnd (of_nat (unat t))" using assms by (intro rnd_of_nat_ge_1) (simp add: unat_gt_0 word_neq_0_conv [symmetric])
  have "rnd (of_nat (unat s)) \<le> rnd (2 ^ 64)"
  proof (rule rnd_mono)
    have "(of_nat (unat s) :: rat) \<le> of_nat (2 ^ 64)" using unat_lt_2p [of s] by (simp only: of_nat_le_iff) simp
    then show "(of_nat (unat s) :: rat) \<le> 2 ^ 64" by simp
  qed
  then have s: "rnd (of_nat (unat s)) \<le> 2 ^ 64" by (simp only: rnd_pow2)
  have "rnd (of_nat (unat s)) / rnd (of_nat (unat t)) \<le> rnd (of_nat (unat s)) / 1"
    using t by (intro divide_left_mono) simp_all
  with s have "rnd (of_nat (unat s)) / rnd (of_nat (unat t)) \<le> 2 ^ 1000" by (intro small_le_2_1000) linarith
  moreover have "0 < rnd (of_nat (unat t))" using t by linarith
  ultimately show ?thesis
    using assms by (simp only: participation_def if_True f64_of_u64 f64_div_small)
qed

lemma rnd_nat_error:
  assumes "0 < n"
  shows "of_nat n * (1 - 1 / 2 ^ 53) \<le> rnd (of_nat n)" and "rnd (of_nat n) \<le> of_nat n * (1 + 1 / 2 ^ 53)"
proof -
  have "(2::rat) powi (- 1022) \<le> 2 powi 0" by (subst powi_le_iff) simp
  also have "\<dots> \<le> of_nat n" using assms by simp
  finally have "\<bar>rnd (of_nat n) - of_nat n\<bar> \<le> of_nat n / 2 ^ 53" by (rule rnd_rel_error)
  then have "rnd (of_nat n) - of_nat n \<le> of_nat n / 2 ^ 53" "of_nat n - rnd (of_nat n) \<le> of_nat n / 2 ^ 53"
    by linarith+
  then show "of_nat n * (1 - 1 / 2 ^ 53) \<le> rnd (of_nat n)" and "rnd (of_nat n) \<le> of_nat n * (1 + 1 / 2 ^ 53)"
    by (simp_all add: field_simps)
qed

text \<open>At most two thirds of the total rounds to less than the literal \<open>0.67\<close>.\<close>

lemma rnd_0668: "rnd (668 / 1000) = 6016809102166983 / 2 ^ 53"
  using rnd_frac [of "668 / 1000" 1 6016809102166983] by simp

lemma rnd_two_thirds_below:
  assumes "0 < t" and "3 * s \<le> 2 * t"
  shows "rnd (rnd (of_nat s) / rnd (of_nat t)) < 6034823500676465 / 2 ^ 53"
proof (cases "s = 0")
  case False
  note S = rnd_nat_error(2) [of s] and T = rnd_nat_error(1) [of t]
  have t: "0 < rnd (of_nat t)" using rnd_of_nat_ge_1 [OF assms(1)] by linarith
  have st: "3 * (of_nat s :: rat) \<le> 2 * of_nat t"
    using assms(2) by (metis of_nat_le_iff of_nat_mult of_nat_numeral)
  have "rnd (of_nat s) \<le> 668 / 1000 * (of_nat t * (1 - 1 / 2 ^ 53))" using S False st by simp
  also have "\<dots> \<le> 668 / 1000 * rnd (of_nat t)" using T assms(1) by (intro mult_left_mono) simp_all
  finally have "rnd (of_nat s) / rnd (of_nat t) \<le> 668 / 1000" using t by (simp only: pos_divide_le_eq)
  then have "rnd (rnd (of_nat s) / rnd (of_nat t)) \<le> rnd (668 / 1000)" by (rule rnd_mono)
  also have "\<dots> < 6034823500676465 / 2 ^ 53" unfolding rnd_0668 by simp
  finally show ?thesis .
qed simp

lemma participation_067:
  assumes "f64_lit (67 / 100) \<le> participation s t"
  shows "2 * unat t < 3 * unat s"
proof (cases "t = 0")
  case True
  then show ?thesis using assms by (simp add: participation_def lit_067 lit_0)
next
  case False
  then have "0 < t" by (simp add: word_neq_0_conv)
  have "0 < unat t" using False by (simp add: unat_gt_0)
  show ?thesis
  proof (rule ccontr)
    assume "\<not> 2 * unat t < 3 * unat s"
    then have "3 * unat s \<le> 2 * unat t" by simp
    from rnd_two_thirds_below [OF \<open>0 < unat t\<close> this] assms show False
      unfolding participation_pos [OF \<open>0 < t\<close>] lit_067 f64_le_Fin by simp
  qed
qed

lemma participation_le_1: "s \<le> t \<Longrightarrow> participation s t \<le> f64_lit 1"
proof (cases "t = 0")
  case False
  assume "s \<le> t"
  then have "unat s \<le> unat t" by (simp add: word_le_nat_alt)
  then have "rnd (of_nat (unat s)) \<le> rnd (of_nat (unat t))" by (intro rnd_mono) (simp only: of_nat_le_iff)
  moreover have "1 \<le> rnd (of_nat (unat t))" using False by (intro rnd_of_nat_ge_1) (simp add: unat_gt_0)
  ultimately have "rnd (of_nat (unat s)) / rnd (of_nat (unat t)) \<le> 1"
    by (subst pos_divide_le_eq) linarith+
  then have "rnd (rnd (of_nat (unat s)) / rnd (of_nat (unat t))) \<le> 1" using rnd_1 by (rule rnd_le_fixed)
  moreover have "0 < t" using False by (simp add: word_neq_0_conv)
  ultimately show ?thesis by (simp only: participation_pos lit_1 f64_le_Fin)
qed (simp add: participation_def lit_0 lit_1)

lemma participation_ge_1: "0 < t \<Longrightarrow> t \<le> s \<Longrightarrow> f64_lit 1 \<le> participation s t"
proof -
  assume t: "0 < t" and "t \<le> s"
  then have "unat t \<le> unat s" by (simp add: word_le_nat_alt)
  then have "rnd (of_nat (unat t)) \<le> rnd (of_nat (unat s))" by (intro rnd_mono) (simp only: of_nat_le_iff)
  moreover have "1 \<le> rnd (of_nat (unat t))"
    using t by (intro rnd_of_nat_ge_1) (simp add: unat_gt_0 word_neq_0_conv [symmetric])
  ultimately have "1 \<le> rnd (of_nat (unat s)) / rnd (of_nat (unat t))"
    by (subst pos_le_divide_eq) linarith+
  then have "1 \<le> rnd (rnd (of_nat (unat s)) / rnd (of_nat (unat t)))" using rnd_1 by (rule rnd_ge_fixed)
  then show ?thesis by (simp only: participation_pos [OF t] lit_1 f64_le_Fin)
qed

lemma participation_nonneg [simp]: "f64_nonneg (participation s t)"
proof (cases "0 < t")
  case True
  then show ?thesis by (simp only: participation_pos f64_nonneg_Fin rnd_nonneg simp_thms)
next
  case False
  then show ?thesis by (simp add: participation_def lit_0)
qed

lemma verify_justification_result:
  "\<exists>s. unat s = min (signed_sum X (nd_voter_set nd) (cm_precommits (gj_commit j))) (2 ^ 64 - 1) \<and>
     fst (verify_justification X j nd) =
       (let rate = participation s (vs_total X (nd_voter_set nd))
        in Ok (min_participation (nd_params nd) \<le> rate, rate))"
  by (rule exI [of _ "signed_weight (fold (count_precommit X (nd_voter_set nd)) (cm_precommits (gj_commit j))
      \<lparr>signed_weight = 0, valid_signatures = 0, tally_metrics = nd_metrics nd\<rparr>)"])
    (simp add: verify_justification_def Let_def fold_count_weight)

lemma verify_justification_frame:
  "snd (verify_justification X j nd) = nd\<lparr>nd_metrics := nd_metrics (snd (verify_justification X j nd))\<rparr>"
  by (simp add: verify_justification_def Let_def)

lemma verify_justification_dead:
  "counters_dead (nd_metrics nd) \<Longrightarrow> snd (verify_justification X j nd) = nd"
  by (simp add: verify_justification_def Let_def fold_count_dead)

text \<open>With one precommit per authority, the signed weight is the weight of a set of authorities.\<close>

definition valid_signers :: "'vs externs \<Rightarrow> 'vs \<Rightarrow> signed_precommit list \<Rightarrow> authority_id set" where
  "valid_signers X vs ps = sp_id ` set (filter (precommit_valid X vs) ps)"

lemma signed_sum_distinct:
  assumes "distinct (map sp_id ps)"
  shows "signed_sum X vs ps = (\<Sum>i \<in> valid_signers X vs ps. voter_weight X vs i)"
proof -
  let ?ids = "map sp_id (filter (precommit_valid X vs) ps)"
  have "distinct ?ids" using assms by (rule distinct_map_filter)
  then have "sum_list (map (voter_weight X vs) ?ids) = (\<Sum>i \<in> set ?ids. voter_weight X vs i)"
    by (rule sum_list_distinct_conv_sum_set)
  moreover have "set ?ids = valid_signers X vs ps" by (simp only: valid_signers_def set_map)
  ultimately show ?thesis by (simp only: signed_sum_def map_map)
qed

lemma voter_weight_of: "voter_set_of X as vs \<Longrightarrow> voter_weight X vs i = weight_of as i"
  unfolding voter_set_of_def voter_weight_def
  by (erule conjE, erule allE [of _ i]) (auto split: option.splits if_splits)

section \<open>A sample network\<close>

text \<open>
  Two authorities of weight 3 and 1 and a chain of three blocks with hashes 1, 2 and 3, the last two
  not finalized: the inputs at which the theorems are evaluated.
\<close>

definition sample_authorities :: authority_list where
  "sample_authorities = [([1], 3), ([2], 1)]"

definition sample_precommit :: "u8 \<Rightarrow> signed_precommit" where
  "sample_precommit i = \<lparr>sp_precommit = \<lparr>pc_target_hash = 1, pc_target_number = 1\<rparr>,
     sp_signature = [i], sp_id = [i]\<rparr>"

definition sample_justification :: "u8 list \<Rightarrow> grandpa_justification" where
  "sample_justification is = \<lparr>gj_round = 1, gj_commit = \<lparr>cm_target_hash = 1, cm_target_number = 1,
     cm_precommits = map sample_precommit is\<rparr>\<rparr>"

definition sample_client :: "block_number \<Rightarrow> block_number \<Rightarrow> client" where
  "sample_client fin best = \<lparr>
     cl_header = (\<lambda>h. if h = 1 \<or> h = 2 \<or> h = 3
       then Ok (Some \<lparr>hd_number = ucast h, hd_hash = h, hd_parent_hash = h - 1, hd_state_root = 0\<rparr>)
       else Ok None),
     cl_info = \<lparr>best_hash = 3, best_number = best, finalized_number = fin\<rparr>,
     cl_justifications = (\<lambda>h. Ok None),
     cl_grandpa_authorities = (\<lambda>h. Ok sample_authorities)\<rparr>"

definition sample_node :: "block_number \<Rightarrow> block_number \<Rightarrow> authority_list node" where
  "sample_node fin best = \<lparr>nd_client = sample_client fin best, nd_voter_set = sample_authorities,
     nd_params = verification_params_default, nd_chain_config = chain_config_default,
     nd_finality_cache = Map.empty, nd_metrics = metrics_init\<rparr>"

lemmas sample_defs = sample_authorities_def sample_precommit_def sample_justification_def
  sample_client_def sample_node_def

lemma sample_voters: "voter_set_of list_externs sample_authorities sample_authorities"
proof -
  have "vs_new list_externs sample_authorities = Some sample_authorities"
    by (simp add: list_externs_def sample_authorities_def)
  then show ?thesis using list_externs_laws unfolding voter_set_laws_def by blast
qed

lemma rnd_075: "rnd (3 / 4) = 3 / 4"
  using rnd_frac [of "3 / 4" 1 6755399441055744] by simp

lemma rnd_small_nats: "rnd 3 = 3" "rnd 4 = 4"
  using rnd_of_nat [of 3] rnd_of_nat [of 4] by simp_all

lemma participation_3_4: "participation 3 4 = Fin False (3 / 4)"
  by (simp add: participation_pos rnd_small_nats rnd_075)

lemma sample_accepted:
  "fst (verify_justification list_externs (sample_justification [1]) (sample_node fin best)) =
     Ok (True, Fin False (3 / 4))"
  by (simp add: verify_justification_def sample_defs count_precommit_def list_externs_def Let_def
      sat_add_def participation_3_4 verification_params_default_def lit_067)

section \<open>Properties\<close>

text \<open>C9. At the default participation threshold, the literal 0.67, a justification is accepted only
  when the precommits that pass the signature check weigh more than two thirds of the voter set,
  for every u64 weight: no rounding of the f64 quotient accepts two thirds or less.\<close>

theorem justification_supermajority:
  assumes "fst (verify_justification X j nd) = Ok (True, rate)"
    and "min_participation (nd_params nd) = f64_lit (67 / 100)"
  shows "2 * unat (vs_total X (nd_voter_set nd)) < 3 * signed_sum X (nd_voter_set nd) (cm_precommits (gj_commit j))"
proof -
  obtain s where s: "unat s = min (signed_sum X (nd_voter_set nd) (cm_precommits (gj_commit j))) (2 ^ 64 - 1)"
    and "f64_lit (67 / 100) \<le> participation s (vs_total X (nd_voter_set nd))"
    using verify_justification_result [of X nd j] assms by (auto simp: Let_def)
  then have "2 * unat (vs_total X (nd_voter_set nd)) < 3 * unat s" by (intro participation_067)
  with s show ?thesis by simp
qed

theorem justification_supermajority_witness:
  "2 * unat (vs_total list_externs sample_authorities)
     < 3 * signed_sum list_externs sample_authorities (map sample_precommit [1])"
  using justification_supermajority [OF sample_accepted [of 1 3]]
  by (simp add: sample_node_def sample_justification_def verification_params_default_def)



text \<open>C27. Repeated precommits are counted again: any single valid signer, however small its weight,
  reaches every threshold up to 1.0 when its precommit occurs often enough.\<close>

theorem justification_duplicates_accepted:
  assumes "precommit_valid X (nd_voter_set nd) p"
    and "0 < vs_total X (nd_voter_set nd)"
    and "unat (vs_total X (nd_voter_set nd)) \<le> n * voter_weight X (nd_voter_set nd) (sp_id p)"
    and "min_participation (nd_params nd) \<le> f64_lit 1"
    and "cm_precommits (gj_commit j) = replicate n p"
  shows "\<exists>rate. fst (verify_justification X j nd) = Ok (True, rate)"
proof -
  have "signed_sum X (nd_voter_set nd) (replicate n p) = n * voter_weight X (nd_voter_set nd) (sp_id p)"
    using assms(1) by (simp add: signed_sum_def filter_replicate sum_list_replicate)
  then obtain s where s: "unat s = min (n * voter_weight X (nd_voter_set nd) (sp_id p)) (2 ^ 64 - 1)"
    and r: "fst (verify_justification X j nd) =
       (let rate = participation s (vs_total X (nd_voter_set nd)) in Ok (min_participation (nd_params nd) \<le> rate, rate))"
    using verify_justification_result [of X nd j] assms(5) by auto
  have "vs_total X (nd_voter_set nd) \<le> s"
    using assms(3) s unat_lt_2p [of "vs_total X (nd_voter_set nd)"] by (simp add: word_le_nat_alt)
  then have "f64_lit 1 \<le> participation s (vs_total X (nd_voter_set nd))"
    using assms(2) by (intro participation_ge_1)
  with assms(4) have "min_participation (nd_params nd) \<le> participation s (vs_total X (nd_voter_set nd))"
    by (rule f64_le_trans)
  then show ?thesis using r by (simp add: Let_def)
qed

theorem justification_duplicates_accepted_witness:
  "\<exists>rate. fst (verify_justification list_externs (sample_justification [2, 2, 2, 2]) (sample_node 1 3)) = Ok (True, rate)"
proof (rule justification_duplicates_accepted [where p = "sample_precommit 2" and n = 4])
  show "min_participation (nd_params (sample_node 1 3)) \<le> f64_lit 1"
    by (simp add: sample_node_def verification_params_default_def lit_067 lit_1)
  show "cm_precommits (gj_commit (sample_justification [2, 2, 2, 2])) = replicate 4 (sample_precommit 2)"
    by (simp add: sample_justification_def numeral_eq_Suc)
qed (simp_all add: sample_defs list_externs_def precommit_valid_def voter_weight_def)

end
