(* ===== verification/Verification_Client.thy ===== *)
theory Verification_Client
  imports Justification
begin

text \<open>
  \<open>SubstrateVerificationClient\<close> (\<open>src/finality/mod.rs\<close>, lines 471 to 998) around the
  verification of justifications: construction, authority-set updates, the finality status of a
  block and its cache, and the checks of the \<open>FinalityVerificationClient\<close> trait, with the proof
  that they keep the contract of the locale \<open>verification_client\<close>. One call reads one snapshot of the
  chain (\<open>nd_client\<close>).
\<close>

section \<open>Construction\<close>

definition client_new ::
    "client \<Rightarrow> 'vs \<Rightarrow> verification_params \<Rightarrow> chain_config \<Rightarrow> metrics \<Rightarrow> 'vs node" where
  "client_new c vs ps cc g = \<lparr>nd_client = c, nd_voter_set = vs, nd_params = ps,
     nd_chain_config = cc, nd_finality_cache = Map.empty, nd_metrics = g\<rparr>"

definition new_with_runtime_authorities ::
    "'vs externs \<Rightarrow> client \<Rightarrow> verification_params \<Rightarrow> chain_config \<Rightarrow> metrics \<Rightarrow> ('vs node, gv_error) res" where
  "new_with_runtime_authorities X c ps cc g =
     and_then (map_err (\<lambda>e. GvChainError (''Failed to get GRANDPA authorities: '' @ e))
       (cl_grandpa_authorities c (best_hash (cl_info c)))) (\<lambda>auths.
     and_then (ok_or (GvAuthoritySetError ''Failed to create voter set from authorities'')
       (vs_new X (map (\<lambda>(i, w). (i, w)) auths))) (\<lambda>vs.
     Ok (client_new c vs ps cc g)))"

section \<open>Authority sets\<close>

definition update_authorities_from_runtime ::
    "'vs externs \<Rightarrow> h256 \<Rightarrow> 'vs node \<Rightarrow> (unit, gv_error) res \<times> 'vs node" where
  "update_authorities_from_runtime X h nd =
     (case map_err (\<lambda>e. GvChainError (''Failed to get authorities at block '' @ display_hash X h @ '': '' @ e))
         (cl_grandpa_authorities (nd_client nd) h) of
       Ok auths \<Rightarrow>
         (case ok_or (GvAuthoritySetError ''Failed to create voter set'')
             (vs_new X (map (\<lambda>(i, w). (i, w)) auths)) of
           Ok vs \<Rightarrow> (Ok (), nd\<lparr>nd_voter_set := vs,
                       nd_metrics := set_validators_gauge (length auths) (nd_metrics nd)\<rparr>)
         | Err e \<Rightarrow> (Err e, nd)
         | Panic m \<Rightarrow> (Panic m, nd))
     | Err e \<Rightarrow> (Err e, nd)
     | Panic m \<Rightarrow> (Panic m, nd))"

definition handle_authority_set_update ::
    "'vs externs \<Rightarrow> authority_list \<Rightarrow> u64 \<Rightarrow> 'vs node \<Rightarrow> (unit, gv_error) res \<times> 'vs node" where
  "handle_authority_set_update X new_set sid nd =
     (case ok_or (GvAuthoritySetError ''Failed to create voter set'')
         (vs_new X (map (\<lambda>(i, w). (i, w)) new_set)) of
       Ok vs \<Rightarrow> (Ok (), nd\<lparr>nd_voter_set := vs\<rparr>)
     | Err e \<Rightarrow> (Err e, nd)
     | Panic m \<Rightarrow> (Panic m, nd))"

definition get_current_set_id :: "'vs externs \<Rightarrow> 'vs node \<Rightarrow> (u64, gv_error) res" where
  "get_current_set_id X nd =
     (let best = best_hash (cl_info (nd_client nd))
      in and_then (map_err (\<lambda>e. GvChainError (''Failed to get current set ID: '' @ e))
           (cl_grandpa_authorities (nd_client nd) best)) (\<lambda>auths. Ok (hash_authorities X auths)))"

section \<open>Finality status\<close>

text \<open>\<open>client.header(h).map_err(..)?.ok_or_else(..)?\<close>, the lookup the checks start with.\<close>

definition lookup_header :: "'vs externs \<Rightarrow> client \<Rightarrow> h256 \<Rightarrow> (header, gv_error) res" where
  "lookup_header X c h = and_then
     (map_err (\<lambda>e. GvChainError (''Failed to get header: '' @ e)) (cl_header c h))
     (ok_or (GvBlockNotFound (debug_hash X h)))"

text \<open>
  The participation rate of an encoded justification: a justification that does not decode or
  verify is only logged and leaves the rate at zero.
\<close>

definition justification_rate ::
    "'vs externs \<Rightarrow> bytes \<Rightarrow> 'vs node \<Rightarrow> (f64, gv_error) res \<times> 'vs node" where
  "justification_rate X bs nd = (case decode_justification X bs of
     Ok j \<Rightarrow> (case verify_justification X j nd of
         (Ok (_, rate), nd') \<Rightarrow> (Ok rate, nd')
       | (Err _, nd') \<Rightarrow> (Ok (f64_lit 0), nd')
       | (Panic m, nd') \<Rightarrow> (Panic m, nd'))
   | Err _ \<Rightarrow> (Ok (f64_lit 0), nd)
   | Panic m \<Rightarrow> (Panic m, nd))"

definition get_finality_status ::
    "'vs externs \<Rightarrow> h256 \<Rightarrow> 'vs node \<Rightarrow> (finality_status, gv_error) res \<times> 'vs node" where
  "get_finality_status X h nd =
     (let c = nd_client nd in
      try_then (lift_res (lookup_header X c h)) (\<lambda>hdr.
      let latest_finalized = finalized_number (cl_info c);
          confirmations = sat_sub latest_finalized (hd_number hdr);
          is_finalized = (hd_number hdr \<le> latest_finalized)
      in
      try_then (lift_res
          (map_err (\<lambda>e. GvChainError (''Failed to get justification: '' @ e)) (cl_justifications c h))) (\<lambda>js.
      let justification = Option.bind js (into_grandpa_justification X);
          has_justification = (justification \<noteq> None)
      in
      try_then (case justification of
          None \<Rightarrow> lift_res (Ok (f64_lit 0))
        | Some bs \<Rightarrow> justification_rate X bs) (\<lambda>rate.
      lift_res (Ok \<lparr>st_block_number = hd_number hdr, st_confirmations = confirmations,
        st_has_justification = has_justification, st_is_finalized = is_finalized,
        st_participation_rate = rate\<rparr>)))) nd)"

text \<open>
  The cached variant reads the monotonic clock when it looks an entry up, when it inserts one and
  when it checks the age of each entry it may keep.
\<close>

definition elapsed :: "nat \<Rightarrow> nat \<Rightarrow> nat" where
  "elapsed now since = now - since"

definition second :: nat where
  "second = 10 ^ 9"

definition cache_hit :: "nat \<Rightarrow> (h256 \<rightharpoonup> finality_status \<times> nat) \<Rightarrow> h256 \<Rightarrow> finality_status option" where
  "cache_hit now cache h = (case cache h of
     None \<Rightarrow> None
   | Some (status, timestamp) \<Rightarrow> if elapsed now timestamp < 5 * second then Some status else None)"

definition cache_store ::
    "nat \<Rightarrow> (h256 \<Rightarrow> nat) \<Rightarrow> h256 \<Rightarrow> finality_status \<Rightarrow>
     (h256 \<rightharpoonup> finality_status \<times> nat) \<Rightarrow> (h256 \<rightharpoonup> finality_status \<times> nat)" where
  "cache_store now now_at h status cache =
     (let cache' = cache(h \<mapsto> (status, now))
      in (\<lambda>k. case cache' k of
            None \<Rightarrow> None
          | Some (st, timestamp) \<Rightarrow>
              if elapsed (now_at k) timestamp < 30 * second then Some (st, timestamp) else None))"

definition get_finality_status_cached ::
    "'vs externs \<Rightarrow> nat \<Rightarrow> nat \<Rightarrow> (h256 \<Rightarrow> nat) \<Rightarrow> h256 \<Rightarrow> 'vs node \<Rightarrow>
     (finality_status, gv_error) res \<times> 'vs node" where
  "get_finality_status_cached X t_read t_insert t_retain h nd =
     (case cache_hit t_read (nd_finality_cache nd) h of
       Some status \<Rightarrow> (Ok status, nd)
     | None \<Rightarrow> try_then (get_finality_status X h) (\<lambda>status nd'.
         (Ok status, nd'\<lparr>nd_finality_cache :=
            cache_store t_insert t_retain h status (nd_finality_cache nd')\<rparr>)) nd)"

definition node_get_chain_id :: "'vs node \<Rightarrow> string" where
  "node_get_chain_id nd = (case cc_network_type (nd_chain_config nd) of
     Mainnet \<Rightarrow> cc_chain_id (nd_chain_config nd)
   | Testnet name \<Rightarrow> cc_chain_id (nd_chain_config nd) @ ''-testnet-'' @ name
   | Development \<Rightarrow> cc_chain_id (nd_chain_config nd) @ ''-dev'')"

definition verify_merkle_proof ::
    "'vs externs \<Rightarrow> h256 \<Rightarrow> bytes \<Rightarrow> 'vs node \<Rightarrow> (bool, gv_error) res \<times> 'vs node" where
  "verify_merkle_proof X h proof nd =
     try_then (lift_res (lookup_header X (nd_client nd) h)) (\<lambda>hdr.
     if proof = [] then lift_res (Ok False) else lift_res (Ok True)) nd"

text \<open>A block reference with the wall-clock second it was made at.\<close>

record substrate_block_ref =
  sbr_inner :: block_ref
  sbr_timestamp :: u64

definition frost_block_ref_of :: "substrate_block_ref \<Rightarrow> block_ref" where
  "frost_block_ref_of b = sbr_inner b"

definition get_chain_head_internal :: "u64 \<Rightarrow> 'vs node \<Rightarrow> (substrate_block_ref, gv_error) res" where
  "get_chain_head_internal now nd =
     (let info = cl_info (nd_client nd) in
      and_then (ok_or (GvInvalidInput ''Invalid hash length'') (array32 (h256_bytes (best_hash info)))) (\<lambda>h.
      Ok \<lparr>sbr_inner = \<lparr>br_chain_id = ChainId (get_chain_id (nd_chain_config nd)),
             br_number = u32_to_u64 (best_number info), br_hash = h\<rparr>,
          sbr_timestamp = now\<rparr>))"

definition u64_to_block_number :: "u64 \<Rightarrow> block_number" where
  "u64_to_block_number n = u64_to_u32_sat n"

definition block_number_to_u64 :: "block_number \<Rightarrow> u64" where
  "block_number_to_u64 n = u32_to_u64 n"

section \<open>The trait operations\<close>

definition get_chain_head :: "'vs node \<Rightarrow> (block_ref, fv_error) res" where
  "get_chain_head nd =
     (let info = cl_info (nd_client nd) in
      and_then (map_err gv_into_fv (ok_or (GvInvalidInput ''Invalid hash length'')
        (array32 (h256_bytes (best_hash info))))) (\<lambda>h.
      Ok \<lparr>br_chain_id = ChainId (get_chain_id (nd_chain_config nd)),
          br_number = u32_to_u64 (best_number info), br_hash = h\<rparr>))"

definition verify_block_hash :: "'vs externs \<Rightarrow> block_ref \<Rightarrow> 'vs node \<Rightarrow> (bool, fv_error) res \<times> 'vs node" where
  "verify_block_hash X b nd =
     try_then (lift_res (map_err gv_into_fv (lookup_header X (nd_client nd) (br_hash b)))) (\<lambda>hdr.
     let expected_number = u64_to_u32_sat (br_number b)
     in lift_res (Ok (hd_number hdr = expected_number))) nd"

definition confirmation_confidence :: "verification_params \<Rightarrow> finality_status \<Rightarrow> f64" where
  "confirmation_confidence ps st =
     (let confirmations_u64 = u32_to_u64 (st_confirmations st)
      in f64_min (if 0 < min_confirmations ps
                  then f64_of_word confirmations_u64 / f64_of_word (min_confirmations ps)
                  else f64_lit 0) (f64_lit 1))"

definition participation_confidence :: "verification_params \<Rightarrow> finality_status \<Rightarrow> f64" where
  "participation_confidence ps st =
     (if st_has_justification st
      then f64_min (st_participation_rate st / min_participation ps) (f64_lit 1)
      else f64_lit 0)"

definition confidence_of :: "verification_params \<Rightarrow> finality_status \<Rightarrow> f64" where
  "confidence_of ps st =
     (if st_is_finalized st then f64_lit 1
      else let confidence = confirmation_confidence ps st * f64_lit (4 / 10)
                 + participation_confidence ps st * f64_lit (4 / 10) + f64_lit (2 / 10)
           in if st_is_finalized st then confidence else f64_min confidence (f64_lit (95 / 100)))"

definition consensus_err :: "gv_error \<Rightarrow> fv_error" where
  "consensus_err e = gv_into_fv (GvConsensusError (gv_to_string e))"

definition get_finality_confidence ::
    "'vs externs \<Rightarrow> block_ref \<Rightarrow> 'vs node \<Rightarrow> (f64, fv_error) res \<times> 'vs node" where
  "get_finality_confidence X b nd =
     try_then (with_err consensus_err (get_finality_status X (br_hash b))) (\<lambda>st nd'.
     (Ok (confidence_of (nd_params nd') st), nd')) nd"

definition chain_rules_hold :: "chain_info \<Rightarrow> finality_status \<Rightarrow> chain_rules \<Rightarrow> bool" where
  "chain_rules_hold info st rules =
     (let fork_depth = sat_sub (best_number info) (st_block_number st) in
      if st_confirmations st < u64_to_u32_sat (rule_min_confirmations rules) then False
      else if u64_to_u32_sat (rule_max_fork_depth rules) < fork_depth then False
      else if st_has_justification st \<and> st_participation_rate st < rule_min_participation rules then False
      else True)"

definition verify_chain_rules ::
    "'vs externs \<Rightarrow> block_ref \<Rightarrow> chain_rules \<Rightarrow> 'vs node \<Rightarrow> (bool, fv_error) res \<times> 'vs node" where
  "verify_chain_rules X b rules nd =
     try_then (with_err consensus_err (get_finality_status X (br_hash b))) (\<lambda>st nd'.
     (Ok (chain_rules_hold (cl_info (nd_client nd')) st rules), nd')) nd"

record frost_block =
  fb_hash :: h256
  fb_number :: u64

definition get_block :: "'vs externs \<Rightarrow> block_ref \<Rightarrow> 'vs node \<Rightarrow> (frost_block, fv_error) res" where
  "get_block X b nd =
     and_then (map_err gv_into_fv (lookup_header X (nd_client nd) (br_hash b))) (\<lambda>hdr.
     Ok \<lparr>fb_hash = br_hash b, fb_number = br_number b\<rparr>)"

definition get_latest_finalized_block :: "'vs node \<Rightarrow> (u64, fv_error) res" where
  "get_latest_finalized_block nd = Ok (u32_to_u64 (finalized_number (cl_info (nd_client nd))))"

definition verify_block_inclusion ::
    "'vs externs \<Rightarrow> block_ref \<Rightarrow> bytes \<Rightarrow> 'vs node \<Rightarrow> (bool, fv_error) res \<times> 'vs node" where
  "verify_block_inclusion X b proof nd =
     try_then (verify_block_hash X b) (\<lambda>exists.
     if \<not> exists then lift_res (Ok False)
     else with_err gv_into_fv (verify_merkle_proof X (br_hash b) proof)) nd"

text \<open>\<open>GrandpaFinalityProvider\<close>\<close>

definition get_voter_set :: "'vs node \<Rightarrow> 'vs" where
  "get_voter_set nd = nd_voter_set nd"

definition get_verification_params :: "'vs node \<Rightarrow> verification_params" where
  "get_verification_params nd = nd_params nd"

section \<open>Lemmas: finality status\<close>

definition view_of :: "'vs node \<Rightarrow> chain_view" where
  "view_of nd = \<lparr>
     cv_block_at = (\<lambda>h. case cl_header (nd_client nd) h of
        Ok found \<Rightarrow> map_option hd_number found | Err _ \<Rightarrow> None | Panic _ \<Rightarrow> None),
     cv_finalized = finalized_number (cl_info (nd_client nd)),
     cv_best = best_number (cl_info (nd_client nd))\<rparr>"

text \<open>Nothing but the metrics of the node changes.\<close>

definition metrics_only :: "'vs node \<Rightarrow> 'vs node \<Rightarrow> bool" where
  "metrics_only nd nd' \<longleftrightarrow> (\<exists>g. nd' = nd\<lparr>nd_metrics := g\<rparr>) \<and>
     (counters_dead (nd_metrics nd) \<longrightarrow> nd' = nd)"

lemma metrics_only_refl [simp]: "metrics_only nd nd"
  by (auto simp: metrics_only_def intro: exI [of _ "nd_metrics nd"])

lemma metrics_only_trans: "metrics_only a b \<Longrightarrow> metrics_only b c \<Longrightarrow> metrics_only a c"
  by (fastforce simp: metrics_only_def)

lemma metrics_onlyD:
  assumes "metrics_only nd nd'"
  shows "nd_client nd' = nd_client nd" "nd_voter_set nd' = nd_voter_set nd" "nd_params nd' = nd_params nd"
    "nd_chain_config nd' = nd_chain_config nd" "nd_finality_cache nd' = nd_finality_cache nd"
    "view_of nd' = view_of nd"
proof -
  obtain g where "nd' = nd\<lparr>nd_metrics := g\<rparr>" using assms by (auto simp: metrics_only_def)
  then show "nd_client nd' = nd_client nd" "nd_voter_set nd' = nd_voter_set nd" "nd_params nd' = nd_params nd"
    "nd_chain_config nd' = nd_chain_config nd" "nd_finality_cache nd' = nd_finality_cache nd"
    "view_of nd' = view_of nd" by (simp_all add: view_of_def)
qed

lemma metrics_only_verify: "metrics_only nd (snd (verify_justification X j nd))"
  using verify_justification_frame [of X j nd] verify_justification_dead [of nd X j]
  unfolding metrics_only_def by blast

lemma metrics_only_rate: "metrics_only nd (snd (justification_rate X bs nd))"
  using metrics_only_verify [of nd X]
  by (auto simp: justification_rate_def split: res.splits prod.splits) (metis snd_conv)+

lemma justification_rate_nonneg: "fst (justification_rate X bs nd) = Ok rate \<Longrightarrow> f64_nonneg rate"
proof (cases "decode_justification X bs")
  case (Ok j)
  assume "fst (justification_rate X bs nd) = Ok rate"
  then show ?thesis using Ok verify_justification_result [of X nd j]
    by (auto simp: justification_rate_def Let_def split: prod.splits)
qed (auto simp: justification_rate_def lit_0)

definition maybe_rate :: "'vs externs \<Rightarrow> bytes option \<Rightarrow> 'vs node \<Rightarrow> (f64, gv_error) res \<times> 'vs node" where
  "maybe_rate X j = (case j of None \<Rightarrow> lift_res (Ok (f64_lit 0)) | Some bs \<Rightarrow> justification_rate X bs)"

lemma maybe_rate_nonneg: "fst (maybe_rate X j nd) = Ok rate \<Longrightarrow> f64_nonneg rate"
  by (cases j) (auto simp: maybe_rate_def lit_0 dest: justification_rate_nonneg)

lemma metrics_only_maybe_rate: "metrics_only nd (snd (maybe_rate X j nd))"
  by (cases j) (simp_all add: maybe_rate_def metrics_only_rate)

lemmas get_finality_status_alt = get_finality_status_def [folded maybe_rate_def]

lemma status_frame: "metrics_only nd (snd (get_finality_status X h nd))"
  unfolding get_finality_status_alt Let_def
  by (intro try_then_keeps [where P = "metrics_only nd"])
    (auto intro: metrics_only_trans metrics_only_maybe_rate)

text \<open>A status describes the header of the snapshot.\<close>

lemma status_Ok:
  assumes "fst (get_finality_status X h nd) = Ok st"
  obtains hdr where "cl_header (nd_client nd) h = Ok (Some hdr)"
    and "st_block_number st = hd_number hdr"
    and "st_confirmations st = sat_sub (cv_finalized (view_of nd)) (hd_number hdr)"
    and "st_is_finalized st \<longleftrightarrow> hd_number hdr \<le> cv_finalized (view_of nd)"
    and "f64_nonneg (st_participation_rate st)"
    and "cv_block_at (view_of nd) h = Some (hd_number hdr)"
proof -
  from assms obtain hdr js rate where
    hdr: "cl_header (nd_client nd) h = Ok (Some hdr)"
    and rate: "fst (maybe_rate X (Option.bind js (into_grandpa_justification X)) nd) = Ok rate"
    and st: "st = \<lparr>st_block_number = hd_number hdr,
        st_confirmations = sat_sub (finalized_number (cl_info (nd_client nd))) (hd_number hdr),
        st_has_justification = (Option.bind js (into_grandpa_justification X) \<noteq> None),
        st_is_finalized = (hd_number hdr \<le> finalized_number (cl_info (nd_client nd))),
        st_participation_rate = rate\<rparr>"
    by (auto simp: get_finality_status_alt Let_def try_then_fst_Ok lookup_header_def and_then_eq_Ok)
      (metis fst_conv)
  then show ?thesis using that [of hdr] maybe_rate_nonneg [OF rate] by (simp add: view_of_def)
qed

section \<open>Lemmas: confidence\<close>

text \<open>The confidence a block that is not finalized cannot exceed: \<open>0.4 + 0.2\<close> in f64.\<close>

definition confidence_cap :: f64 where
  "confidence_cap = f64_lit (4 / 10) + f64_lit (2 / 10)"

lemma rnd_lit_04: "rnd (3602879701896397 / 2 ^ 53) = 3602879701896397 / 2 ^ 53"
  using rnd_frac [of "3602879701896397 / 2 ^ 53" 2 7205759403792794] by simp

lemma rnd_lit_02: "rnd (3602879701896397 / 2 ^ 54) = 3602879701896397 / 2 ^ 54"
  using rnd_frac [of "3602879701896397 / 2 ^ 54" 3 7205759403792794] by simp

lemma rnd_cap: "rnd (10808639105689191 / 2 ^ 54) = 5404319552844596 / 2 ^ 53"
  using rnd_frac [of "10808639105689191 / 2 ^ 54" 1 5404319552844596] by simp

lemma confidence_cap_value: "confidence_cap = Fin False (5404319552844596 / 2 ^ 53)"
  unfolding confidence_cap_def lit_04 lit_02 using rnd_cap by (simp add: f64_round_small)

text \<open>With no confirmations, only the participation term and the base confidence remain.\<close>

lemma confirmation_confidence_0:
  "st_confirmations st = 0 \<Longrightarrow> confirmation_confidence ps st = Fin False 0"
proof -
  assume z: "st_confirmations st = 0"
  have "f64_of_word (u32_to_u64 (st_confirmations st)) = Fin False 0"
    by (simp add: z u32_to_u64_def f64_of_u64)
  moreover have "f64_of_word (min_confirmations ps) = Fin False (of_nat (unat (min_confirmations ps)))"
    by (rule f64_of_u32)
  ultimately show ?thesis
    by (auto simp: confirmation_confidence_def Let_def lit_0 lit_1 f64_min_def word_gt_0 f64_round_small
        unsigned_eq_0_iff)
qed

lemma participation_confidence_range:
  assumes "f64_nonneg (st_participation_rate st)" and "f64_nonneg (min_participation ps)"
  shows "\<exists>m. participation_confidence ps st = Fin False m \<and> 0 \<le> m \<and> m \<le> 1"
  using f64_min_1_div [OF assms] by (simp add: participation_confidence_def lit_0)

lemma weighted_confidence:
  assumes "0 \<le> p" and "p \<le> 1"
  shows "\<exists>c. Fin False 0 * f64_lit (4 / 10) + Fin False p * f64_lit (4 / 10) + f64_lit (2 / 10) = Fin False c \<and>
    3602879701896397 / 2 ^ 54 \<le> c \<and> c \<le> 5404319552844596 / 2 ^ 53"
proof -
  define a b where ab: "a = (3602879701896397 / 2 ^ 53 :: rat)" "b = (3602879701896397 / 2 ^ 54 :: rat)"
  have num: "a + b = 10808639105689191 / 2 ^ 54" "0 \<le> a" "0 \<le> b" "a \<le> 1" "b \<le> 1" by (simp_all add: ab)
  have small: "x \<le> 2 \<Longrightarrow> x \<le> 2 ^ 1000" for x :: rat
    by (rule small_le_2_1000) simp
  define q where "q = rnd (p * a)"
  have pa: "p * a \<le> a" "p * a \<le> 1" using assms num(2,4) mult_right_mono [of p 1 a] by simp_all
  have q: "0 \<le> q" "q \<le> a" unfolding q_def using rnd_le_fixed [OF pa(1)] rnd_lit_04 by (simp_all add: ab)
  define r where "r = rnd q"
  have r: "0 \<le> r" "r \<le> a" unfolding r_def using rnd_le_fixed [OF q(2)] rnd_lit_04 by (simp_all add: ab)
  have e1: "Fin False 0 * Fin False a = Fin False 0" by (simp add: f64_round_small)
  have e2: "Fin False p * Fin False a = Fin False q" unfolding q_def
    using pa(2) by (intro f64_times_small small) simp
  have e3: "Fin False 0 + Fin False q = Fin False r" unfolding r_def
    using q num(4) f64_plus_small [of 0 q] small [of q] by simp
  have e4: "Fin False r + Fin False b = Fin False (rnd (r + b))"
    using r num by (intro f64_plus_small small) simp
  have "Fin False 0 * f64_lit (4 / 10) + Fin False p * f64_lit (4 / 10) + f64_lit (2 / 10) = Fin False (rnd (r + b))"
    unfolding lit_04 lit_02 ab [symmetric] e1 e2 e3 e4 ..
  moreover have "b \<le> rnd (r + b)" using r(1) rnd_lit_02 by (intro rnd_ge_fixed) (simp_all add: ab)
  moreover have "rnd (r + b) \<le> 5404319552844596 / 2 ^ 53"
    using rnd_mono [of "r + b" "a + b"] r(2) num(1) rnd_cap by simp
  ultimately show ?thesis unfolding ab by blast
qed

lemma confidence_of_unfinalized:
  assumes "\<not> st_is_finalized st" and "st_confirmations st = 0"
    and "f64_nonneg (st_participation_rate st)" and "f64_nonneg (min_participation ps)"
  shows "f64_lit (2 / 10) \<le> confidence_of ps st \<and> confidence_of ps st \<le> confidence_cap"
proof -
  obtain p where p: "participation_confidence ps st = Fin False p" "0 \<le> p" "p \<le> 1"
    using participation_confidence_range [OF assms(3,4)] by blast
  obtain c where c: "Fin False 0 * f64_lit (4 / 10) + Fin False p * f64_lit (4 / 10) + f64_lit (2 / 10) = Fin False c"
    "3602879701896397 / 2 ^ 54 \<le> c" "c \<le> 5404319552844596 / 2 ^ 53"
    using weighted_confidence [OF p(2,3)] by blast
  have "c \<le> 8556839292003942 / 2 ^ 53" using c(3) by (rule order_trans) simp
  then have "f64_min (Fin False c) (f64_lit (95 / 100)) = Fin False c"
    unfolding lit_095 by (simp add: f64_min_def)
  then have "confidence_of ps st = Fin False c"
    using assms(1) unfolding confidence_of_def Let_def confirmation_confidence_0 [OF assms(2)] p(1) c(1) by simp
  then show ?thesis using c(2,3) by (simp only: lit_02 confidence_cap_value f64_le_Fin simp_thms)
qed

section \<open>The checks keep the contract of the interface\<close>

lemma hash_frame: "snd (verify_block_hash X b nd) = nd"
  by (simp add: verify_block_hash_def try_then_def Let_def split: res.splits)

lemma try_pure_snd: "snd (try_then m (\<lambda>x s. (f x s, s)) s0) = snd (m s0)"
  by (simp add: try_then_def split: prod.splits res.splits)

lemma confidence_frame: "metrics_only nd (snd (get_finality_confidence X b nd))"
  using status_frame by (simp add: get_finality_confidence_def try_pure_snd)

lemma rules_frame: "metrics_only nd (snd (verify_chain_rules X b r nd))"
  using status_frame by (simp add: verify_chain_rules_def try_pure_snd)

lemma verify_block_hash_Ok:
  "fst (verify_block_hash X b nd) = Ok r \<longleftrightarrow>
   (\<exists>hdr. cl_header (nd_client nd) (br_hash b) = Ok (Some hdr) \<and> r = (hd_number hdr = u64_to_u32_sat (br_number b)))"
  by (auto simp: verify_block_hash_def try_then_fst_Ok lookup_header_def and_then_eq_Ok Let_def)

text \<open>The confidence of a block, in terms of the snapshot.\<close>

lemma confidence_Ok:
  assumes "fst (get_finality_confidence X b nd) = Ok c" and "f64_nonneg (min_participation (nd_params nd))"
  obtains hdr where "cl_header (nd_client nd) (br_hash b) = Ok (Some hdr)"
    and "cv_block_at (view_of nd) (br_hash b) = Some (hd_number hdr)"
    and "if hd_number hdr \<le> cv_finalized (view_of nd) then c = f64_lit 1
         else f64_lit (2 / 10) \<le> c \<and> c \<le> confidence_cap"
proof -
  obtain st nd' where st: "get_finality_status X (br_hash b) nd = (Ok st, nd')"
    and c: "c = confidence_of (nd_params nd') st"
    using assms(1) by (auto simp: get_finality_confidence_def try_then_fst_Ok res_simps)
  have ps: "nd_params nd' = nd_params nd"
    using metrics_onlyD(3) [OF status_frame [of nd X "br_hash b"]] st by simp
  have "fst (get_finality_status X (br_hash b) nd) = Ok st" using st by simp
  from status_Ok [OF this] obtain hdr where hdr:
    "cl_header (nd_client nd) (br_hash b) = Ok (Some hdr)"
    and "st_block_number st = hd_number hdr"
    and hdr': "st_confirmations st = sat_sub (cv_finalized (view_of nd)) (hd_number hdr)"
    "st_is_finalized st \<longleftrightarrow> hd_number hdr \<le> cv_finalized (view_of nd)"
    "f64_nonneg (st_participation_rate st)"
    "cv_block_at (view_of nd) (br_hash b) = Some (hd_number hdr)" .
  have "if hd_number hdr \<le> cv_finalized (view_of nd) then c = f64_lit 1
        else f64_lit (2 / 10) \<le> c \<and> c \<le> confidence_cap"
  proof (cases "hd_number hdr \<le> cv_finalized (view_of nd)")
    case True
    with hdr'(2) show ?thesis by (simp add: c confidence_of_def)
  next
    case False
    then have "st_confirmations st = 0" using hdr'(1) by (simp add: sat_sub_eq_0_iff)
    from confidence_of_unfinalized [OF _ this hdr'(3) assms(2)] False hdr'(2) show ?thesis by (simp add: c ps)
  qed
  with hdr hdr'(4) that show ?thesis by blast
qed

text \<open>Accepted chain rules, in terms of the snapshot.\<close>

lemma chain_rules_Ok_True:
  assumes "fst (verify_chain_rules X b r nd) = Ok True"
  shows "\<exists>n. cv_block_at (view_of nd) (br_hash b) = Some n \<and>
    unat (u64_to_u32_sat (rule_min_confirmations r)) \<le> unat (cv_finalized (view_of nd)) - unat n \<and>
    unat (cv_best (view_of nd)) - unat n \<le> unat (u64_to_u32_sat (rule_max_fork_depth r))"
proof -
  obtain st nd' where st: "get_finality_status X (br_hash b) nd = (Ok st, nd')"
    and c: "chain_rules_hold (cl_info (nd_client nd')) st r"
    using assms by (auto simp: verify_chain_rules_def try_then_fst_Ok res_simps)
  have cl: "nd_client nd' = nd_client nd"
    using metrics_onlyD(1) [OF status_frame [of nd X "br_hash b"]] st by simp
  have "fst (get_finality_status X (br_hash b) nd) = Ok st" using st by simp
  from status_Ok [OF this] obtain hdr where
    "cl_header (nd_client nd) (br_hash b) = Ok (Some hdr)"
    and hdr: "st_block_number st = hd_number hdr"
    "st_confirmations st = sat_sub (cv_finalized (view_of nd)) (hd_number hdr)"
    "st_is_finalized st \<longleftrightarrow> hd_number hdr \<le> cv_finalized (view_of nd)"
    "f64_nonneg (st_participation_rate st)"
    "cv_block_at (view_of nd) (br_hash b) = Some (hd_number hdr)" .
  have "u64_to_u32_sat (rule_min_confirmations r) \<le> st_confirmations st"
    "sat_sub (cv_best (view_of nd)) (hd_number hdr) \<le> u64_to_u32_sat (rule_max_fork_depth r)"
    using c by (auto simp: chain_rules_hold_def Let_def cl hdr(1) view_of_def not_less split: if_splits)
  then show ?thesis using hdr(2,5) by (simp add: word_le_nat_alt unat_sat_sub)
qed

interpretation svc: verification_client
  "verify_block_hash X" "get_finality_confidence X" "verify_chain_rules X"
  view_of "\<lambda>nd. f64_nonneg (min_participation (nd_params nd))" confidence_cap
  for X :: "'vs externs"
proof unfold_locales
  fix b :: block_ref and r :: chain_rules and nd :: "'vs node" and c :: f64
  show "view_of (snd (verify_block_hash X b nd)) = view_of nd"
    and "f64_nonneg (min_participation (nd_params nd)) \<Longrightarrow>
      f64_nonneg (min_participation (nd_params (snd (verify_block_hash X b nd))))"
    by (simp_all add: hash_frame)
  show "view_of (snd (get_finality_confidence X b nd)) = view_of nd"
    and "f64_nonneg (min_participation (nd_params nd)) \<Longrightarrow>
      f64_nonneg (min_participation (nd_params (snd (get_finality_confidence X b nd))))"
    by (simp_all add: metrics_onlyD [OF confidence_frame])
  show "view_of (snd (verify_chain_rules X b r nd)) = view_of nd"
    and "f64_nonneg (min_participation (nd_params nd)) \<Longrightarrow>
      f64_nonneg (min_participation (nd_params (snd (verify_chain_rules X b r nd))))"
    by (simp_all add: metrics_onlyD [OF rules_frame])
  show "cv_block_at (view_of nd) (br_hash b) = Some (u64_to_u32_sat (br_number b))"
    if "fst (verify_block_hash X b nd) = Ok True"
    using that by (auto simp: verify_block_hash_Ok view_of_def)
  show "\<exists>n. cv_block_at (view_of nd) (br_hash b) = Some n \<and> (n \<le> cv_finalized (view_of nd) \<or> c \<le> confidence_cap)"
    if "f64_nonneg (min_participation (nd_params nd))" and "fst (get_finality_confidence X b nd) = Ok c"
    using confidence_Ok [OF that(2,1)] by (metis (full_types))
  show "\<exists>n. cv_block_at (view_of nd) (br_hash b) = Some n \<and>
      unat (u64_to_u32_sat (rule_min_confirmations r)) \<le> unat (cv_finalized (view_of nd)) - unat n \<and>
      unat (cv_best (view_of nd)) - unat n \<le> unat (u64_to_u32_sat (rule_max_fork_depth r))"
    if "fst (verify_chain_rules X b r nd) = Ok True"
    using that by (rule chain_rules_Ok_True)
qed

section \<open>Properties\<close>

text \<open>C28. The confidence of a known block takes two kinds of value: exactly 1.0 once the block is
  finalized, and otherwise between the base 0.2 and 0.4 + 0.2, because an unfinalized block has no
  confirmations: the cap at 0.95 never decides anything.\<close>

theorem confidence_two_valued:
  assumes "fst (get_finality_confidence X b nd) = Ok c"
    and "f64_nonneg (min_participation (nd_params nd))"
  shows "\<exists>hdr. cl_header (nd_client nd) (br_hash b) = Ok (Some hdr) \<and>
    (if hd_number hdr \<le> finalized_number (cl_info (nd_client nd)) then c = f64_lit 1
     else f64_lit (2 / 10) \<le> c \<and> c \<le> f64_lit (4 / 10) + f64_lit (2 / 10) \<and> c < f64_lit (95 / 100))"
proof -
  obtain hdr where h: "cl_header (nd_client nd) (br_hash b) = Ok (Some hdr)"
    and c: "if hd_number hdr \<le> cv_finalized (view_of nd) then c = f64_lit 1
         else f64_lit (2 / 10) \<le> c \<and> c \<le> confidence_cap"
    using confidence_Ok [OF assms] by blast
  have "confidence_cap < f64_lit (95 / 100)" unfolding confidence_cap_value lit_095 by simp
  then have "c \<le> confidence_cap \<Longrightarrow> c < f64_lit (95 / 100)" by (rule f64_le_less_trans [rotated])
  with h c show ?thesis by (auto simp: view_of_def confidence_cap_def split: if_splits)
qed

lemma sample_confidence:
  "fst (get_finality_confidence list_externs \<lparr>br_chain_id = ChainId ''x'', br_number = 3, br_hash = 3\<rparr> (sample_node 1 3))
     = Ok (f64_lit (2 / 10))"
proof -
  have "Fin False 0 * f64_lit (4 / 10) + Fin False 0 * f64_lit (4 / 10) + f64_lit (2 / 10) = f64_lit (2 / 10)"
    unfolding lit_04 lit_02 using rnd_lit_02 by (simp add: f64_round_small)
  moreover have "f64_min (f64_lit (2 / 10)) (f64_lit (95 / 100)) = f64_lit (2 / 10)"
    unfolding lit_02 lit_095 by (simp add: f64_min_def)
  ultimately show ?thesis
    by (simp add: get_finality_confidence_def get_finality_status_def try_then_def with_err_def lookup_header_def
        sample_defs Let_def confidence_of_def confirmation_confidence_0 participation_confidence_def
        sat_sub_def lit_0 word_le_nat_alt)
qed

theorem confidence_two_valued_witness:
  "\<exists>hdr. cl_header (nd_client (sample_node 1 3)) 3 = Ok (Some hdr) \<and>
    (if hd_number hdr \<le> finalized_number (cl_info (nd_client (sample_node 1 3))) then f64_lit (2 / 10) = f64_lit 1
     else f64_lit (2 / 10) \<le> f64_lit (2 / 10) \<and> f64_lit (2 / 10) \<le> f64_lit (4 / 10) + f64_lit (2 / 10) \<and>
       f64_lit (2 / 10) < f64_lit (95 / 100))"
proof -
  have n: "f64_nonneg (min_participation (nd_params (sample_node 1 3)))"
    by (simp add: sample_node_def verification_params_default_def lit_067)
  from confidence_two_valued [OF sample_confidence n] show ?thesis by simp
qed

text \<open>Block inclusion looks at the length of the proof only: for a block that verifies, every
  non-empty byte string is accepted and the empty one is refused.\<close>

lemma block_inclusion_any_proof:
  assumes "fst (verify_block_hash X b nd) = Ok True"
  shows "fst (verify_block_inclusion X b proof nd) = Ok (proof \<noteq> [])"
proof -
  obtain hdr where "cl_header (nd_client nd) (br_hash b) = Ok (Some hdr)"
    using assms by (auto simp: verify_block_hash_Ok)
  moreover have "verify_block_hash X b nd = (Ok True, nd)"
    using assms hash_frame [of X b nd] by (metis prod.collapse)
  ultimately show ?thesis
    by (simp add: verify_block_inclusion_def verify_merkle_proof_def try_then_def lookup_header_def)
qed

lemma block_inclusion_any_proof_witness:
  "fst (verify_block_inclusion list_externs \<lparr>br_chain_id = ChainId ''x'', br_number = 2, br_hash = 2\<rparr> [0] (sample_node 1 3))
     = Ok True"
  using block_inclusion_any_proof [of list_externs "\<lparr>br_chain_id = ChainId ''x'', br_number = 2, br_hash = 2\<rparr>"
      "sample_node 1 3" "[0]"]
  by (simp add: verify_block_hash_def try_then_def lookup_header_def sample_defs Let_def u64_to_u32_sat_def)

text \<open>An authority-set update is all or nothing: it fails exactly when the new list has no weight
  or its total does not fit in a u64, and then the voter set is the old one; otherwise the voter set
  represents the new list. Nothing else of the node changes.\<close>

lemma authority_update_atomic:
  assumes "voter_set_laws X" and "handle_authority_set_update X new_set sid nd = (r, nd')"
  shows "(if total_of new_set = 0 \<or> 2 ^ 64 \<le> total_of new_set
     then r = Err (GvAuthoritySetError ''Failed to create voter set'') \<and> nd' = nd
     else r = Ok () \<and> voter_set_of X new_set (nd_voter_set nd') \<and> nd'\<lparr>nd_voter_set := nd_voter_set nd\<rparr> = nd)"
proof (cases "vs_new X new_set")
  case None
  then show ?thesis using assms voter_set_laws_None [OF assms(1), of new_set]
    by (simp add: handle_authority_set_update_def)
next
  case (Some vs)
  then show ?thesis using assms voter_set_laws_Some [OF assms(1) Some]
    by (auto simp: handle_authority_set_update_def)
qed

lemma authority_update_atomic_witness:
  "let nd' = snd (handle_authority_set_update list_externs [([7], 5)] 1 (sample_node 1 3))
   in voter_set_of list_externs [([7], 5)] (nd_voter_set nd')"
  using authority_update_atomic [OF list_externs_laws prod.collapse [symmetric], of "[([7], 5)]" 1 "sample_node 1 3"]
  by (simp add: Let_def)

end
