(* ===== verification/Node_Runs.thy ===== *)
theory Node_Runs
  imports Verification_Client
begin

text \<open>
  Runs of a \<open>SubstrateVerificationClient\<close>: the steps are its public operations that take locks for
  writing or count metrics, and the steps of the chain itself, which replace the snapshot. What every
  reachable node keeps: a voter set built from an authority list, the parameters it was made with, and
  signature counters that nobody ever registers. A second machine follows the status cache and logs
  every computed status with its time.
\<close>

section \<open>Steps and reachable nodes\<close>

inductive node_step :: "'vs externs \<Rightarrow> 'vs node \<Rightarrow> 'vs node \<Rightarrow> bool" for X :: "'vs externs" where
  chain: "node_step X nd (nd\<lparr>nd_client := c\<rparr>)"
| justification: "node_step X nd (snd (verify_justification X j nd))"
| status: "node_step X nd (snd (get_finality_status X h nd))"
| cached_status: "node_step X nd (snd (get_finality_status_cached X t_read t_insert t_retain h nd))"
| runtime_authorities: "node_step X nd (snd (update_authorities_from_runtime X h nd))"
| authority_update: "node_step X nd (snd (handle_authority_set_update X as i nd))"
| block_hash: "node_step X nd (snd (verify_block_hash X b nd))"
| confidence: "node_step X nd (snd (get_finality_confidence X b nd))"
| chain_rules: "node_step X nd (snd (verify_chain_rules X b r nd))"
| inclusion: "node_step X nd (snd (verify_block_inclusion X b p nd))"

inductive_cases node_stepE: "node_step X nd nd'"

inductive node_reachable :: "'vs externs \<Rightarrow> 'vs node \<Rightarrow> 'vs node \<Rightarrow> bool"
  for X :: "'vs externs" and nd0 :: "'vs node" where
  start: "node_reachable X nd0 nd0"
| step: "node_reachable X nd0 nd \<Longrightarrow> node_step X nd nd' \<Longrightarrow> node_reachable X nd0 nd'"

section \<open>The invariant\<close>

text \<open>Relative to the node at the start.\<close>

definition node_inv :: "'vs externs \<Rightarrow> 'vs node \<Rightarrow> 'vs node \<Rightarrow> bool" where
  "node_inv X nd0 nd \<longleftrightarrow> nd_params nd = nd_params nd0 \<and> nd_chain_config nd = nd_chain_config nd0 \<and>
     counters_dead (nd_metrics nd) \<and>
     (\<exists>as. vs_new X as = Some (nd_voter_set nd))"

lemma node_inv_start:
  "vs_new X as = Some (nd_voter_set nd) \<Longrightarrow> counters_dead (nd_metrics nd) \<Longrightarrow> node_inv X nd nd"
  unfolding node_inv_def by blast

lemma metrics_only_inv: "metrics_only nd nd' \<Longrightarrow> node_inv X nd0 nd \<Longrightarrow> node_inv X nd0 nd'"
  by (metis metrics_only_def node_inv_def)

lemma inclusion_frame: "snd (verify_block_inclusion X b p nd) = nd"
proof -
  have "snd (verify_merkle_proof X h p nd) = nd" for h
    by (simp add: verify_merkle_proof_def try_then_def split: res.splits)
  moreover obtain r where "verify_block_hash X b nd = (r, nd)"
    using hash_frame [of X b nd] by (metis prod.collapse)
  ultimately show ?thesis
    by (simp add: verify_block_inclusion_def try_then_def split: res.splits)
qed

lemma cached_cases:
  obtains (hit) st where "cache_hit t_read (nd_finality_cache nd) h = Some st"
    and "get_finality_status_cached X t_read t_insert t_retain h nd = (Ok st, nd)"
  | (computed) st nd' where "cache_hit t_read (nd_finality_cache nd) h = None"
    and "get_finality_status X h nd = (Ok st, nd')"
    and "get_finality_status_cached X t_read t_insert t_retain h nd =
      (Ok st, nd'\<lparr>nd_finality_cache := cache_store t_insert t_retain h st (nd_finality_cache nd')\<rparr>)"
  | (failed) r nd' where "cache_hit t_read (nd_finality_cache nd) h = None"
    and "get_finality_status X h nd = (r, nd')" and "\<not> is_ok r"
    and "get_finality_status_cached X t_read t_insert t_retain h nd = (r, nd')"
proof (cases "cache_hit t_read (nd_finality_cache nd) h")
  case None
  obtain r nd' where st: "get_finality_status X h nd = (r, nd')" by (cases "get_finality_status X h nd")
  then show ?thesis using None computed failed
    by (cases r) (simp_all add: get_finality_status_cached_def try_then_def)
next
  case (Some st)
  then show ?thesis using hit by (simp add: get_finality_status_cached_def)
qed

lemma cached_inv:
  assumes "node_inv X nd0 nd"
  shows "node_inv X nd0 (snd (get_finality_status_cached X t_read t_insert t_retain h nd))"
proof -
  have s: "node_inv X nd0 (snd (get_finality_status X h nd))"
    using metrics_only_inv [OF status_frame assms] .
  show ?thesis
    by (rule cached_cases [of t_read nd h X t_insert t_retain]) (use assms s in \<open>auto simp: node_inv_def\<close>)
qed

lemma runtime_authorities_inv:
  "node_inv X nd0 nd \<Longrightarrow> node_inv X nd0 (snd (update_authorities_from_runtime X h nd))"
  by (auto simp: update_authorities_from_runtime_def node_inv_def ok_or_def split: res.splits option.splits)

lemma authority_update_inv:
  "node_inv X nd0 nd \<Longrightarrow> node_inv X nd0 (snd (handle_authority_set_update X as i nd))"
  by (auto simp: handle_authority_set_update_def node_inv_def ok_or_def split: option.splits)

lemma node_step_inv: "node_step X nd nd' \<Longrightarrow> node_inv X nd0 nd \<Longrightarrow> node_inv X nd0 nd'"
proof (induction rule: node_step.induct)
  case (chain nd c)
  then show ?case by (simp add: node_inv_def)
next
  case (justification nd j)
  then show ?case by (rule metrics_only_inv [OF metrics_only_verify])
next
  case (status nd h)
  then show ?case by (rule metrics_only_inv [OF status_frame])
next
  case (confidence nd b)
  then show ?case by (rule metrics_only_inv [OF confidence_frame])
next
  case (chain_rules nd b r)
  then show ?case by (rule metrics_only_inv [OF rules_frame])
qed (simp_all add: cached_inv runtime_authorities_inv authority_update_inv hash_frame inclusion_frame)

lemma node_reachable_inv: "node_reachable X nd0 nd \<Longrightarrow> node_inv X nd0 nd0 \<Longrightarrow> node_inv X nd0 nd"
  by (induction rule: node_reachable.induct) (auto intro: node_step_inv)

section \<open>Runs of the cache\<close>

text \<open>A cached query in a run: a computed status enters the hist with the time it was stored at.\<close>

definition cache_log ::
    "nat \<Rightarrow> nat \<Rightarrow> h256 \<Rightarrow> 'vs node \<Rightarrow> (finality_status, gv_error) res \<Rightarrow>
     (h256 \<times> finality_status \<times> nat) list \<Rightarrow> (h256 \<times> finality_status \<times> nat) list" where
  "cache_log t_read t_insert h nd r hist = (case cache_hit t_read (nd_finality_cache nd) h of
     Some _ \<Rightarrow> hist
   | None \<Rightarrow> (case r of Ok st \<Rightarrow> (h, st, t_insert) # hist | Err _ \<Rightarrow> hist | Panic _ \<Rightarrow> hist))"

inductive cache_run :: "'vs externs \<Rightarrow> 'vs node \<Rightarrow> (h256 \<times> finality_status \<times> nat) list \<Rightarrow> bool"
  for X :: "'vs externs" where
  start: "nd_finality_cache nd = Map.empty \<Longrightarrow> cache_run X nd []"
| other: "cache_run X nd hist \<Longrightarrow> node_step X nd nd' \<Longrightarrow> nd_finality_cache nd' = nd_finality_cache nd \<Longrightarrow>
    cache_run X nd' hist"
| query: "cache_run X nd hist \<Longrightarrow> get_finality_status_cached X t_read t_insert t_retain h nd = (r, nd') \<Longrightarrow>
    cache_run X nd' (cache_log t_read t_insert h nd r hist)"

lemma cache_store_Some:
  "cache_store t_insert t_retain h st cache k = Some (st', ts) \<Longrightarrow>
   cache k = Some (st', ts) \<or> (k, st', ts) = (h, st, t_insert)"
  by (auto simp: cache_store_def Let_def split: option.splits if_splits)

lemma cache_run_logged:
  "cache_run X nd hist \<Longrightarrow> nd_finality_cache nd k = Some (st, ts) \<Longrightarrow> (k, st, ts) \<in> set hist"
proof (induction arbitrary: k st ts rule: cache_run.induct)
  case (query nd hist t_read t_insert t_retain h r nd')
  show ?case
  proof (rule cached_cases [of t_read nd h X t_insert t_retain])
    fix s assume "cache_hit t_read (nd_finality_cache nd) h = Some s"
      and "get_finality_status_cached X t_read t_insert t_retain h nd = (Ok s, nd)"
    then show ?thesis using query by (simp add: cache_log_def)
  next
    fix s nd1 assume miss: "cache_hit t_read (nd_finality_cache nd) h = None"
      and st: "get_finality_status X h nd = (Ok s, nd1)"
      and c: "get_finality_status_cached X t_read t_insert t_retain h nd =
        (Ok s, nd1\<lparr>nd_finality_cache := cache_store t_insert t_retain h s (nd_finality_cache nd1)\<rparr>)"
    have "nd_finality_cache nd1 = nd_finality_cache nd"
      using metrics_onlyD(5) [OF status_frame [of nd X h]] st by simp
    then have "cache_store t_insert t_retain h s (nd_finality_cache nd) k = Some (st, ts)"
      using c query.hyps(2) query.prems by simp
    then have "nd_finality_cache nd k = Some (st, ts) \<or> (k, st, ts) = (h, s, t_insert)"
      by (rule cache_store_Some)
    then show ?thesis using miss c query.hyps(2) query.IH [of k st ts] by (auto simp: cache_log_def)
  next
    fix s nd1 assume miss: "cache_hit t_read (nd_finality_cache nd) h = None"
      and st: "get_finality_status X h nd = (s, nd1)" and no: "\<not> is_ok s"
      and c: "get_finality_status_cached X t_read t_insert t_retain h nd = (s, nd1)"
    have "nd_finality_cache nd1 = nd_finality_cache nd"
      using metrics_onlyD(5) [OF status_frame [of nd X h]] st by simp
    then show ?thesis using miss c no query.hyps(2) query.prems query.IH [of k st ts]
      by (auto simp: cache_log_def split: res.splits)
  qed
qed simp_all

lemma cache_hit_Some:
  "cache_hit t cache h = Some st \<longleftrightarrow> (\<exists>ts. cache h = Some (st, ts) \<and> t - ts < 5 * second)"
  by (auto simp: cache_hit_def elapsed_def split: option.splits)

section \<open>Properties\<close>


lemma sample_reachable:
  "node_reachable list_externs (client_new (sample_client 1 3) [([7], 5)] ps cc metrics_init)
     (snd (handle_authority_set_update list_externs [([8], 2)] 1
        (client_new (sample_client 1 3) [([7], 5)] ps cc metrics_init)))"
  by (rule node_reachable.step [OF node_reachable.start node_step.authority_update])


text \<open>The two signature counters are dead: no run of a client registers or increments them, however
  many signatures it verifies.\<close>

lemma signature_counters_never_count:
  assumes "vs_new X as = Some vs"
    and "node_reachable X (client_new c vs ps cc metrics_init) nd"
  shows "signature_verifications (nd_metrics nd) = None \<and> valid_signatures_total (nd_metrics nd) = None"
proof -
  let ?nd0 = "client_new c vs ps cc metrics_init"
  have "node_inv X ?nd0 nd"
    by (rule node_reachable_inv [OF assms(2) node_inv_start [of X as]]) (simp_all add: assms(1) client_new_def)
  then show ?thesis by (simp add: node_inv_def counters_dead_def)
qed

lemma signature_counters_never_count_witness:
  "signature_verifications (nd_metrics (snd (handle_authority_set_update list_externs [([8], 2)] 1
     (client_new (sample_client 1 3) [([7], 5)] verification_params_default chain_config_default metrics_init)))) = None"
  using signature_counters_never_count [OF _ sample_reachable, of "[([7], 5)]"]
  by (simp add: list_externs_def)

text \<open>C20. The cache bounds staleness: in every run, a cached query answers a status computed from the
  current snapshot or one that was computed for the same block hash and stored less than five seconds
  before the query read the clock.\<close>

theorem cached_status_recent:
  assumes "cache_run X nd hist"
    and "get_finality_status_cached X t_read t_insert t_retain h nd = (Ok st, nd')"
  shows "fst (get_finality_status X h nd) = Ok st \<or>
    (\<exists>ts. (h, st, ts) \<in> set hist \<and> t_read - ts < 5 * second)"
  by (rule cached_cases [of t_read nd h X t_insert t_retain])
    (use assms cache_run_logged [OF assms(1)] in \<open>auto simp: cache_hit_Some\<close>)

lemma sample_status:
  "get_finality_status list_externs 2 (sample_node 1 3) =
     (Ok \<lparr>st_block_number = 2, st_confirmations = 0, st_has_justification = False, st_is_finalized = False,
        st_participation_rate = f64_lit 0\<rparr>, sample_node 1 3)"
  by (simp add: get_finality_status_def try_then_def lookup_header_def sample_defs Let_def sat_sub_def
      word_less_nat_alt word_le_nat_alt)

definition sample_status_2 :: finality_status where
  "sample_status_2 = \<lparr>st_block_number = 2, st_confirmations = 0, st_has_justification = False,
     st_is_finalized = False, st_participation_rate = f64_lit 0\<rparr>"

definition sample_cached_node :: "block_number \<Rightarrow> authority_list node" where
  "sample_cached_node fin = (sample_node fin 3)\<lparr>nd_finality_cache := [2 \<mapsto> (sample_status_2, 8)]\<rparr>"

lemma sample_miss: "cache_hit 7 (nd_finality_cache (sample_node 1 3)) 2 = None"
  by (simp add: cache_hit_def sample_node_def)

lemma sample_query:
  "get_finality_status_cached list_externs 7 8 (\<lambda>_. 9) 2 (sample_node 1 3) = (Ok sample_status_2, sample_cached_node 1)"
proof -
  have "cache_store 8 (\<lambda>_. 9) 2 sample_status_2 (nd_finality_cache (sample_node 1 3)) = [2 \<mapsto> (sample_status_2, 8)]"
    by (rule ext) (simp add: cache_store_def elapsed_def second_def sample_node_def)
  then show ?thesis
    by (simp add: get_finality_status_cached_def sample_miss try_then_def sample_status sample_status_2_def
        sample_cached_node_def)
qed

theorem cached_status_recent_witness:
  "\<exists>ts. (2 :: h256, sample_status_2, ts) \<in> set [(2, sample_status_2, 8)] \<and> 10 - ts < 5 * second"
proof -
  have "cache_run list_externs (sample_node 1 3) []"
    by (rule cache_run.start) (simp add: sample_node_def)
  from cache_run.query [OF this sample_query] have "cache_run list_externs (sample_cached_node 1) [(2, sample_status_2, 8)]"
    by (simp add: cache_log_def sample_miss)
  from cache_run.other [OF this node_step.chain [of _ _ "sample_client 2 3"]]
  have run: "cache_run list_externs (sample_cached_node 2) [(2, sample_status_2, 8)]"
    by (simp add: sample_cached_node_def sample_node_def)
  have hit: "get_finality_status_cached list_externs 10 11 (\<lambda>_. 12) 2 (sample_cached_node 2) =
      (Ok sample_status_2, sample_cached_node 2)"
    by (simp add: get_finality_status_cached_def cache_hit_def sample_cached_node_def elapsed_def second_def)
  have "fst (get_finality_status list_externs 2 (sample_cached_node 2)) \<noteq> Ok sample_status_2"
    by (simp add: get_finality_status_def try_then_def lookup_header_def sample_cached_node_def sample_defs Let_def
        sample_status_2_def sat_sub_def word_less_nat_alt word_le_nat_alt)
  with cached_status_recent [OF run hit] show ?thesis by blast
qed

text \<open>A computed status shadows the chain: until five seconds after it was stored, the cached query
  keeps answering it even when the snapshot has changed, also when the block has become finalized or
  its header can no longer be read.\<close>

lemma cached_status_shadows_chain:
  assumes "get_finality_status_cached X t_read t_insert t_retain h nd = (Ok st, nd')"
    and "cache_hit t_read (nd_finality_cache nd) h = None"
    and "t_retain h - t_insert < 30 * second" and "t - t_insert < 5 * second"
  shows "get_finality_status_cached X t t_insert' t_retain' h (nd'\<lparr>nd_client := c\<rparr>) = (Ok st, nd'\<lparr>nd_client := c\<rparr>)"
proof -
  have "nd_finality_cache nd' h = Some (st, t_insert)"
    by (rule cached_cases [of t_read nd h X t_insert t_retain])
      (use assms in \<open>auto simp: cache_store_def elapsed_def\<close>)
  then show ?thesis using assms(4)
    by (simp add: get_finality_status_cached_def cache_hit_def elapsed_def)
qed

lemma cached_status_shadows_chain_witness:
  "fst (get_finality_status_cached list_externs 10 11 (\<lambda>_. 12) 2 (sample_cached_node 2)) = Ok sample_status_2 \<and>
   hd_number \<lparr>hd_number = 2, hd_hash = 2, hd_parent_hash = 1, hd_state_root = 0\<rparr> \<le>
     finalized_number (cl_info (nd_client (sample_cached_node 2)))"
proof -
  have "sample_cached_node 2 = (sample_cached_node 1)\<lparr>nd_client := sample_client 2 3\<rparr>"
    by (simp add: sample_cached_node_def sample_node_def)
  with cached_status_shadows_chain [OF sample_query sample_miss, of 10 11 "\<lambda>_. 12" "sample_client 2 3"] show ?thesis
    by (simp add: second_def) (simp add: sample_cached_node_def sample_defs)
qed

end
