(* ===== verification/Grandpa_Finality.thy ===== *)
theory Grandpa_Finality
  imports Node_Runs
begin

text \<open>
  \<open>GrandpaFinality\<close> (\<open>src/finality/mod.rs\<close>, lines 211 to 407): construction, authority-set changes, and
  the finality predicate run on the node that its verification client is. The interpretation at the end
  of the first part instantiates the contract of a finality predicate with these definitions; the
  properties say when a block is reported final and what waiting for finality establishes.
\<close>

section \<open>State and construction\<close>

text \<open>
  The field \<open>verification_client\<close> is a trait object: the client of this crate, or one of another
  type, which \<open>downcast_ref\<close> does not recognise. The field \<open>client\<close> is never read after
  construction, so it is left out.
\<close>

datatype ('vs, 'o) dyn_client = Substrate "'vs node" | Foreign 'o

record ('vs, 'o) grandpa_finality =
  gf_config :: predicate_config
  gf_verification_client :: "('vs, 'o) dyn_client"
  gf_voter_set :: 'vs

definition gf_new ::
    "'vs externs \<Rightarrow> predicate_config \<Rightarrow> ('vs, 'o) dyn_client \<Rightarrow> authority_list \<Rightarrow>
     (('vs, 'o) grandpa_finality, 'e) res" where
  "gf_new X cfg vc auths =
     and_then (expect ''Valid authority set'' (vs_new X (map (\<lambda>(i, w). (i, w)) auths))) (\<lambda>vs.
     Ok \<lparr>gf_config = cfg, gf_verification_client = vc, gf_voter_set = vs\<rparr>)"

text \<open>The chain is read twice; \<open>c'\<close> is what the client answers the second time.\<close>

definition gf_new_from_runtime ::
    "'vs externs \<Rightarrow> client \<Rightarrow> client \<Rightarrow> predicate_config \<Rightarrow> verification_params \<Rightarrow> chain_config \<Rightarrow> metrics \<Rightarrow>
     (('vs, 'o) grandpa_finality, gv_error) res" where
  "gf_new_from_runtime X c c' cfg ps cc g =
     and_then (new_with_runtime_authorities X c ps cc g) (\<lambda>nd.
     let best_hash = best_hash (cl_info c') in
     and_then (map_err (\<lambda>e. GvChainError (''Failed to get GRANDPA authorities: '' @ e))
       (cl_grandpa_authorities c' best_hash)) (\<lambda>auths.
     and_then (ok_or (GvAuthoritySetError ''Failed to create voter set'')
       (vs_new X (map (\<lambda>(i, w). (i, w)) auths))) (\<lambda>vs.
     Ok \<lparr>gf_config = cfg, gf_verification_client = Substrate nd, gf_voter_set = vs\<rparr>)))"

definition handle_authority_set_change ::
    "'vs externs \<Rightarrow> authority_list \<Rightarrow> u64 \<Rightarrow> ('vs, 'o) grandpa_finality \<Rightarrow>
     (unit, gv_error) res \<times> ('vs, 'o) grandpa_finality" where
  "handle_authority_set_change X new_auths sid gf =
     (case ok_or (GvAuthoritySetError ''Failed to create new voter set'')
         (vs_new X (map (\<lambda>(i, w). (i, w)) new_auths)) of
       Ok new_voter_set \<Rightarrow> (case gf_verification_client gf of
           Substrate nd \<Rightarrow> (case handle_authority_set_update X new_auths sid nd of
               (r, nd') \<Rightarrow> (r, gf\<lparr>gf_verification_client := Substrate nd'\<rparr>))
         | Foreign _ \<Rightarrow> (Ok (), gf))
     | Err e \<Rightarrow> (Err e, gf)
     | Panic m \<Rightarrow> (Panic m, gf))"

text \<open>The predicate over the client of this crate, and waiting on it; \<open>env k 2\<close> is the sleep.\<close>

definition grandpa_is_final ::
    "'vs externs \<Rightarrow> predicate_config \<Rightarrow> (nat \<Rightarrow> 'vs node \<Rightarrow> 'vs node) \<Rightarrow> block_ref \<Rightarrow> 'vs node \<Rightarrow>
     (bool, finality_error) res \<times> 'vs node" where
  "grandpa_is_final X cfg env =
     is_final (display_fv_error X) (verify_block_hash X) (get_finality_confidence X) (verify_chain_rules X) cfg env"

definition grandpa_wait ::
    "'vs externs \<Rightarrow> predicate_config \<Rightarrow> (nat \<Rightarrow> nat \<Rightarrow> 'vs node \<Rightarrow> 'vs node) \<Rightarrow> (nat \<Rightarrow> nat) \<Rightarrow> block_ref \<Rightarrow>
     'vs node \<Rightarrow> ((unit, finality_error) res \<times> 'vs node) option" where
  "grandpa_wait X cfg env since_start b =
     wait_for_finality (\<lambda>k. grandpa_is_final X cfg (env k) b) since_start (\<lambda>k. env k 2) cfg b"

section \<open>The predicate keeps its contract\<close>

abbreviation node_ok :: "'vs node \<Rightarrow> bool" where
  "node_ok nd \<equiv> f64_nonneg (min_participation (nd_params nd))"

text \<open>The other tasks: they keep the participation threshold non-negative and let the chain only grow.\<close>

definition harmless :: "'vs node \<Rightarrow> 'vs node \<Rightarrow> bool" where
  "harmless nd nd' \<longleftrightarrow> (node_ok nd \<longrightarrow> node_ok nd') \<and> view_le (view_of nd) (view_of nd')"

definition env_grows :: "(nat \<Rightarrow> nat \<Rightarrow> 'vs node \<Rightarrow> 'vs node) \<Rightarrow> bool" where
  "env_grows env \<longleftrightarrow> (\<forall>k i nd. harmless nd (env k i nd))"

definition guarded :: "(nat \<Rightarrow> nat \<Rightarrow> 'vs node \<Rightarrow> 'vs node) \<Rightarrow> nat \<Rightarrow> nat \<Rightarrow> 'vs node \<Rightarrow> 'vs node" where
  "guarded env k i nd = (if harmless nd (env k i nd) then env k i nd else nd)"

lemma guarded_id: "env_grows env \<Longrightarrow> guarded env = env"
  by (intro ext) (simp add: guarded_def env_grows_def)

lemma env_grows_idle: "env_grows (\<lambda>_ _ nd. nd)"
  by (simp add: env_grows_def harmless_def)

interpretation gp: grandpa_predicate
  "verify_block_hash X" "get_finality_confidence X" "verify_chain_rules X"
  view_of "\<lambda>nd. node_ok nd" confidence_cap "display_fv_error X" cfg "guarded env"
  for X :: "'vs externs" and cfg :: predicate_config and env :: "nat \<Rightarrow> nat \<Rightarrow> 'vs node \<Rightarrow> 'vs node"
  by unfold_locales (auto simp: guarded_def harmless_def)

lemma wait_keeps_settled:
  assumes "env_grows env" and "node_ok nd" and "grandpa_wait X cfg env S b nd = Some (Ok (), nd')"
  shows "settled (cfg_min_confirmations cfg) 50 (view_of nd') b"
proof (rule gp.wait_sound [where env = env and w = nd and sl = "\<lambda>k. guarded env k 2"])
  show "wait_for_finality (\<lambda>k. is_final (display_fv_error X) (verify_block_hash X) (get_finality_confidence X)
      (verify_chain_rules X) cfg (guarded env k) b) S (\<lambda>k. guarded env k 2) cfg b nd = Some (Ok (), nd')"
    using assms(3) by (simp add: grandpa_wait_def grandpa_is_final_def guarded_id [OF assms(1)])
qed (use assms(2) gp.env_inv in blast)+

section \<open>Finalized blocks\<close>

text \<open>With no stored justification, the status of a known block is computed without side effects.\<close>

lemma status_no_justification:
  assumes "cl_header (nd_client nd) h = Ok (Some hdr)"
    and "cl_justifications (nd_client nd) h = Ok js" and "Option.bind js (into_grandpa_justification X) = None"
  shows "get_finality_status X h nd = (Ok \<lparr>st_block_number = hd_number hdr,
     st_confirmations = sat_sub (finalized_number (cl_info (nd_client nd))) (hd_number hdr),
     st_has_justification = False,
     st_is_finalized = (hd_number hdr \<le> finalized_number (cl_info (nd_client nd))),
     st_participation_rate = f64_lit 0\<rparr>, nd)"
  using assms by (simp add: get_finality_status_def Let_def try_then_def lookup_header_def)

lemma rules_hold_unjustified:
  "\<not> st_has_justification st \<Longrightarrow> chain_rules_hold info st (grandpa_rules cfg) \<longleftrightarrow>
     unat (u64_to_u32_sat (cfg_min_confirmations cfg)) \<le> unat (st_confirmations st) \<and>
     unat (best_number info) - unat (st_block_number st) \<le> 50"
proof -
  have "u64_to_u32_sat 50 = 50" by (simp add: u64_to_u32_sat_def)
  moreover have "unat (50 :: u32) = 50" by simp
  ultimately show "\<not> st_has_justification st \<Longrightarrow> ?thesis"
    by (auto simp: chain_rules_hold_def Let_def grandpa_rules_def word_less_nat_alt unat_sat_sub)
qed

lemma is_final_finalized:
  assumes "cl_header (nd_client nd) (br_hash b) = Ok (Some hdr)"
    and "hd_number hdr = u64_to_u32_sat (br_number b)"
    and "hd_number hdr \<le> finalized_number (cl_info (nd_client nd))"
    and "cl_justifications (nd_client nd) (br_hash b) = Ok js"
    and "Option.bind js (into_grandpa_justification X) = None"
    and "\<not> f64_lit 1 < cfg_confidence_threshold cfg"
  shows "grandpa_is_final X cfg (\<lambda>_ nd. nd) b nd =
    (Ok (unat (u64_to_u32_sat (cfg_min_confirmations cfg)) \<le>
           unat (finalized_number (cl_info (nd_client nd))) - unat (hd_number hdr) \<and>
         unat (best_number (cl_info (nd_client nd))) - unat (hd_number hdr) \<le> 50), nd)"
proof -
  note st = status_no_justification [OF assms(1,4,5)]
  have "verify_block_hash X b nd = (Ok True, nd)"
    using assms(1,2) by (simp add: verify_block_hash_def try_then_def lookup_header_def Let_def)
  moreover have "get_finality_confidence X b nd = (Ok (f64_lit 1), nd)"
    using assms(3) by (simp add: get_finality_confidence_def try_then_def st confidence_of_def)
  moreover have "verify_chain_rules X b (grandpa_rules cfg) nd =
    (Ok (unat (u64_to_u32_sat (cfg_min_confirmations cfg)) \<le>
           unat (finalized_number (cl_info (nd_client nd))) - unat (hd_number hdr) \<and>
         unat (best_number (cl_info (nd_client nd))) - unat (hd_number hdr) \<le> 50), nd)"
    by (simp add: verify_chain_rules_def try_then_def st rules_hold_unjustified unat_sat_sub)
  ultimately show ?thesis using assms(6)
    by (simp add: grandpa_is_final_def is_final_def Let_def try_then_def)
qed

text \<open>On a known block without a stored justification the predicate always answers and changes nothing.\<close>

lemma is_final_answers:
  assumes "cl_header (nd_client nd) (br_hash b) = Ok (Some hdr)"
    and "hd_number hdr = u64_to_u32_sat (br_number b)"
    and "cl_justifications (nd_client nd) (br_hash b) = Ok None"
  shows "\<exists>v. grandpa_is_final X cfg (\<lambda>_ nd. nd) b nd = (Ok v, nd)"
proof -
  have st: "\<exists>st. get_finality_status X (br_hash b) nd = (Ok st, nd)"
    using status_no_justification [OF assms(1,3), of X] by simp
  have "verify_block_hash X b nd = (Ok True, nd)"
    using assms(1,2) by (simp add: verify_block_hash_def try_then_def lookup_header_def Let_def)
  moreover have "\<exists>c. get_finality_confidence X b nd = (Ok c, nd)"
    using st by (auto simp: get_finality_confidence_def try_then_def)
  moreover have "\<exists>v. verify_chain_rules X b (grandpa_rules cfg) nd = (Ok v, nd)"
    using st by (auto simp: verify_chain_rules_def try_then_def)
  ultimately show ?thesis
    by (auto simp: grandpa_is_final_def is_final_def Let_def try_then_def)
qed

text \<open>An environment that replays a given history of the chain: snapshot \<open>k\<close> is seen by evaluation \<open>k\<close>.\<close>

definition replay :: "(nat \<Rightarrow> client) \<Rightarrow> nat \<Rightarrow> nat \<Rightarrow> 'vs node \<Rightarrow> 'vs node" where
  "replay cs k i nd = (if i = 2 then nd\<lparr>nd_client := cs (Suc k)\<rparr> else nd)"

lemma replay_idle: "replay cs k 0 nd = nd" "replay cs k 1 nd = nd"
  by (simp_all add: replay_def)

lemma replay_calls: "is_final D vh cf vr cfg (replay cs k) b nd = is_final D vh cf vr cfg (\<lambda>_ nd. nd) b nd"
  by (simp only: is_final_def replay_idle)

section \<open>Properties\<close>


definition sample_cfg :: predicate_config where
  "sample_cfg = \<lparr>cfg_confidence_threshold = f64_lit (95 / 100), cfg_min_confirmations = 1,
     cfg_evaluation_timeout = 30 * second\<rparr>"

definition sample_block :: block_ref where
  "sample_block = \<lparr>br_chain_id = ChainId ''x'', br_number = 1, br_hash = 1\<rparr>"

lemma sample_threshold: "\<not> f64_lit 1 < cfg_confidence_threshold sample_cfg"
proof -
  have "cfg_confidence_threshold sample_cfg = f64_lit (95 / 100)" by (simp add: sample_cfg_def)
  then show ?thesis unfolding lit_095 lit_1 by simp
qed

lemma sample_header: "cl_header (sample_client fin best) 1 =
    Ok (Some \<lparr>hd_number = 1, hd_hash = 1, hd_parent_hash = 0, hd_state_root = 0\<rparr>)"
  by (simp add: sample_client_def)

lemma sample_final: "grandpa_is_final list_externs sample_cfg (\<lambda>_ nd. nd) sample_block (sample_node 2 3) =
    (Ok True, sample_node 2 3)"
  using is_final_finalized [of "sample_node 2 3" sample_block _ None list_externs sample_cfg, OF _ _ _ _ _ sample_threshold]
    sample_header [of 2 3]
  by (simp add: sample_node_def sample_block_def sample_cfg_def u64_to_u32_sat_def word_le_nat_alt)
    (simp add: sample_client_def)

lemma sample_node_ok: "node_ok (sample_node fin best)"
  by (simp add: sample_node_def verification_params_default_def lit_067)


text \<open>C26. The verdict on a finalized block without a stored justification, with a threshold of at most
  1.0: it is final exactly when it has the configured confirmations under the last finalized block and
  the best block is at most 50 ahead. A finalized block that is more than 50 blocks behind the best
  block is therefore reported not final, although finality is irreversible.\<close>

theorem finalized_block_verdict:
  assumes "cl_header (nd_client nd) (br_hash b) = Ok (Some hdr)"
    and "hd_number hdr = u64_to_u32_sat (br_number b)"
    and "hd_number hdr \<le> finalized_number (cl_info (nd_client nd))"
    and "cl_justifications (nd_client nd) (br_hash b) = Ok None"
    and "\<not> f64_lit 1 < cfg_confidence_threshold cfg"
  shows "fst (grandpa_is_final X cfg (\<lambda>_ nd. nd) b nd) =
    Ok (unat (u64_to_u32_sat (cfg_min_confirmations cfg)) \<le>
          unat (finalized_number (cl_info (nd_client nd))) - unat (hd_number hdr) \<and>
        unat (best_number (cl_info (nd_client nd))) - unat (hd_number hdr) \<le> 50)"
  using is_final_finalized [OF assms(1-4) _ assms(5)] by simp

theorem finalized_block_verdict_witness:
  "fst (grandpa_is_final list_externs sample_cfg (\<lambda>_ nd. nd) sample_block (sample_node 2 3)) = Ok True \<and>
   fst (grandpa_is_final list_externs sample_cfg (\<lambda>_ nd. nd) sample_block (sample_node 2 52)) = Ok False"
  using finalized_block_verdict [of "sample_node 2 3" sample_block _ sample_cfg list_externs, OF _ _ _ _ sample_threshold]
    finalized_block_verdict [of "sample_node 2 52" sample_block _ sample_cfg list_externs, OF _ _ _ _ sample_threshold]
    sample_header [of 2 3] sample_header [of 2 52]
  by (simp add: sample_node_def sample_block_def sample_cfg_def u64_to_u32_sat_def word_le_nat_alt)
    (simp add: sample_client_def)

text \<open>C13. Waiting for finality always returns: since every retry sleeps two seconds, the loop ends with
  the evaluation number \<open>timeout / 2 s + 1\<close> at the latest, with the outcome of its last evaluation, and
  an answer \<open>false\<close> becomes a timeout error only when the timeout has passed.\<close>

theorem wait_for_finality_returns:
  assumes "\<forall>k. 2 * second * k \<le> since_start k"
  shows "\<exists>k v r0 nd'. k \<le> cfg_evaluation_timeout cfg div (2 * second) + 1 \<and>
    grandpa_is_final X cfg (env k) b v = (r0, nd') \<and>
    grandpa_wait X cfg env since_start b nd = Some (loop_result cfg b k r0, nd') \<and>
    (r0 = Ok False \<longrightarrow> cfg_evaluation_timeout cfg < since_start k)"
proof -
  let ?m = "cfg_evaluation_timeout cfg div (2 * second) + 1"
  have "cfg_evaluation_timeout cfg < 2 * second * ?m"
    using div_mult_mod_eq [of "cfg_evaluation_timeout cfg" "2 * second"]
      mod_less_divisor [of "2 * second" "cfg_evaluation_timeout cfg"]
    by (simp add: second_def algebra_simps)
  also have "\<dots> \<le> since_start (0 + ?m)" using assms by (metis add_0)
  finally show ?thesis
    using wait_loop_returns [of cfg since_start 0 ?m "\<lambda>k. grandpa_is_final X cfg (env k) b" "\<lambda>k. env k 2" b nd]
    unfolding grandpa_wait_def wait_for_finality_def by (auto simp del: add_0)
qed

theorem wait_for_finality_returns_witness:
  "\<exists>k v r0 nd'. k \<le> 16 \<and> grandpa_is_final list_externs sample_cfg (\<lambda>_ nd. nd) sample_block v = (r0, nd') \<and>
    grandpa_wait list_externs sample_cfg (\<lambda>_ _ nd. nd) (\<lambda>k. 2 * second * k) sample_block (sample_node 1 3) =
      Some (loop_result sample_cfg sample_block k r0, nd')"
proof -
  have "cfg_evaluation_timeout sample_cfg div (2 * second) + 1 = 16" by (simp add: sample_cfg_def second_def)
  with wait_for_finality_returns [of "\<lambda>k. 2 * second * k" sample_cfg list_externs "\<lambda>_ _ nd. nd" sample_block "sample_node 1 3"]
  show ?thesis by (metis order_refl)
qed

text \<open>C12. When waiting returns without an error, the block is settled in the chain it leaves behind,
  however the chain grew between the evaluations and inside them.\<close>

theorem wait_for_finality_settles:
  assumes "grandpa_wait X cfg env since_start b nd = Some (Ok (), nd')"
    and "f64_nonneg (min_participation (nd_params nd))" and "env_grows env"
  shows "settled (cfg_min_confirmations cfg) 50 (view_of nd') b"
  using wait_keeps_settled assms by blast

lemma sample_wait: "grandpa_wait list_externs sample_cfg (\<lambda>_ _ nd. nd) S sample_block (sample_node 2 3) =
    Some (Ok (), sample_node 2 3)"
  unfolding grandpa_wait_def wait_for_finality_def
  by (subst wait_loop.simps) (simp add: sample_final)

theorem wait_for_finality_settles_witness:
  "settled 1 50 (view_of (sample_node 2 3)) sample_block"
  using wait_for_finality_settles [OF sample_wait sample_node_ok env_grows_idle] by (simp add: sample_cfg_def)


definition sample_history :: "nat \<Rightarrow> client" where
  "sample_history k = sample_client (if k < 3 then 0 else 2) 3"

lemma sample_header_block: "cl_header (sample_history k) (br_hash sample_block) =
    Ok (Some \<lparr>hd_number = 1, hd_hash = 1, hd_parent_hash = 0, hd_state_root = 0\<rparr>)"
  by (simp add: sample_history_def sample_block_def sample_client_def)


text \<open>C29. An authority-set change reaches the verification client and only it: with a usable list the
  client of this crate verifies with the new voter set, a list without weight or with too much of it
  changes nothing, and the voter set of \<open>GrandpaFinality\<close> itself is never updated.\<close>

theorem authority_change_reaches_client_only:
  assumes "voter_set_laws X" and "handle_authority_set_change X as sid gf = (r, gf')"
  shows "gf_voter_set gf' = gf_voter_set gf \<and>
    (if total_of as = 0 \<or> 2 ^ 64 \<le> total_of as
     then r = Err (GvAuthoritySetError ''Failed to create new voter set'') \<and> gf' = gf
     else r = Ok () \<and> (case gf_verification_client gf of
         Foreign _ \<Rightarrow> gf' = gf
       | Substrate nd \<Rightarrow> \<exists>vs. gf_verification_client gf' = Substrate (nd\<lparr>nd_voter_set := vs\<rparr>) \<and> voter_set_of X as vs))"
proof (cases "vs_new X as")
  case None
  then show ?thesis using assms(2) voter_set_laws_None [OF assms(1), of as]
    by (simp add: handle_authority_set_change_def)
next
  case (Some vs)
  then show ?thesis using assms(2) voter_set_laws_Some [OF assms(1) Some]
    by (auto simp: handle_authority_set_change_def handle_authority_set_update_def split: dyn_client.splits)
qed

theorem authority_change_reaches_client_only_witness:
  "let gf = \<lparr>gf_config = sample_cfg, gf_verification_client = (Substrate (sample_node 1 3) :: (authority_list, unit) dyn_client),
         gf_voter_set = sample_authorities\<rparr>;
       gf' = snd (handle_authority_set_change list_externs [([7], 5)] 1 gf)
   in gf_voter_set gf' = sample_authorities \<and>
     (\<exists>vs. gf_verification_client gf' = Substrate ((sample_node 1 3)\<lparr>nd_voter_set := vs\<rparr>) \<and>
        voter_set_of list_externs [([7], 5)] vs)"
  using authority_change_reaches_client_only [OF list_externs_laws prod.collapse [symmetric], of "[([7], 5)]" 1
      "\<lparr>gf_config = sample_cfg, gf_verification_client = (Substrate (sample_node 1 3) :: (authority_list, unit) dyn_client),
         gf_voter_set = sample_authorities\<rparr>"]
  by (simp add: Let_def)



end
