(* ===== verification/Proof_Generator.thy ===== *)
theory Proof_Generator
  imports Protocol_Types
begin

text \<open>
  Proof generation (\<open>src/proof/generator.rs\<close>): the configuration, the Merkle and the BLS generator with
  every early return, and the splitting of the state data into zero-padded 32-byte leaves. Hashing the
  leaves up to a root (\<open>rs_merkle\<close>), JSON encoding (\<open>serde_json\<close>) and \<open>hex::encode\<close> are parameters.
  The locale \<open>proof_generator\<close> is the contract of the trait \<open>ProofGenerator\<close>; both generators keep it, and so
  does the trait object \<open>dyn_proof_generator\<close> over them, which the observer holds.
\<close>

section \<open>Data\<close>

text \<open>Constructors of \<open>frost_protocol::state::proof::ProofType\<close> that the source names.\<close>

datatype proof_type = PtBasic | PtMerkle | PtSignature | PtCustom string

datatype state_error = Internal string

record state_root =
  sr_block_ref :: block_ref
  sr_root_hash :: h256
  sr_metadata :: "json option"

record transition_metadata =
  tm_timestamp :: u64
  tm_version :: u32
  tm_proof_type :: proof_type
  tm_chain_specific :: "json option"

record state_transition =
  tr_chain_id :: chain_id
  tr_block_height :: u64
  tr_pre_state :: state_root
  tr_post_state :: state_root
  tr_proof :: "bytes option"
  tr_metadata :: transition_metadata

text \<open>Points of \<open>SystemTime\<close> are nanoseconds since the Unix epoch.\<close>

record proof_data =
  pd_proof_type :: proof_type
  pd_data :: bytes
  pd_metadata :: "json option"
  pd_generated_at :: nat
  pd_expires_at :: "nat option"
  pd_version :: u32

record state_proof =
  proof_transition :: state_transition
  proof_content :: proof_data

text \<open>\<open>StateProof::proof_type\<close> of \<open>frost_protocol\<close> reads the proof data.\<close>

definition type_of_proof :: "state_proof \<Rightarrow> proof_type" where
  "type_of_proof p = pd_proof_type (proof_content p)"

record generation_config =
  gc_proof_type :: proof_type
  gc_max_proof_size :: u32
  gc_proof_ttl :: u64

definition generation_config_default :: generation_config where
  "generation_config_default = \<lparr>gc_proof_type = PtCustom ''Merkle'',
     gc_max_proof_size = 1024 * 1024, gc_proof_ttl = 3600 * 24\<rparr>"

text \<open>
  The library functions: the root of a Merkle tree over leaf hashes, the JSON encoding of the proof
  data, the hexadecimal form of bytes.
\<close>

record proof_externs =
  merkle_root :: "bytes list \<Rightarrow> bytes option"
  json_to_vec :: "proof_data \<Rightarrow> (bytes, string) res"
  hex_encode :: "bytes \<Rightarrow> string"

section \<open>Leaves\<close>

text \<open>\<open>slice.chunks(32)\<close>, each copied into a zeroed \<open>[u8; 32]\<close>.\<close>

function chunks32 :: "bytes \<Rightarrow> bytes list" where
  "chunks32 xs = (if xs = [] then [] else take 32 xs # chunks32 (drop 32 xs))"
  by pat_completeness auto
termination by (relation "measure length") auto

declare chunks32.simps [simp del]

definition pad32 :: "bytes \<Rightarrow> bytes" where
  "pad32 chunk = chunk @ replicate (32 - length chunk) 0"

definition merkle_leaves :: "bytes \<Rightarrow> bytes list" where
  "merkle_leaves xs = map pad32 (chunks32 xs)"

section \<open>Generators\<close>

text \<open>\<open>SystemTime + Duration\<close>: the seconds are an \<open>i64\<close>, an overflow panics.\<close>

definition time_add_secs :: "nat \<Rightarrow> u64 \<Rightarrow> (nat, 'e) res" where
  "time_add_secs t s = (if t div 10 ^ 9 + unat s < 2 ^ 63 then Ok (t + unat s * 10 ^ 9)
     else Panic ''overflow when adding duration to instant'')"

text \<open>A decimal number as \<open>{}\<close> prints it.\<close>

fun show_nat :: "nat \<Rightarrow> string" where
  "show_nat n = (if n < 10 then [char_of (48 + n)] else show_nat (n div 10) @ [char_of (48 + n mod 10)])"

declare show_nat.simps [simp del]

text \<open>The two header lookups of a generator: \<open>which\<close> is "source" or "target", \<open>Which\<close> its capitalised form.\<close>

definition block_header :: "client \<Rightarrow> string \<Rightarrow> string \<Rightarrow> h256 \<Rightarrow> (header, state_error) res" where
  "block_header c which Which h = and_then
     (map_err (\<lambda>e. Internal (''Failed to get '' @ which @ '' header: '' @ e)) (cl_header c h))
     (ok_or (Internal (Which @ '' block not found'')))"

definition block_json :: "proof_externs \<Rightarrow> header \<Rightarrow> json" where
  "block_json PX h = JObj [(''number'', JInt (uint (hd_number h))),
     (''hash'', JStr (hex_encode PX (h256_bytes (hd_hash h)))),
     (''parent_hash'', JStr (hex_encode PX (h256_bytes (hd_parent_hash h))))]"

text \<open>The size check that ends both generators; \<open>len() as u32\<close> truncates.\<close>

definition checked_proof ::
    "proof_externs \<Rightarrow> generation_config \<Rightarrow> state_transition \<Rightarrow> proof_data \<Rightarrow> (state_proof, state_error) res" where
  "checked_proof PX cfg t d =
     and_then (map_err (\<lambda>e. Internal (''Failed to encode proof: '' @ e)) (json_to_vec PX d)) (\<lambda>encoded.
     if gc_max_proof_size cfg < (of_nat (length encoded) :: u32)
     then Err (Internal (''Proof size '' @ show_nat (length encoded) @ '' exceeds maximum allowed size '' @
            show_nat (unat (gc_max_proof_size cfg))))
     else Ok \<lparr>proof_transition = t, proof_content = d\<rparr>)"

text \<open>The clock is read twice, for \<open>generated_at\<close> and for \<open>expires_at\<close>.\<close>

definition merkle_generate ::
    "proof_externs \<Rightarrow> client \<Rightarrow> nat \<Rightarrow> nat \<Rightarrow> state_transition \<Rightarrow> generation_config \<Rightarrow>
     (state_proof, state_error) res" where
  "merkle_generate PX c now1 now2 t cfg =
     (if gc_proof_type cfg \<noteq> PtCustom ''Merkle'' then Err (Internal ''Unsupported proof type'') else
      and_then (block_header c ''source'' ''Source'' (br_hash (sr_block_ref (tr_pre_state t)))) (\<lambda>source.
      and_then (block_header c ''target'' ''Target'' (br_hash (sr_block_ref (tr_post_state t)))) (\<lambda>target.
      let data = (case tr_proof t of None \<Rightarrow> [] | Some bs \<Rightarrow> bs) in
      and_then (ok_or (Internal ''Failed to get Merkle root'') (merkle_root PX (merkle_leaves data))) (\<lambda>root.
      and_then (time_add_secs now2 (gc_proof_ttl cfg)) (\<lambda>expires.
      checked_proof PX cfg t \<lparr>pd_proof_type = PtCustom ''Merkle'', pd_data = root,
        pd_metadata = Some (JObj [(''source_block'', block_json PX source),
          (''target_block'', block_json PX target), (''merkle_root'', JStr (hex_encode PX root))]),
        pd_generated_at = now1, pd_expires_at = Some expires, pd_version = 1\<rparr>)))))"

definition merkle_supported_types :: "proof_type list" where
  "merkle_supported_types = [PtCustom ''Merkle'']"

definition bls_generate ::
    "proof_externs \<Rightarrow> client \<Rightarrow> authority_list \<Rightarrow> nat \<Rightarrow> nat \<Rightarrow> state_transition \<Rightarrow> generation_config \<Rightarrow>
     (state_proof, state_error) res" where
  "bls_generate PX c auths now1 now2 t cfg =
     (if gc_proof_type cfg \<noteq> PtSignature then Err (Internal ''Unsupported proof type'') else
      and_then (block_header c ''source'' ''Source'' (br_hash (sr_block_ref (tr_pre_state t)))) (\<lambda>source.
      and_then (block_header c ''target'' ''Target'' (br_hash (sr_block_ref (tr_post_state t)))) (\<lambda>target.
      let signature_data = h256_bytes (br_hash (sr_block_ref (tr_pre_state t))) @
            h256_bytes (br_hash (sr_block_ref (tr_post_state t)));
          bls_signature = replicate 96 0 in
      and_then (time_add_secs now2 (gc_proof_ttl cfg)) (\<lambda>expires.
      checked_proof PX cfg t \<lparr>pd_proof_type = PtSignature, pd_data = bls_signature,
        pd_metadata = Some (JObj [
          (''validator_set'', JArr (map (\<lambda>(i, w). JObj [(''id'', JStr (hex_encode PX i)), (''weight'', JInt (uint w))]) auths)),
          (''source_block'', block_json PX source), (''target_block'', block_json PX target)]),
        pd_generated_at = now1, pd_expires_at = Some expires, pd_version = 1\<rparr>))))"

definition bls_supported_types :: "proof_type list" where
  "bls_supported_types = [PtSignature]"

section \<open>Lemmas: leaves\<close>

lemma chunks32_Nil [simp]: "chunks32 [] = []"
  by (simp add: chunks32.simps)

lemma chunks32_step: "xs \<noteq> [] \<Longrightarrow> chunks32 xs = take 32 xs # chunks32 (drop 32 xs)"
  by (simp add: chunks32.simps [of xs])

lemma length_pad32 [simp]: "length c \<le> 32 \<Longrightarrow> length (pad32 c) = 32"
  by (simp add: pad32_def)

lemma pad32_full [simp]: "length c = 32 \<Longrightarrow> pad32 c = c"
  by (simp add: pad32_def)

lemma merkle_leaves_Nil [simp]: "merkle_leaves [] = []"
  by (simp add: merkle_leaves_def)

lemma merkle_leaves_step: "xs \<noteq> [] \<Longrightarrow> merkle_leaves xs = pad32 (take 32 xs) # merkle_leaves (drop 32 xs)"
  by (simp add: merkle_leaves_def chunks32_step)

lemma merkle_leaves_empty_iff: "merkle_leaves xs = [] \<longleftrightarrow> xs = []"
  by (cases "xs = []") (simp_all add: merkle_leaves_step)

lemma merkle_leaf_length: "l \<in> set (merkle_leaves xs) \<Longrightarrow> length l = 32"
proof (induction xs rule: chunks32.induct)
  case (1 xs)
  then show ?case by (cases "xs = []") (auto simp: merkle_leaves_step)
qed

lemma merkle_leaves_count: "length (merkle_leaves xs) = (length xs + 31) div 32"
proof (induction xs rule: chunks32.induct)
  case (1 xs)
  show ?case
  proof (cases "xs = []")
    case False
    then have "length (merkle_leaves xs) = Suc ((length xs - 32 + 31) div 32)"
      using 1 by (simp add: merkle_leaves_step)
    moreover have "0 < length xs" using False by simp
    ultimately show ?thesis by (cases "length xs \<le> 32") (auto simp: div_if)
  qed simp
qed

lemma merkle_leaves_take: "take (length xs) (concat (merkle_leaves xs)) = xs"
proof (induction xs rule: chunks32.induct)
  case (1 xs)
  show ?case
  proof (cases "xs = []")
    case False
    show ?thesis
    proof (cases "32 \<le> length xs")
      case True
      then have "take (length xs - 32) (concat (merkle_leaves (drop 32 xs))) = drop 32 xs"
        using 1 False by simp
      with False True show ?thesis by (simp add: merkle_leaves_step)
    next
      case less: False
      with False show ?thesis by (simp add: merkle_leaves_step pad32_def)
    qed
  qed simp
qed

text \<open>Zeros that fill up the last chunk leave no trace in the leaves.\<close>

lemma merkle_leaves_padding:
  "k \<le> 31 \<Longrightarrow> length xs mod 32 + k \<le> 32 \<Longrightarrow> length xs mod 32 \<noteq> 0 \<Longrightarrow>
   merkle_leaves (xs @ replicate k 0) = merkle_leaves xs"
proof (induction xs rule: chunks32.induct)
  case (1 xs)
  then have ne: "xs \<noteq> []" by auto
  show ?case
  proof (cases "length xs < 32")
    case True
    then have "pad32 (take 32 (xs @ replicate k 0)) = pad32 (take 32 xs)"
      using 1(3) by (simp add: pad32_def replicate_add [symmetric])
    moreover have "drop 32 (xs @ replicate k 0) = []" using True 1(3) by simp
    ultimately show ?thesis using True ne by (simp add: merkle_leaves_step)
  next
    case False
    then have "length (drop 32 xs) mod 32 = length xs mod 32" by (simp add: mod_if)
    with 1 ne False show ?thesis by (simp add: merkle_leaves_step)
  qed
qed

section \<open>Lemmas: generators\<close>

lemma block_header_Ok: "block_header c a b h = Ok hdr \<longleftrightarrow> cl_header c h = Ok (Some hdr)"
  by (auto simp: block_header_def res_simps)

lemma checked_proof_Ok:
  "checked_proof PX cfg t d = Ok p \<longleftrightarrow>
   (\<exists>bs. json_to_vec PX d = Ok bs \<and> length bs mod 2 ^ 32 \<le> unat (gc_max_proof_size cfg) \<and>
      p = \<lparr>proof_transition = t, proof_content = d\<rparr>)"
  by (cases "json_to_vec PX d") (auto simp: checked_proof_def word_less_nat_alt unat_of_nat)

lemma time_add_secs_Ok:
  "time_add_secs t s = Ok e \<longleftrightarrow> t div 10 ^ 9 + unat s < 2 ^ 63 \<and> e = t + unat s * 10 ^ 9"
  by (auto simp: time_add_secs_def)

section \<open>The interface of generators\<close>

text \<open>
  The contract: a generator answers a proof only for a configured type that it supports; the proof is
  of that type, carries the transition, and its encoding passed the size check.
\<close>

locale proof_generator =
  fixes generate :: "state_transition \<Rightarrow> generation_config \<Rightarrow> (state_proof, state_error) res"
    and supported :: "proof_type list"
    and encoding :: "proof_data \<Rightarrow> (bytes, string) res"
  assumes unsupported: "gc_proof_type cfg \<notin> set supported \<Longrightarrow> generate t cfg = Err (Internal ''Unsupported proof type'')"
    and of_type: "generate t cfg = Ok p \<Longrightarrow> type_of_proof p = gc_proof_type cfg"
    and of_transition: "generate t cfg = Ok p \<Longrightarrow> proof_transition p = t"
    and size: "generate t cfg = Ok p \<Longrightarrow>
      \<exists>bs. encoding (proof_content p) = Ok bs \<and> length bs mod 2 ^ 32 \<le> unat (gc_max_proof_size cfg)"
begin

lemma generated_supported: "generate t cfg = Ok p \<Longrightarrow> type_of_proof p \<in> set supported"
  using unsupported of_type by force

lemma generated_fits:
  assumes "generate t cfg = Ok p" and "\<And>bs. encoding (proof_content p) = Ok bs \<Longrightarrow> length bs < 2 ^ 32"
  shows "\<exists>bs. encoding (proof_content p) = Ok bs \<and> length bs \<le> unat (gc_max_proof_size cfg)"
  using size [OF assms(1)] assms(2) by force

end

interpretation merkle: proof_generator "merkle_generate PX c now1 now2" merkle_supported_types "json_to_vec PX"
  for PX c now1 now2
  by unfold_locales
    (auto simp: merkle_generate_def merkle_supported_types_def type_of_proof_def and_then_eq_Ok Let_def
      checked_proof_Ok split: if_splits)

interpretation bls: proof_generator "bls_generate PX c auths now1 now2" bls_supported_types "json_to_vec PX"
  for PX c auths now1 now2
  by unfold_locales
    (auto simp: bls_generate_def bls_supported_types_def type_of_proof_def and_then_eq_Ok Let_def
      checked_proof_Ok split: if_splits)

section \<open>The generators as objects\<close>

text \<open>
  A generator holds a handle of the client, a function from the world to what the backend answers at that
  moment; the BLS generator also holds the authority list it was made with.
\<close>

record 'w merkle_proof_generator =
  mg_client :: "'w \<Rightarrow> client"

record 'w bls_proof_generator =
  bg_client :: "'w \<Rightarrow> client"
  bg_authority_set :: authority_list

definition merkle_generator_new :: "('w \<Rightarrow> client) \<Rightarrow> 'w merkle_proof_generator" where
  "merkle_generator_new c = \<lparr>mg_client = c\<rparr>"

definition bls_generator_new :: "('w \<Rightarrow> client) \<Rightarrow> authority_list \<Rightarrow> 'w bls_proof_generator" where
  "bls_generator_new c auths = \<lparr>bg_client = c, bg_authority_set = auths\<rparr>"

text \<open>\<open>dyn ProofGenerator\<close>: an object of one of the two types, called through the trait. \<open>clock\<close> gives the two
  readings of the system time during a call.\<close>

datatype 'w dyn_proof_generator =
    DynMerkle "'w merkle_proof_generator"
  | DynBls "'w bls_proof_generator"

definition dyn_generate_proof ::
    "proof_externs \<Rightarrow> ('w \<Rightarrow> nat \<times> nat) \<Rightarrow> 'w dyn_proof_generator \<Rightarrow> state_transition \<Rightarrow> generation_config \<Rightarrow> 'w \<Rightarrow>
     (state_proof, state_error) res" where
  "dyn_generate_proof PX clock g t cfg w = (case g of
     DynMerkle m \<Rightarrow> merkle_generate PX (mg_client m w) (fst (clock w)) (snd (clock w)) t cfg
   | DynBls b \<Rightarrow> bls_generate PX (bg_client b w) (bg_authority_set b) (fst (clock w)) (snd (clock w)) t cfg)"

definition dyn_supported_types :: "'w dyn_proof_generator \<Rightarrow> proof_type list" where
  "dyn_supported_types g = (case g of DynMerkle m \<Rightarrow> merkle_supported_types | DynBls b \<Rightarrow> bls_supported_types)"

interpretation dyn: proof_generator "\<lambda>t cfg. dyn_generate_proof PX clock g t cfg w" "dyn_supported_types g" "json_to_vec PX"
  for PX clock w and g :: "'w dyn_proof_generator"
proof
  fix t cfg p
  let ?gen = "dyn_generate_proof PX clock g t cfg w"
  show "?gen = Err (Internal ''Unsupported proof type'')" if "gc_proof_type cfg \<notin> set (dyn_supported_types g)"
    using that merkle.unsupported bls.unsupported
    by (cases g) (simp_all add: dyn_generate_proof_def dyn_supported_types_def)
  show "type_of_proof p = gc_proof_type cfg" if "?gen = Ok p"
    using that merkle.of_type bls.of_type by (cases g) (auto simp: dyn_generate_proof_def)
  show "proof_transition p = t" if "?gen = Ok p"
    using that merkle.of_transition bls.of_transition by (cases g) (auto simp: dyn_generate_proof_def)
  show "\<exists>bs. json_to_vec PX (proof_content p) = Ok bs \<and> length bs mod 2 ^ 32 \<le> unat (gc_max_proof_size cfg)"
    if "?gen = Ok p"
    using that merkle.size bls.size by (cases g) (auto simp: dyn_generate_proof_def)
qed

section \<open>Properties\<close>

text \<open>\<open>MerkleTree::root\<close>: a tree without leaves has no root, every other tree has one.\<close>

definition merkle_root_laws :: "proof_externs \<Rightarrow> bool" where
  "merkle_root_laws PX \<longleftrightarrow> (\<forall>ls. merkle_root PX ls = None \<longleftrightarrow> ls = [])"

text \<open>A concrete library and a client that knows every block, for the witnesses.\<close>

definition sample_proof_externs :: proof_externs where
  "sample_proof_externs = \<lparr>merkle_root = (\<lambda>ls. case ls of [] \<Rightarrow> None | l # _ \<Rightarrow> Some l),
     json_to_vec = (\<lambda>d. Ok (pd_data d)), hex_encode = (\<lambda>bs. [])\<rparr>"

definition sample_proof_client :: client where
  "sample_proof_client = \<lparr>
     cl_header = (\<lambda>h. Ok (Some \<lparr>hd_number = 1, hd_hash = h, hd_parent_hash = 0, hd_state_root = 0\<rparr>)),
     cl_info = \<lparr>best_hash = 1, best_number = 1, finalized_number = 1\<rparr>,
     cl_justifications = (\<lambda>h. Ok None), cl_grandpa_authorities = (\<lambda>h. Ok [])\<rparr>"

definition sample_transition :: "bytes option \<Rightarrow> state_transition" where
  "sample_transition bs =
     (let root = \<lparr>sr_block_ref = \<lparr>br_chain_id = ChainId ''x'', br_number = 1, br_hash = 1\<rparr>, sr_root_hash = 0,
            sr_metadata = None\<rparr>
      in \<lparr>tr_chain_id = ChainId ''x'', tr_block_height = 1, tr_pre_state = root, tr_post_state = root,
          tr_proof = bs, tr_metadata = \<lparr>tm_timestamp = 0, tm_version = 0, tm_proof_type = PtBasic,
            tm_chain_specific = None\<rparr>\<rparr>)"

lemma sample_merkle_laws: "merkle_root_laws sample_proof_externs"
  by (simp add: merkle_root_laws_def sample_proof_externs_def split: list.splits)

lemma sample_root: "xs \<noteq> [] \<Longrightarrow> merkle_root sample_proof_externs (merkle_leaves xs) = Some (pad32 (take 32 xs))"
  by (simp add: sample_proof_externs_def merkle_leaves_step)

lemma sample_merkle_ok:
  "xs \<noteq> [] \<Longrightarrow> is_ok (merkle_generate sample_proof_externs sample_proof_client 0 0 (sample_transition (Some xs))
     generation_config_default)"
  unfolding merkle_generate_def Let_def
  by (simp add: sample_root block_header_def sample_proof_client_def sample_transition_def Let_def
      generation_config_default_def time_add_secs_def)
    (simp add: checked_proof_def sample_proof_externs_def word_less_nat_alt)

text \<open>C34. A Merkle proof is generated exactly from a configured Merkle type, two known blocks, non-empty
  transition data, an expiry that fits the clock and an encoding that passes the size check; its data is
  the root over the padded leaves of the transition data, and it expires the configured time after the
  second reading of the clock.\<close>

theorem merkle_proof_generated:
  assumes "merkle_root_laws PX"
  shows "merkle_generate PX c now1 now2 t cfg = Ok p \<longleftrightarrow>
    (\<exists>source target data root bs.
      gc_proof_type cfg = PtCustom ''Merkle'' \<and>
      cl_header c (br_hash (sr_block_ref (tr_pre_state t))) = Ok (Some source) \<and>
      cl_header c (br_hash (sr_block_ref (tr_post_state t))) = Ok (Some target) \<and>
      tr_proof t = Some data \<and> data \<noteq> [] \<and> merkle_root PX (merkle_leaves data) = Some root \<and>
      now2 div 10 ^ 9 + unat (gc_proof_ttl cfg) < 2 ^ 63 \<and>
      p = \<lparr>proof_transition = t, proof_content = \<lparr>pd_proof_type = PtCustom ''Merkle'', pd_data = root,
        pd_metadata = Some (JObj [(''source_block'', block_json PX source),
          (''target_block'', block_json PX target), (''merkle_root'', JStr (hex_encode PX root))]),
        pd_generated_at = now1, pd_expires_at = Some (now2 + unat (gc_proof_ttl cfg) * 10 ^ 9), pd_version = 1\<rparr>\<rparr> \<and>
      json_to_vec PX (proof_content p) = Ok bs \<and> length bs mod 2 ^ 32 \<le> unat (gc_max_proof_size cfg))"
proof -
  have none: "merkle_root PX [] = None" using assms by (simp add: merkle_root_laws_def)
  show ?thesis
    by (cases "tr_proof t")
      (auto simp: merkle_generate_def and_then_eq_Ok Let_def block_header_Ok checked_proof_Ok time_add_secs_Ok none)
qed

theorem merkle_proof_generated_witness:
  "\<exists>source data. cl_header sample_proof_client 1 = Ok (Some source) \<and>
     tr_proof (sample_transition (Some [1, 2])) = Some data \<and> data \<noteq> []"
proof -
  obtain p where "merkle_generate sample_proof_externs sample_proof_client 0 0 (sample_transition (Some [1, 2]))
      generation_config_default = Ok p"
    using sample_merkle_ok [of "[1, 2]"] by (auto simp: is_ok_iff)
  then show ?thesis
    by (subst (asm) merkle_proof_generated [OF sample_merkle_laws]) (auto simp: sample_transition_def Let_def)
qed

text \<open>Without transition data there is no Merkle proof: a transition whose proof is absent or empty
  is refused with "Failed to get Merkle root", whenever both blocks are known.\<close>

lemma merkle_needs_transition_data:
  assumes "merkle_root_laws PX" and "tr_proof t = None \<or> tr_proof t = Some []"
    and "gc_proof_type cfg = PtCustom ''Merkle''"
    and "cl_header c (br_hash (sr_block_ref (tr_pre_state t))) = Ok (Some source)"
    and "cl_header c (br_hash (sr_block_ref (tr_post_state t))) = Ok (Some target)"
  shows "merkle_generate PX c now1 now2 t cfg = Err (Internal ''Failed to get Merkle root'')"
proof -
  have "merkle_root PX [] = None" using assms(1) by (simp add: merkle_root_laws_def)
  then show ?thesis using assms(2-5)
    by (auto simp: merkle_generate_def Let_def block_header_def)
qed

lemma merkle_needs_transition_data_witness:
  "merkle_generate sample_proof_externs sample_proof_client 0 0 (sample_transition None) generation_config_default =
     Err (Internal ''Failed to get Merkle root'')"
  by (rule merkle_needs_transition_data [OF sample_merkle_laws])
    (simp_all add: sample_transition_def generation_config_default_def sample_proof_client_def Let_def)

text \<open>C35. Splitting into leaves loses nothing but the length: the leaves are 32 bytes each, as many as
  the data has started chunks, and the data is their concatenation cut at its length.\<close>

theorem merkle_leaves_roundtrip:
  "(\<forall>l \<in> set (merkle_leaves xs). length l = 32) \<and> length (merkle_leaves xs) = (length xs + 31) div 32 \<and>
   take (length xs) (concat (merkle_leaves xs)) = xs"
  using merkle_leaf_length merkle_leaves_count merkle_leaves_take by blast

theorem merkle_leaves_roundtrip_witness:
  "length (merkle_leaves (replicate 33 7)) = 2 \<and> take 33 (concat (merkle_leaves (replicate 33 7))) = replicate 33 7"
  using merkle_leaves_roundtrip [of "replicate 33 7"] by simp



text \<open>C40. A generated proof respects the size limit if its encoding is shorter than \<open>2 ^ 32\<close> bytes; the
  comparison sees the length modulo \<open>2 ^ 32\<close>, for both generators.\<close>

theorem generated_proof_size:
  assumes "merkle_generate PX c now1 now2 t cfg = Ok p \<or> bls_generate PX c auths now1 now2 t cfg = Ok p"
  shows "\<exists>bs. json_to_vec PX (proof_content p) = Ok bs \<and> length bs mod 2 ^ 32 \<le> unat (gc_max_proof_size cfg) \<and>
    (length bs < 2 ^ 32 \<longrightarrow> length bs \<le> unat (gc_max_proof_size cfg))"
proof -
  obtain bs where "json_to_vec PX (proof_content p) = Ok bs" "length bs mod 2 ^ 32 \<le> unat (gc_max_proof_size cfg)"
    using assms merkle.size [of PX c now1 now2 t cfg p] bls.size [of PX c auths now1 now2 t cfg p] by blast
  then show ?thesis by (intro exI [of _ bs]) (auto dest: mod_less)
qed

lemma sample_bls_ok:
  "is_ok (bls_generate sample_proof_externs sample_proof_client [] 0 0 (sample_transition None)
     (generation_config_default\<lparr>gc_proof_type := PtSignature\<rparr>))"
  unfolding bls_generate_def Let_def
  by (simp add: block_header_def sample_proof_client_def sample_transition_def Let_def
      generation_config_default_def time_add_secs_def checked_proof_def sample_proof_externs_def word_less_nat_alt)

theorem generated_proof_size_witness:
  "\<exists>p bs. bls_generate sample_proof_externs sample_proof_client [] 0 0 (sample_transition None)
     (generation_config_default\<lparr>gc_proof_type := PtSignature\<rparr>) = Ok p \<and>
     json_to_vec sample_proof_externs (proof_content p) = Ok bs \<and> length bs mod 2 ^ 32 \<le> 1048576"
proof -
  obtain p where p: "bls_generate sample_proof_externs sample_proof_client [] 0 0 (sample_transition None)
     (generation_config_default\<lparr>gc_proof_type := PtSignature\<rparr>) = Ok p"
    using sample_bls_ok by (auto simp: is_ok_iff)
  then have d: "merkle_generate sample_proof_externs sample_proof_client 0 0 (sample_transition None)
      (generation_config_default\<lparr>gc_proof_type := PtSignature\<rparr>) = Ok p \<or>
    bls_generate sample_proof_externs sample_proof_client [] 0 0 (sample_transition None)
      (generation_config_default\<lparr>gc_proof_type := PtSignature\<rparr>) = Ok p" ..
  from generated_proof_size [OF d] p show ?thesis by (auto simp: generation_config_default_def)
qed

text \<open>The BLS signature is a placeholder: every generated signature proof carries 96 zero bytes,
  whatever the transition and the authorities are.\<close>

lemma bls_signature_placeholder:
  assumes "bls_generate PX c auths now1 now2 t cfg = Ok p"
  shows "type_of_proof p = PtSignature \<and> proof_transition p = t \<and> pd_data (proof_content p) = replicate 96 0"
proof -
  have "pd_data (proof_content p) = replicate 96 0"
    using assms by (auto simp: bls_generate_def and_then_eq_Ok Let_def checked_proof_Ok split: if_splits)
  then show ?thesis
    using bls.generated_supported [OF assms] bls.of_transition [OF assms] by (simp add: bls_supported_types_def)
qed

lemma bls_signature_placeholder_witness:
  "\<exists>p. bls_generate sample_proof_externs sample_proof_client [] 0 0 (sample_transition None)
     (generation_config_default\<lparr>gc_proof_type := PtSignature\<rparr>) = Ok p \<and> pd_data (proof_content p) = replicate 96 0"
proof -
  obtain p where p: "bls_generate sample_proof_externs sample_proof_client [] 0 0 (sample_transition None)
     (generation_config_default\<lparr>gc_proof_type := PtSignature\<rparr>) = Ok p"
    using sample_bls_ok by (auto simp: is_ok_iff)
  with bls_signature_placeholder [OF this] show ?thesis by blast
qed

end
