(* ===== verification/Wrapper_Types.thy ===== *)
theory Wrapper_Types
  imports Proof_Generator
begin

text \<open>
  The wrapper types of \<open>src/wrapper_types.rs\<close>: the state transition that the observer builds for a
  matched target, and the newtypes around proofs and messages. Names are byte strings; their text in the
  metadata is \<open>String::from_utf8_lossy\<close>, modelled with the decoder's treatment of broken sequences: the
  longest started sequence becomes one replacement character. A Rust \<open>String\<close> is the list of its UTF-8
  bytes.
\<close>

section \<open>Lossy decoding\<close>

text \<open>A byte of the input, 0 past its end.\<close>

definition byte_at :: "bytes \<Rightarrow> nat \<Rightarrow> u8" where
  "byte_at xs i = (if i < length xs then xs ! i else 0)"

definition in_range :: "u8 \<Rightarrow> u8 \<Rightarrow> u8 \<Rightarrow> bool" where
  "in_range lo hi b \<longleftrightarrow> lo \<le> b \<and> b \<le> hi"

abbreviation continuation :: "u8 \<Rightarrow> bool" where
  "continuation b \<equiv> in_range 0x80 0xBF b"

text \<open>Admissible second bytes after the first byte of a three- or four-byte sequence.\<close>

definition second3 :: "u8 \<Rightarrow> u8 \<Rightarrow> bool" where
  "second3 b c \<longleftrightarrow> b = 0xE0 \<and> in_range 0xA0 0xBF c \<or> b = 0xED \<and> in_range 0x80 0x9F c \<or>
     (in_range 0xE1 0xEC b \<or> in_range 0xEE 0xEF b) \<and> continuation c"

definition second4 :: "u8 \<Rightarrow> u8 \<Rightarrow> bool" where
  "second4 b c \<longleftrightarrow> b = 0xF0 \<and> in_range 0x90 0xBF c \<or> in_range 0xF1 0xF3 b \<and> continuation c \<or>
     b = 0xF4 \<and> in_range 0x80 0x8F c"

text \<open>How many bytes the next chunk takes and whether it is a character.\<close>

definition utf8_next :: "bytes \<Rightarrow> nat \<times> bool" where
  "utf8_next xs =
     (let b = byte_at xs 0 in
      if b < 0x80 then (1, True)
      else if in_range 0xC2 0xDF b then
        (if continuation (byte_at xs 1) then (2, True) else (1, False))
      else if in_range 0xE0 0xEF b then
        (if \<not> second3 b (byte_at xs 1) then (1, False)
         else if continuation (byte_at xs 2) then (3, True) else (2, False))
      else if in_range 0xF0 0xF4 b then
        (if \<not> second4 b (byte_at xs 1) then (1, False)
         else if \<not> continuation (byte_at xs 2) then (2, False)
         else if continuation (byte_at xs 3) then (4, True) else (3, False))
      else (1, False))"

lemma utf8_next_pos: "0 < fst (utf8_next xs)"
  by (simp add: utf8_next_def Let_def)

definition replacement :: bytes where
  "replacement = [0xEF, 0xBF, 0xBD]"

function utf8_lossy :: "bytes \<Rightarrow> bytes" where
  "utf8_lossy xs = (if xs = [] then [] else
     (if snd (utf8_next xs) then take (fst (utf8_next xs)) xs else replacement) @
     utf8_lossy (drop (fst (utf8_next xs)) xs))"
  by pat_completeness auto
termination
  by (relation "measure length") (auto simp: utf8_next_pos)

declare utf8_lossy.simps [simp del]

definition from_utf8_lossy :: "bytes \<Rightarrow> string" where
  "from_utf8_lossy xs = map (char_of \<circ> unat) (utf8_lossy xs)"

section \<open>Wrappers\<close>

datatype ssmp_state_transition = SSMPStateTransition state_transition

text \<open>The wall clock in nanoseconds since the Unix epoch, negative before it.\<close>

definition ssmp_new ::
    "int \<Rightarrow> chain_id \<Rightarrow> u64 \<Rightarrow> state_root \<Rightarrow> state_root \<Rightarrow> bytes \<Rightarrow> bytes \<Rightarrow> bytes \<Rightarrow> ssmp_state_transition" where
  "ssmp_new now chain block_height pre_state post_state module_name function_name target_chain =
     (let metadata = \<lparr>tm_timestamp = (if now < 0 then 0 else of_int (now div 10 ^ 9)),
            tm_version = 0, tm_proof_type = PtBasic,
            tm_chain_specific = Some (JObj [
              (''module_name'', JStr (from_utf8_lossy module_name)),
              (''function_name'', JStr (from_utf8_lossy function_name)),
              (''target_chain'', JStr (from_utf8_lossy target_chain))])\<rparr>
      in SSMPStateTransition \<lparr>tr_chain_id = chain, tr_block_height = block_height,
            tr_pre_state = pre_state, tr_post_state = post_state, tr_proof = None, tr_metadata = metadata\<rparr>)"

definition ssmp_into :: "ssmp_state_transition \<Rightarrow> state_transition" where
  "ssmp_into s = (case s of SSMPStateTransition t \<Rightarrow> t)"

definition ssmp_as_ref :: "ssmp_state_transition \<Rightarrow> state_transition" where
  "ssmp_as_ref s = (case s of SSMPStateTransition t \<Rightarrow> t)"

datatype substrate_state_proof = SubstrateStateProof state_proof

definition substrate_proof_from :: "state_proof \<Rightarrow> substrate_state_proof" where
  "substrate_proof_from p = SubstrateStateProof p"

definition substrate_proof_as_ref :: "substrate_state_proof \<Rightarrow> state_proof" where
  "substrate_proof_as_ref s = (case s of SubstrateStateProof p \<Rightarrow> p)"

text \<open>\<open>frost_protocol::message::FrostMessage\<close> as \<open>FrostMessage::new\<close> fills it.\<close>

datatype message_type = MtStateTransition

record frost_message =
  fm_message_type :: message_type
  fm_payload :: bytes
  fm_source :: string
  fm_target :: "string option"

datatype substrate_frost_message = SubstrateFrostMessage frost_message

definition substrate_message_from :: "frost_message \<Rightarrow> substrate_frost_message" where
  "substrate_message_from m = SubstrateFrostMessage m"

definition substrate_message_as_ref :: "substrate_frost_message \<Rightarrow> frost_message" where
  "substrate_message_as_ref s = (case s of SubstrateFrostMessage m \<Rightarrow> m)"

section \<open>Lemmas\<close>

lemma utf8_lossy_Nil [simp]: "utf8_lossy [] = []"
  by (simp add: utf8_lossy.simps)

lemma utf8_lossy_step:
  "xs \<noteq> [] \<Longrightarrow> utf8_lossy xs =
     (if snd (utf8_next xs) then take (fst (utf8_next xs)) xs else replacement) @
     utf8_lossy (drop (fst (utf8_next xs)) xs)"
  by (simp add: utf8_lossy.simps [of xs])

lemma byte_at_0 [simp]: "\<not> continuation 0"
  by (simp add: in_range_def)

lemma second_0 [simp]: "\<not> second3 b 0" "\<not> second4 b 0"
  by (simp_all add: second3_def second4_def in_range_def)

lemma byte_at_beyond: "length xs \<le> i \<Longrightarrow> byte_at xs i = 0"
  by (simp add: byte_at_def)

text \<open>A character lies inside the input and is recognised whatever follows it.\<close>

lemma utf8_char_length:
  assumes "snd (utf8_next xs)" and "xs \<noteq> []"
  shows "fst (utf8_next xs) \<le> length xs"
proof (rule ccontr)
  assume short: "\<not> fst (utf8_next xs) \<le> length xs"
  have "byte_at xs (fst (utf8_next xs) - 1) = 0 \<Longrightarrow> fst (utf8_next xs) = 1"
    using assms(1) by (auto simp: utf8_next_def Let_def split: if_splits)
  moreover have "byte_at xs (fst (utf8_next xs) - 1) = 0" using short by (intro byte_at_beyond) simp
  ultimately show False using short assms(2) by (cases xs) simp_all
qed

lemma byte_at_take: "i < n \<Longrightarrow> n \<le> length xs \<Longrightarrow> byte_at (take n xs @ ys) i = byte_at xs i"
  by (simp add: byte_at_def nth_append)

lemma utf8_next_take:
  assumes "utf8_next xs = (n, True)" and "n \<le> length xs"
  shows "utf8_next (take n xs @ ys) = (n, True)"
proof -
  have pos: "0 < n" using utf8_next_pos [of xs] assms(1) by simp
  have b: "\<And>i. i < n \<Longrightarrow> byte_at (take n xs @ ys) i = byte_at xs i"
    using assms(2) by (rule byte_at_take [rotated])
  show ?thesis
    using assms(1) b [of 0] b [of 1] b [of 2] b [of 3] pos
    by (auto simp: utf8_next_def Let_def split: if_splits)
qed

lemma utf8_next_replacement: "utf8_next (replacement @ ys) = (3, True)"
  by (simp add: utf8_next_def replacement_def Let_def byte_at_def in_range_def second3_def nth_Cons'
      word_less_nat_alt word_le_nat_alt)

lemma utf8_lossy_char:
  "utf8_next (ch @ ys) = (length ch, True) \<Longrightarrow> utf8_lossy (ch @ ys) = ch @ utf8_lossy ys"
  using utf8_next_pos [of "ch @ ys"] by (subst utf8_lossy_step) auto

lemma utf8_lossy_idem: "utf8_lossy (utf8_lossy xs) = utf8_lossy xs"
proof (induction xs rule: utf8_lossy.induct)
  case (1 xs)
  show ?case
  proof (cases "xs = []")
    case False
    obtain n ok where n: "utf8_next xs = (n, ok)" by (cases "utf8_next xs")
    define ch where "ch = (if ok then take n xs else replacement)"
    have len: "ok \<Longrightarrow> n \<le> length xs" using utf8_char_length [OF _ False] n by simp
    have "utf8_next (ch @ ys) = (length ch, True)" for ys
      using utf8_next_replacement [of ys] utf8_next_take [of xs n ys] n len
      by (auto simp: ch_def replacement_def)
    note char = utf8_lossy_char [OF this]
    have "utf8_lossy xs = ch @ utf8_lossy (drop n xs)"
      using False n by (subst utf8_lossy_step) (simp_all add: ch_def)
    then show ?thesis using 1 False n char by simp
  qed simp
qed

lemma utf8_lossy_ascii: "\<forall>b \<in> set xs. b < 0x80 \<Longrightarrow> utf8_lossy xs = xs"
proof (induction xs)
  case (Cons b xs)
  then have "utf8_next (b # xs) = (1, True)" by (simp add: utf8_next_def byte_at_def)
  with Cons show ?case by (subst utf8_lossy_step) simp_all
qed simp

section \<open>Properties\<close>

text \<open>The names in the metadata of a transition are clean text: decoding the bytes of an ASCII name
  changes nothing, and decoding what was decoded once changes nothing, for every byte string.\<close>

lemma names_decode_cleanly:
  "utf8_lossy (utf8_lossy xs) = utf8_lossy xs \<and> ((\<forall>b \<in> set xs. b < 0x80) \<longrightarrow> utf8_lossy xs = xs)"
  using utf8_lossy_idem utf8_lossy_ascii by blast

lemma names_decode_cleanly_witness:
  "utf8_lossy [0x46, 0x72] = [0x46, 0x72] \<and> utf8_lossy (utf8_lossy [0xFF, 0x46]) = utf8_lossy [0xFF, 0x46]"
  using names_decode_cleanly [of "[0x46, 0x72]"] names_decode_cleanly [of "[0xFF, 0x46]"] by simp

end
