(* ===== verification/Routing.thy ===== *)
theory Routing
  imports Wrapper_Types
begin

text \<open>
  Message routing (\<open>src/routing/mod.rs\<close>): \<open>RouterAdapter\<close>, which puts a \<open>frost_protocol\<close> router behind a
  lock and forwards the four trait methods, and the mock network and router of \<open>src/tests.rs\<close>, the only
  router whose code is in the repository. \<open>EnhancedRouter\<close> is a parameter: its methods take and return
  its state. The locale \<open>message_router\<close> is what the observer relies on: a message that is routed with
  success is sent exactly once, a failed call sends nothing.
\<close>

section \<open>The adapter\<close>

record ('r, 'topo, 'st, 'm, 'e) inner_router =
  in_route_message :: "frost_message \<Rightarrow> 'r \<Rightarrow> ('st, 'e) res \<times> 'r"
  in_get_route :: "chain_id \<Rightarrow> chain_id \<Rightarrow> 'r \<Rightarrow> (chain_id list, 'e) res \<times> 'r"
  in_update_topology :: "'topo \<Rightarrow> 'r \<Rightarrow> (unit, 'e) res \<times> 'r"
  in_get_metrics :: "'r \<Rightarrow> ('m, 'e) res \<times> 'r"

datatype 'r router_adapter = RouterAdapter (adapter_inner: 'r)

definition adapter_new :: "'r \<Rightarrow> 'r router_adapter" where
  "adapter_new r = RouterAdapter r"

text \<open>Taking the lock, calling the inner router and releasing the lock.\<close>

definition with_inner :: "('r \<Rightarrow> 'a \<times> 'r) \<Rightarrow> 'r router_adapter \<Rightarrow> 'a \<times> 'r router_adapter" where
  "with_inner f a = (case f (adapter_inner a) of (x, r) \<Rightarrow> (x, RouterAdapter r))"

definition adapter_route_message ::
    "('r, 'topo, 'st, 'm, 'e) inner_router \<Rightarrow> frost_message \<Rightarrow> 'r router_adapter \<Rightarrow> ('st, 'e) res \<times> 'r router_adapter" where
  "adapter_route_message I m = with_inner (in_route_message I m)"

definition adapter_get_route ::
    "('r, 'topo, 'st, 'm, 'e) inner_router \<Rightarrow> chain_id \<Rightarrow> chain_id \<Rightarrow> 'r router_adapter \<Rightarrow>
     (chain_id list, 'e) res \<times> 'r router_adapter" where
  "adapter_get_route I a b = with_inner (in_get_route I a b)"

definition adapter_update_topology ::
    "('r, 'topo, 'st, 'm, 'e) inner_router \<Rightarrow> 'topo \<Rightarrow> 'r router_adapter \<Rightarrow> (unit, 'e) res \<times> 'r router_adapter" where
  "adapter_update_topology I t = with_inner (in_update_topology I t)"

definition adapter_get_metrics ::
    "('r, 'topo, 'st, 'm, 'e) inner_router \<Rightarrow> 'r router_adapter \<Rightarrow> ('m, 'e) res \<times> 'r router_adapter" where
  "adapter_get_metrics I = with_inner (in_get_metrics I)"

section \<open>The mock network and router\<close>

record peer_info =
  pi_address :: string
  pi_protocol_version :: string
  pi_supported_features :: "string list"
  pi_chain_ids :: "nat list"

record mock_network =
  mn_peers :: "string \<rightharpoonup> peer_info"
  mn_messages :: "frost_message list"
  mn_running :: bool

definition mock_network_default :: mock_network where
  "mock_network_default = \<lparr>mn_peers = Map.empty, mn_messages = [], mn_running = False\<rparr>"

definition mock_start :: "mock_network \<Rightarrow> (unit, string) res \<times> mock_network" where
  "mock_start n = (Ok (), n\<lparr>mn_running := True\<rparr>)"

definition mock_stop :: "mock_network \<Rightarrow> (unit, string) res \<times> mock_network" where
  "mock_stop n = (Ok (), n\<lparr>mn_running := False\<rparr>)"

definition mock_broadcast :: "frost_message \<Rightarrow> mock_network \<Rightarrow> (unit, string) res \<times> mock_network" where
  "mock_broadcast m n = (Ok (), n\<lparr>mn_messages := mn_messages n @ [m]\<rparr>)"

definition mock_send_to :: "string \<Rightarrow> frost_message \<Rightarrow> mock_network \<Rightarrow> (unit, string) res \<times> mock_network" where
  "mock_send_to target m n = (Ok (), n\<lparr>mn_messages := mn_messages n @ [m]\<rparr>)"

text \<open>\<open>keys\<close> is the order in which the hash map of the peers iterates.\<close>

definition mock_get_peers ::
    "((string \<rightharpoonup> peer_info) \<Rightarrow> string list) \<Rightarrow> mock_network \<Rightarrow> (string list, string) res \<times> mock_network" where
  "mock_get_peers keys n = (Ok (keys (mn_peers n)), n)"

definition mock_add_peer :: "string \<Rightarrow> mock_network \<Rightarrow> (unit, string) res \<times> mock_network" where
  "mock_add_peer peer_id n = (Ok (), n\<lparr>mn_peers := (mn_peers n)(peer_id \<mapsto>
     \<lparr>pi_address = ''mock://'' @ peer_id, pi_protocol_version = ''1.0.0'',
       pi_supported_features = [''basic''], pi_chain_ids = [1, 2]\<rparr>)\<rparr>)"

definition mock_remove_peer :: "string \<Rightarrow> mock_network \<Rightarrow> (unit, string) res \<times> mock_network" where
  "mock_remove_peer peer_id n = (Ok (), n\<lparr>mn_peers := (mn_peers n)(peer_id := None)\<rparr>)"

definition get_sent_messages :: "mock_network \<Rightarrow> frost_message list" where
  "get_sent_messages n = mn_messages n"

definition is_running :: "mock_network \<Rightarrow> bool" where
  "is_running n = mn_running n"

text \<open>\<open>RouteStatus\<close> and \<open>RouteMetrics\<close> as the mock fills them; the random message id is left out.\<close>

datatype route_state = RouteCompleted

record route_status =
  rs_route :: "chain_id list"
  rs_current_hop :: nat
  rs_estimated_time :: nat
  rs_state :: route_state

record route_metrics =
  rm_active_routes :: nat
  rm_completed_routes :: nat
  rm_failed_routes :: nat
  rm_average_route_time :: f64
  rm_route_success_rate :: f64

definition mock_route_message :: "frost_message \<Rightarrow> mock_network \<Rightarrow> (route_status, string) res \<times> mock_network" where
  "mock_route_message m = try_then (mock_send_to ''default_target'' m) (\<lambda>_.
     lift_res (Ok \<lparr>rs_route = [], rs_current_hop = 0, rs_estimated_time = 0, rs_state = RouteCompleted\<rparr>))"

definition mock_get_route :: "chain_id \<Rightarrow> chain_id \<Rightarrow> mock_network \<Rightarrow> (chain_id list, string) res \<times> mock_network" where
  "mock_get_route a b = lift_res (Ok [a, b])"

definition mock_update_topology :: "'topo \<Rightarrow> mock_network \<Rightarrow> (unit, string) res \<times> mock_network" where
  "mock_update_topology t = lift_res (Ok ())"

definition mock_get_metrics :: "mock_network \<Rightarrow> (route_metrics, string) res \<times> mock_network" where
  "mock_get_metrics = lift_res (Ok \<lparr>rm_active_routes = 0, rm_completed_routes = 0, rm_failed_routes = 0,
     rm_average_route_time = f64_lit 0, rm_route_success_rate = f64_lit 1\<rparr>)"

definition mock_router :: "(mock_network, 'topo, route_status, route_metrics, string) inner_router" where
  "mock_router = \<lparr>in_route_message = mock_route_message, in_get_route = mock_get_route,
     in_update_topology = mock_update_topology, in_get_metrics = mock_get_metrics\<rparr>"

section \<open>The interface of routers\<close>

locale message_router =
  fixes route :: "frost_message \<Rightarrow> 'w \<Rightarrow> ('st, 'e) res \<times> 'w"
    and sent :: "'w \<Rightarrow> frost_message list"
  assumes routed: "route m w = (Ok st, w') \<Longrightarrow> sent w' = sent w @ [m]"
    and not_routed: "route m w = (r, w') \<Longrightarrow> \<not> is_ok r \<Longrightarrow> sent w' = sent w"
begin

lemma sent_cases: "sent (snd (route m w)) = sent w @ (if is_ok (fst (route m w)) then [m] else [])"
  using routed [of m w] not_routed [of m w]
  by (cases "route m w") (auto simp: is_ok_iff)

end

interpretation mock: message_router mock_route_message mn_messages
  by unfold_locales
    (auto simp: mock_route_message_def mock_send_to_def try_then_def)

text \<open>The adapter of a router is a router.\<close>

locale adapted_router = message_router "in_route_message I" sent
  for I :: "('r, 'topo, 'st, 'm, 'e) inner_router" and sent :: "'r \<Rightarrow> frost_message list"

sublocale adapted_router \<subseteq> adapted: message_router "adapter_route_message I" "sent \<circ> adapter_inner"
  by unfold_locales
    (auto simp: adapter_route_message_def with_inner_def routed not_routed split: prod.splits)

interpretation mock_adapter: adapted_router mock_router mn_messages
  by unfold_locales (auto simp: mock_router_def mock.routed mock.not_routed)

section \<open>Runs of a router\<close>

datatype 'topo router_call =
  CallRoute frost_message | CallGetRoute chain_id chain_id | CallTopology 'topo | CallMetrics

datatype ('st, 'm, 'e) router_answer =
  AnsRoute "('st, 'e) res" | AnsGetRoute "(chain_id list, 'e) res" | AnsTopology "(unit, 'e) res"
  | AnsMetrics "('m, 'e) res"

fun inner_call ::
    "('r, 'topo, 'st, 'm, 'e) inner_router \<Rightarrow> 'topo router_call \<Rightarrow> 'r \<Rightarrow> ('st, 'm, 'e) router_answer \<times> 'r" where
  "inner_call I (CallRoute m) r = apfst AnsRoute (in_route_message I m r)"
| "inner_call I (CallGetRoute a b) r = apfst AnsGetRoute (in_get_route I a b r)"
| "inner_call I (CallTopology t) r = apfst AnsTopology (in_update_topology I t r)"
| "inner_call I CallMetrics r = apfst AnsMetrics (in_get_metrics I r)"

fun adapter_call ::
    "('r, 'topo, 'st, 'm, 'e) inner_router \<Rightarrow> 'topo router_call \<Rightarrow> 'r router_adapter \<Rightarrow>
     ('st, 'm, 'e) router_answer \<times> 'r router_adapter" where
  "adapter_call I (CallRoute m) r = apfst AnsRoute (adapter_route_message I m r)"
| "adapter_call I (CallGetRoute a b) r = apfst AnsGetRoute (adapter_get_route I a b r)"
| "adapter_call I (CallTopology t) r = apfst AnsTopology (adapter_update_topology I t r)"
| "adapter_call I CallMetrics r = apfst AnsMetrics (adapter_get_metrics I r)"

fun run_calls :: "('c \<Rightarrow> 'r \<Rightarrow> 'a \<times> 'r) \<Rightarrow> 'c list \<Rightarrow> 'r \<Rightarrow> 'a list \<times> 'r" where
  "run_calls step [] r = ([], r)"
| "run_calls step (c # cs) r = (case step c r of (a, r') \<Rightarrow>
     case run_calls step cs r' of (as, r'') \<Rightarrow> (a # as, r''))"

lemma adapter_call_inner: "adapter_call I c (RouterAdapter r) = apsnd RouterAdapter (inner_call I c r)"
  by (cases c)
    (simp_all add: adapter_route_message_def adapter_get_route_def adapter_update_topology_def
      adapter_get_metrics_def with_inner_def apfst_def apsnd_def map_prod_def split: prod.splits)

section \<open>Properties\<close>

text \<open>The adapter is transparent: every sequence of calls through it gives the answers that the
  inner router gives to the same calls, and leaves the inner router in the same state.\<close>

lemma adapter_transparent:
  "run_calls (adapter_call I) cs (adapter_new r) = apsnd RouterAdapter (run_calls (inner_call I) cs r)"
  unfolding adapter_new_def
  by (induction cs arbitrary: r) (auto simp: adapter_call_inner apsnd_def split: prod.splits)

text \<open>Through the adapter, the mock router sends every routed message once and in order, and keeps
  what was sent before.\<close>

lemma mock_adapter_sends_in_order:
  "mn_messages (adapter_inner (snd (run_calls (adapter_call mock_router) (map CallRoute ms) (adapter_new n)))) =
     mn_messages n @ ms"
proof -
  have "mn_messages (snd (run_calls (inner_call mock_router) (map CallRoute ms) n)) = mn_messages n @ ms"
  proof (induction ms arbitrary: n)
    case (Cons m ms)
    obtain n' st where "mock_route_message m n = (Ok st, n')"
      by (simp add: mock_route_message_def mock_send_to_def try_then_def)
    with Cons mock.routed [OF this] show ?case
      by (simp add: mock_router_def case_prod_beta)
  qed simp
  then show ?thesis by (simp add: adapter_transparent)
qed

end
