(* ===== verification/Observer.thy ===== *)
theory Observer
  imports Grandpa_Finality Routing "HOL-Library.Sublist"
begin

text \<open>
  The observer (\<open>src/observer/mod.rs\<close>): watch targets and their bounds, the matching of events by byte
  windows, the handling of a finality notification and the worker that runs over a stream of them. The
  trait objects the observer holds (finality predicate, proof generator, router, runtime API) are
  fields of its record, as functions on a world \<open>'w\<close> that they read and change; the codecs and defaults
  of \<open>frost_protocol\<close> are the record \<open>observer_externs\<close>.
\<close>

section \<open>Errors and watch targets\<close>

datatype error_kind = InvalidBlockHash | InvalidBlockNumber | RuntimeApiError string | StateNotFound
  | ProofGenerationFailed | MessageRoutingFailed

datatype protocol_error = ProtocolCustom string | ProtocolOther string

definition into_protocol :: "error_kind \<Rightarrow> protocol_error" where
  "into_protocol k = (case k of
     InvalidBlockHash \<Rightarrow> ProtocolCustom ''Invalid block hash''
   | InvalidBlockNumber \<Rightarrow> ProtocolCustom ''Invalid block number''
   | RuntimeApiError e \<Rightarrow> ProtocolCustom (''Runtime API error: '' @ e)
   | StateNotFound \<Rightarrow> ProtocolCustom ''State not found''
   | ProofGenerationFailed \<Rightarrow> ProtocolCustom ''Failed to generate proof''
   | MessageRoutingFailed \<Rightarrow> ProtocolCustom ''Failed to route message'')"

definition error_kind_from :: "string \<Rightarrow> error_kind" where
  "error_kind_from e = RuntimeApiError e"

record watch_target =
  wt_module_name :: bytes
  wt_function_name :: bytes
  wt_message_hash :: "bytes option"
  wt_target_chain :: bytes

text \<open>\<open>BoundedVec::try_from\<close>\<close>

definition bounded :: "nat \<Rightarrow> bytes \<Rightarrow> bytes option" where
  "bounded n xs = (if length xs \<le> n then Some xs else None)"

definition watch_target_new ::
    "bytes \<Rightarrow> bytes \<Rightarrow> bytes option \<Rightarrow> bytes \<Rightarrow> (watch_target, string) res" where
  "watch_target_new module_name function_name message_hash target_chain =
     and_then (ok_or ''Module name too long'' (bounded 32 module_name)) (\<lambda>m.
     and_then (ok_or ''Function name too long'' (bounded 32 function_name)) (\<lambda>f.
     and_then (case message_hash of
         Some hash \<Rightarrow> map_ok Some (ok_or ''Message hash too long'' (bounded 64 hash))
       | None \<Rightarrow> Ok None) (\<lambda>h.
     and_then (ok_or ''Target chain too long'' (bounded 32 target_chain)) (\<lambda>c.
     Ok \<lparr>wt_module_name = m, wt_function_name = f, wt_message_hash = h, wt_target_chain = c\<rparr>))))"

record finality_notification =
  fn_hash :: h256
  fn_number :: block_number
  fn_justification :: "grandpa_justification option"

section \<open>The observer\<close>

record ('w, 'ev, 'st) observer =
  ob_watch_targets :: "watch_target list"
  ob_generate_proof :: "state_transition \<Rightarrow> generation_config \<Rightarrow> 'w \<Rightarrow> (state_proof, state_error) res"
  ob_message_router :: "(frost_message \<Rightarrow> 'w \<Rightarrow> ('st, string) res \<times> 'w) option"
  ob_events :: "h256 \<Rightarrow> 'w \<Rightarrow> ('ev list, string) res"
  ob_is_final :: "block_ref \<Rightarrow> 'w \<Rightarrow> (bool, finality_error) res \<times> 'w"

record ('w, 'ev) observer_externs =
  encode_event :: "'ev \<Rightarrow> bytes"
  encode_proof :: "state_proof \<Rightarrow> bytes"
  from_finality_error :: "finality_error \<Rightarrow> protocol_error"
  default_chain_id :: chain_id
  default_block_ref :: block_ref
  default_state_root :: state_root
  system_time :: "'w \<Rightarrow> int"

text \<open>
  Construction: \<open>finality_of\<close> is the \<open>is_final\<close> method of the constructed predicate on the world,
  \<open>default_cfg\<close> is \<open>PredicateConfig::default()\<close>.
\<close>

definition observer_new ::
    "'vs externs \<Rightarrow> client \<Rightarrow> metrics \<Rightarrow> predicate_config \<Rightarrow>
     (('vs, 'o) grandpa_finality \<Rightarrow> block_ref \<Rightarrow> 'w \<Rightarrow> (bool, finality_error) res \<times> 'w) \<Rightarrow>
     (state_transition \<Rightarrow> generation_config \<Rightarrow> 'w \<Rightarrow> (state_proof, state_error) res) \<Rightarrow>
     (frost_message \<Rightarrow> 'w \<Rightarrow> ('st, string) res \<times> 'w) option \<Rightarrow>
     (h256 \<Rightarrow> 'w \<Rightarrow> ('ev list, string) res) \<Rightarrow> (('w, 'ev, 'st) observer, 'e) res" where
  "observer_new X c g default_cfg finality_of gen router evs =
     and_then (expect ''Empty voter set is valid'' (vs_new X [])) (\<lambda>voter_set.
     let vc = client_new c voter_set verification_params_default chain_config_default g in
     and_then (gf_new X default_cfg (Substrate vc) []) (\<lambda>fin.
     Ok \<lparr>ob_watch_targets = [], ob_generate_proof = gen, ob_message_router = router, ob_events = evs,
         ob_is_final = finality_of fin\<rparr>))"

definition observer_new_with_runtime_authorities ::
    "'vs externs \<Rightarrow> client \<Rightarrow> client \<Rightarrow> metrics \<Rightarrow> predicate_config \<Rightarrow> chain_config \<Rightarrow>
     (('vs, 'o) grandpa_finality \<Rightarrow> block_ref \<Rightarrow> 'w \<Rightarrow> (bool, finality_error) res \<times> 'w) \<Rightarrow>
     (state_transition \<Rightarrow> generation_config \<Rightarrow> 'w \<Rightarrow> (state_proof, state_error) res) \<Rightarrow>
     (frost_message \<Rightarrow> 'w \<Rightarrow> ('st, string) res \<times> 'w) option \<Rightarrow>
     (h256 \<Rightarrow> 'w \<Rightarrow> ('ev list, string) res) \<Rightarrow> (('w, 'ev, 'st) observer, protocol_error) res" where
  "observer_new_with_runtime_authorities X c c' g default_cfg cc finality_of gen router evs =
     and_then (map_err (\<lambda>e. ProtocolCustom (''Failed to initialize finality: '' @ gv_to_string e))
       (gf_new_from_runtime X c c' default_cfg verification_params_default cc g)) (\<lambda>fin.
     Ok \<lparr>ob_watch_targets = [], ob_generate_proof = gen, ob_message_router = router, ob_events = evs,
         ob_is_final = finality_of fin\<rparr>)"

definition observer_register_watch_target ::
    "watch_target \<Rightarrow> ('w, 'ev, 'st) observer \<Rightarrow> ('w, 'ev, 'st) observer" where
  "observer_register_watch_target t ob = ob\<lparr>ob_watch_targets := ob_watch_targets ob @ [t]\<rparr>"

section \<open>Matching events\<close>

text \<open>\<open>slice.windows(n)\<close>; a window size of zero panics.\<close>

definition windows :: "nat \<Rightarrow> bytes \<Rightarrow> bytes list" where
  "windows n xs = map (\<lambda>i. take n (drop i xs)) [0..<length xs + 1 - n]"

definition contains_window :: "bytes \<Rightarrow> bytes \<Rightarrow> (bool, protocol_error) res" where
  "contains_window xs pat = (if pat = [] then Panic ''window size must be non-zero''
     else Ok (list_ex (\<lambda>w. w = pat) (windows (length pat) xs)))"

definition generic_event_match ::
    "('w, 'ev) observer_externs \<Rightarrow> 'ev \<Rightarrow> watch_target \<Rightarrow> (bool, protocol_error) res" where
  "generic_event_match X ev t =
     (let event_bytes = encode_event X ev in
      and_then (contains_window event_bytes (wt_module_name t)) (\<lambda>contains_module.
      and_then (contains_window event_bytes (wt_function_name t)) (\<lambda>contains_function.
      if \<not> contains_module \<or> \<not> contains_function then Ok False
      else (case wt_message_hash t of
          Some expected_hash \<Rightarrow> contains_window event_bytes expected_hash
        | None \<Rightarrow> Ok True))))"

definition event_matches_target ::
    "('w, 'ev) observer_externs \<Rightarrow> 'ev \<Rightarrow> watch_target \<Rightarrow> (bool, protocol_error) res" where
  "event_matches_target X ev t = generic_event_match X ev t"

fun any_event_matches ::
    "('w, 'ev) observer_externs \<Rightarrow> watch_target \<Rightarrow> 'ev list \<Rightarrow> (bool, protocol_error) res" where
  "any_event_matches X t [] = Ok False"
| "any_event_matches X t (ev # evs) =
     and_then (event_matches_target X ev t) (\<lambda>m. if m then Ok True else any_event_matches X t evs)"

definition matches_watch_target ::
    "('w, 'ev) observer_externs \<Rightarrow> ('w, 'ev, 'st) observer \<Rightarrow> block_ref \<Rightarrow> watch_target \<Rightarrow> 'w \<Rightarrow>
     (bool, protocol_error) res" where
  "matches_watch_target X ob b t w =
     and_then (map_err (\<lambda>e. ProtocolCustom (''Failed to fetch events: '' @ e)) (ob_events ob (br_hash b) w))
       (any_event_matches X t)"

definition get_block_events ::
    "('w, 'ev, 'st) observer \<Rightarrow> h256 \<Rightarrow> 'w \<Rightarrow> ('ev list, protocol_error) res" where
  "get_block_events ob h w =
     map_err (\<lambda>e. ProtocolCustom (''Failed to get events: '' @ e)) (ob_events ob h w)"

section \<open>Handling a notification\<close>

definition generate_state_transition ::
    "('w, 'ev) observer_externs \<Rightarrow> int \<Rightarrow> block_ref \<Rightarrow> watch_target \<Rightarrow>
     (ssmp_state_transition, protocol_error) res" where
  "generate_state_transition X now b t =
     and_then (ok_or (into_protocol InvalidBlockHash) (array32 (h256_bytes (br_hash b)))) (\<lambda>block_hash_bytes.
     let pre_state = \<lparr>sr_block_ref = default_block_ref X, sr_root_hash = 0, sr_metadata = None\<rparr>;
         post_state = default_state_root X
     in Ok (ssmp_new now (br_chain_id b) (br_number b) pre_state post_state
          (wt_module_name t) (wt_function_name t) (wt_target_chain t)))"

definition routed_message :: "('w, 'ev) observer_externs \<Rightarrow> state_proof \<Rightarrow> frost_message" where
  "routed_message X p = \<lparr>fm_message_type = MtStateTransition, fm_payload = encode_proof X p,
     fm_source = ''source'', fm_target = None\<rparr>"

definition route_proof ::
    "('w, 'ev) observer_externs \<Rightarrow> ('w, 'ev, 'st) observer \<Rightarrow> state_proof \<Rightarrow> 'w \<Rightarrow> (unit, protocol_error) res \<times> 'w" where
  "route_proof X ob p w = (case ob_message_router ob of
     None \<Rightarrow> (Ok (), w)
   | Some route \<Rightarrow> (case route (routed_message X p) w of
       (r, w') \<Rightarrow> (map_ok (\<lambda>_. ()) (map_err (\<lambda>_. into_protocol MessageRoutingFailed) r), w')))"

text \<open>The body of the loop over the targets.\<close>

definition handle_target ::
    "('w, 'ev) observer_externs \<Rightarrow> ('w, 'ev, 'st) observer \<Rightarrow> block_ref \<Rightarrow> watch_target \<Rightarrow> 'w \<Rightarrow>
     (unit, protocol_error) res \<times> 'w" where
  "handle_target X ob b t =
     try_then (\<lambda>w. (matches_watch_target X ob b t w, w)) (\<lambda>matched.
     if \<not> matched then lift_res (Ok ()) else
     try_then (\<lambda>w. (generate_state_transition X (system_time X w) b t, w)) (\<lambda>transition.
     try_then (\<lambda>w. (map_err (\<lambda>_. into_protocol ProofGenerationFailed)
         (ob_generate_proof ob (ssmp_into transition) generation_config_default w), w)) (route_proof X ob)))"

fun handle_targets ::
    "('w, 'ev) observer_externs \<Rightarrow> ('w, 'ev, 'st) observer \<Rightarrow> block_ref \<Rightarrow> watch_target list \<Rightarrow> 'w \<Rightarrow>
     (unit, protocol_error) res \<times> 'w" where
  "handle_targets X ob b [] w = (Ok (), w)"
| "handle_targets X ob b (t # ts) w = try_then (handle_target X ob b t) (\<lambda>_. handle_targets X ob b ts) w"

definition handle_finality_notification ::
    "('w, 'ev) observer_externs \<Rightarrow> ('w, 'ev, 'st) observer \<Rightarrow> finality_notification \<Rightarrow> 'w \<Rightarrow>
     (unit, protocol_error) res \<times> 'w" where
  "handle_finality_notification X ob n =
     try_then (lift_res (ok_or (into_protocol InvalidBlockHash) (array32 (h256_bytes (fn_hash n))))) (\<lambda>hash_bytes.
     let block_number = u32_to_u64 (fn_number n);
         b = \<lparr>br_chain_id = default_chain_id X, br_number = block_number, br_hash = hash_bytes\<rparr>
     in try_then (with_err (from_finality_error X) (ob_is_final ob b)) (\<lambda>final.
        if \<not> final then lift_res (Ok ()) else handle_targets X ob b (ob_watch_targets ob)))"

definition on_block_finalized ::
    "('w, 'ev) observer_externs \<Rightarrow> ('w, 'ev, 'st) observer \<Rightarrow> block_ref \<Rightarrow> 'w \<Rightarrow>
     (unit, protocol_error) res \<times> 'w" where
  "on_block_finalized X ob b =
     try_then (lift_res (ok_or (into_protocol InvalidBlockHash) (array32 (h256_bytes (br_hash b))))) (\<lambda>hash.
     try_then (lift_res (if unat (br_number b) < 2 ^ 32 then Ok (ucast (br_number b))
         else Err (into_protocol InvalidBlockNumber))) (\<lambda>number.
     handle_finality_notification X ob \<lparr>fn_hash = hash, fn_number = number, fn_justification = None\<rparr>))"

text \<open>The worker logs errors and goes on; the stream is the list of the notifications it delivers.\<close>

fun run_with_finality_stream ::
    "('w, 'ev) observer_externs \<Rightarrow> ('w, 'ev, 'st) observer \<Rightarrow> finality_notification list \<Rightarrow> 'w \<Rightarrow>
     (unit, protocol_error) res \<times> 'w" where
  "run_with_finality_stream X ob [] w = (Ok (), w)"
| "run_with_finality_stream X ob (n # ns) w = (case handle_finality_notification X ob n w of
     (Panic m, w') \<Rightarrow> (Panic m, w')
   | (Ok _, w') \<Rightarrow> run_with_finality_stream X ob ns w'
   | (Err _, w') \<Rightarrow> run_with_finality_stream X ob ns w')"

section \<open>Lemmas: windows\<close>

lemma windows_sublist:
  assumes "pat \<noteq> []"
  shows "list_ex (\<lambda>w. w = pat) (windows (length pat) xs) \<longleftrightarrow> sublist pat xs"
proof
  assume "list_ex (\<lambda>w. w = pat) (windows (length pat) xs)"
  then obtain i where "take (length pat) (drop i xs) = pat" by (auto simp: windows_def list_ex_iff) metis
  then show "sublist pat xs"
    by (metis sublist_def append_take_drop_id)
next
  assume "sublist pat xs"
  then obtain ps ss where xs: "xs = ps @ pat @ ss" by (auto simp: sublist_def)
  then have "length ps < length xs + 1 - length pat" "take (length pat) (drop (length ps) xs) = pat"
    by simp_all
  then show "list_ex (\<lambda>w. w = pat) (windows (length pat) xs)"
    by (force simp: windows_def list_ex_iff)
qed

lemma contains_window_cases:
  "contains_window xs pat = (if pat = [] then Panic ''window size must be non-zero'' else Ok (sublist pat xs))"
  by (simp add: contains_window_def windows_sublist)

lemma event_match_cases:
  "generic_event_match X ev t =
     (let bs = encode_event X ev in
      if wt_module_name t = [] \<or> wt_function_name t = [] then Panic ''window size must be non-zero''
      else if \<not> (sublist (wt_module_name t) bs \<and> sublist (wt_function_name t) bs) then Ok False
      else (case wt_message_hash t of None \<Rightarrow> Ok True
        | Some h \<Rightarrow> if h = [] then Panic ''window size must be non-zero'' else Ok (sublist h bs)))"
  by (auto simp: generic_event_match_def contains_window_cases Let_def split: option.splits)

section \<open>Lemmas: the loop over the targets\<close>

lemma transition_Ok: "generate_state_transition X now b t = Ok tr \<Longrightarrow> tr_proof (ssmp_into tr) = None"
  by (auto simp: generate_state_transition_def ssmp_new_def ssmp_into_def Let_def and_then_eq_Ok)

lemma transition_total: "\<exists>tr. generate_state_transition X now b t = Ok tr"
  by (simp add: generate_state_transition_def)

text \<open>A proof that the generator makes for a target in a world, at some time.\<close>

definition proof_for ::
    "('w, 'ev) observer_externs \<Rightarrow> ('w, 'ev, 'st) observer \<Rightarrow> block_ref \<Rightarrow> 'w \<Rightarrow> watch_target \<Rightarrow> state_proof \<Rightarrow> bool" where
  "proof_for X ob b w t p \<longleftrightarrow> (\<exists>now tr. generate_state_transition X now b t = Ok tr \<and>
     ob_generate_proof ob (ssmp_into tr) generation_config_default w = Ok p)"

definition target_matches ::
    "('w, 'ev) observer_externs \<Rightarrow> ('w, 'ev, 'st) observer \<Rightarrow> block_ref \<Rightarrow> 'w \<Rightarrow> watch_target \<Rightarrow> bool" where
  "target_matches X ob b w t \<longleftrightarrow> matches_watch_target X ob b t w = Ok True"

lemma handle_target_cases:
  obtains (skipped) "\<not> target_matches X ob b w t" "handle_target X ob b t w = (Ok (), w)"
  | (failed) r where "handle_target X ob b t w = (r, w)" "\<not> is_ok r"
  | (proved) p where "target_matches X ob b w t" "proof_for X ob b w t p"
      "handle_target X ob b t w = route_proof X ob p w"
proof (cases "matches_watch_target X ob b t w")
  case (Ok m)
  show ?thesis
  proof (cases m)
    case True
    obtain tr where tr: "generate_state_transition X (system_time X w) b t = Ok tr"
      using transition_total by blast
    show ?thesis
    proof (cases "ob_generate_proof ob (ssmp_into tr) generation_config_default w")
      fix p assume "ob_generate_proof ob (ssmp_into tr) generation_config_default w = Ok p"
      then show ?thesis using proved [of p] Ok True tr
        by (auto simp: handle_target_def try_then_def proof_for_def target_matches_def)
    qed (use failed Ok True tr in \<open>auto simp: handle_target_def try_then_def\<close>)
  qed (use skipped Ok in \<open>simp add: handle_target_def try_then_def target_matches_def\<close>)
qed (use failed in \<open>simp_all add: handle_target_def try_then_def\<close>)

section \<open>What an observer with a router delivers\<close>

text \<open>
  The router keeps its contract, and routing a message changes neither the answers of the runtime API
  nor those of the generator.
\<close>

locale finality_observer = message_router route sent
  for route :: "frost_message \<Rightarrow> 'w \<Rightarrow> ('st, string) res \<times> 'w" and sent :: "'w \<Rightarrow> frost_message list" +
  fixes X :: "('w, 'ev) observer_externs" and ob :: "('w, 'ev, 'st) observer"
  assumes router: "ob_message_router ob = Some route"
    and events_frame: "ob_events ob h (snd (route m w)) = ob_events ob h w"
    and generator_frame: "ob_generate_proof ob t c (snd (route m w)) = ob_generate_proof ob t c w"
begin

lemma matches_frame: "target_matches X ob b (snd (route m w)) = target_matches X ob b w"
  by (rule ext) (simp add: target_matches_def matches_watch_target_def events_frame)

lemma proof_for_frame: "proof_for X ob b (snd (route m w)) = proof_for X ob b w"
  by (intro ext) (simp add: proof_for_def generator_frame)

lemma route_proof_route:
  "route_proof X ob p w = (r, w') \<Longrightarrow> w' = snd (route (routed_message X p) w) \<and>
     is_ok r = is_ok (fst (route (routed_message X p) w)) \<and> (is_ok r \<longrightarrow> r = Ok ())"
  by (cases "route (routed_message X p) w"; cases "fst (route (routed_message X p) w)")
    (auto simp: route_proof_def router)

lemma targets_delivered:
  "handle_targets X ob b ts w = (r, w') \<Longrightarrow>
   \<exists>us ps. sent w' = sent w @ map (routed_message X) ps \<and> list_all2 (proof_for X ob b w) us ps \<and>
     prefix us (filter (target_matches X ob b w) ts) \<and>
     (is_ok r \<longrightarrow> us = filter (target_matches X ob b w) ts)"
proof (induction ts arbitrary: w)
  case Nil
  then show ?case by (auto intro!: exI [of _ "[]"])
next
  case (Cons t ts)
  show ?case
  proof (rule handle_target_cases [of X ob b w t])
    assume "\<not> target_matches X ob b w t" and "handle_target X ob b t w = (Ok (), w)"
    then show ?thesis using Cons by (simp add: try_then_def)
  next
    fix r1 assume "handle_target X ob b t w = (r1, w)" and "\<not> is_ok r1"
    then have "w' = w \<and> \<not> is_ok r" using Cons.prems by (cases r1) (auto simp: try_then_def)
    then show ?thesis by (auto intro!: exI [of _ "[]"])
  next
    fix p assume m: "target_matches X ob b w t" and p: "proof_for X ob b w t p"
      and h: "handle_target X ob b t w = route_proof X ob p w"
    obtain r1 w1 where r1: "route_proof X ob p w = (r1, w1)" by (cases "route_proof X ob p w")
    note route = route_proof_route [OF r1]
    have sent: "sent w1 = sent w @ (if is_ok r1 then [routed_message X p] else [])"
      using route sent_cases [of "routed_message X p" w] by simp
    show ?thesis
    proof (cases "is_ok r1")
      case True
      with route have "r1 = Ok ()" by blast
      then have "handle_targets X ob b ts w1 = (r, w')" using Cons.prems h r1 by (simp add: try_then_def)
      from Cons.IH [OF this] obtain us ps where
        "sent w' = sent w1 @ map (routed_message X) ps" "list_all2 (proof_for X ob b w) us ps"
        "prefix us (filter (target_matches X ob b w) ts)"
        "is_ok r \<longrightarrow> us = filter (target_matches X ob b w) ts"
        using route by (auto simp: matches_frame proof_for_frame)
      then show ?thesis using sent True m p by (intro exI [of _ "t # us"] exI [of _ "p # ps"]) simp
    next
      case False
      then have "w' = w1 \<and> \<not> is_ok r"
        using Cons.prems h r1 by (cases r1) (auto simp: try_then_def)
      then show ?thesis using sent False by (auto intro!: exI [of _ "[]"])
    qed
  qed
qed

end

section \<open>Properties\<close>

text \<open>A watch target is accepted exactly when module, function and target chain have at most 32 bytes
  and the message hash, if given, at most 64; then the target holds the four values unchanged.\<close>

lemma watch_target_bounds:
  "watch_target_new m f h c = Ok t \<longleftrightarrow>
     length m \<le> 32 \<and> length f \<le> 32 \<and> (case h of None \<Rightarrow> True | Some x \<Rightarrow> length x \<le> 64) \<and> length c \<le> 32 \<and>
     t = \<lparr>wt_module_name = m, wt_function_name = f, wt_message_hash = h, wt_target_chain = c\<rparr>"
  by (cases h) (auto simp: watch_target_new_def bounded_def)


definition sample_externs :: "('w, bytes) observer_externs" where
  "sample_externs = \<lparr>encode_event = (\<lambda>ev. ev), encode_proof = (\<lambda>p. pd_data (proof_content p)),
     from_finality_error = (\<lambda>e. ProtocolOther ''finality''), default_chain_id = ChainId ''default'',
     default_block_ref = \<lparr>br_chain_id = ChainId ''default'', br_number = 0, br_hash = 0\<rparr>,
     default_state_root = \<lparr>sr_block_ref = \<lparr>br_chain_id = ChainId ''default'', br_number = 0, br_hash = 0\<rparr>,
       sr_root_hash = 0, sr_metadata = None\<rparr>, system_time = (\<lambda>w. 0)\<rparr>"

definition sample_target :: "bytes option \<Rightarrow> watch_target" where
  "sample_target h = \<lparr>wt_module_name = [1], wt_function_name = [2, 3], wt_message_hash = h, wt_target_chain = [9]\<rparr>"


text \<open>C32. When matching panics: exactly for an empty module or function name, and for a message hash that
  is present but empty on an event that contains both names. The bounds of a watch target allow such a
  hash, and registration checks only the two names.\<close>

theorem event_match_panics_iff:
  "panics (event_matches_target X ev t) \<longleftrightarrow>
     wt_module_name t = [] \<or> wt_function_name t = [] \<or>
     wt_message_hash t = Some [] \<and> sublist (wt_module_name t) (encode_event X ev) \<and>
       sublist (wt_function_name t) (encode_event X ev)"
  by (auto simp: event_matches_target_def event_match_cases Let_def split: option.splits)

text \<open>The plain constructor of the observer never returns: an empty authority list has no voter set,
  so the first \<open>expect\<close> panics, whatever the client, the generator and the router are.\<close>

lemma observer_new_panics:
  assumes "voter_set_laws X"
  shows "observer_new X c g cfg finality_of gen router evs = Panic ''Empty voter set is valid''"
  using voter_set_laws_Nil [OF assms] by (simp add: observer_new_def)

lemma observer_new_panics_witness:
  "panics (observer_new list_externs (sample_client 1 3) metrics_init sample_cfg
     (\<lambda>(gf :: (authority_list, unit) grandpa_finality) b w. (Ok True, w)) (\<lambda>t c w. Err (Internal [])) None
     (\<lambda>h w. Ok []) :: ((unit, bytes, unit) observer, unit) res)"
  by (subst observer_new_panics [OF list_externs_laws]) simp

text \<open>One bad block does not stop the worker: unless a notification panics, the worker handles every
  notification of the stream in order, each on the state the previous one left, errors included.\<close>

lemma worker_survives_errors:
  assumes "\<forall>n \<in> set ns. \<forall>v. \<not> panics (fst (handle_finality_notification X ob n v))"
  shows "run_with_finality_stream X ob ns w =
    (Ok (), fold (\<lambda>n w. snd (handle_finality_notification X ob n w)) ns w)"
  using assms
proof (induction ns arbitrary: w)
  case (Cons n ns)
  obtain r w' where h: "handle_finality_notification X ob n w = (r, w')"
    by (cases "handle_finality_notification X ob n w")
  then have "\<not> panics r" using Cons.prems by (metis fst_conv list.set_intros(1))
  then show ?case using Cons h by (cases r) simp_all
qed simp

definition failing_observer :: "(nat, bytes, unit) observer" where
  "failing_observer = \<lparr>ob_watch_targets = [], ob_generate_proof = (\<lambda>t c w. Err (Internal [])),
     ob_message_router = None, ob_events = (\<lambda>h w. Ok []),
     ob_is_final = (\<lambda>b w. (Err (ChainError ''down''), Suc w))\<rparr>"

lemma worker_survives_errors_witness:
  "run_with_finality_stream sample_externs failing_observer
     [\<lparr>fn_hash = 1, fn_number = 1, fn_justification = None\<rparr>, \<lparr>fn_hash = 2, fn_number = 2, fn_justification = None\<rparr>] 0
   = (Ok (), 2)"
proof -
  have "handle_finality_notification sample_externs failing_observer n v = (Err (ProtocolOther ''finality''), Suc v)"
    for n v
    by (simp add: handle_finality_notification_def try_then_def failing_observer_def sample_externs_def Let_def
        with_err_def)
  then show ?thesis
    using worker_survives_errors [of
        "[\<lparr>fn_hash = 1, fn_number = 1, fn_justification = None\<rparr>, \<lparr>fn_hash = 2, fn_number = 2, fn_justification = None\<rparr>]"
        sample_externs failing_observer 0] by simp
qed

text \<open>A finalized block whose number does not fit in 32 bits is refused without looking at the chain;
  any other block is handled under the default chain id, whatever chain the block names.\<close>

lemma finalized_block_number_and_chain:
  "on_block_finalized X ob b w =
     (if 2 ^ 32 \<le> unat (br_number b) then (Err (ProtocolCustom ''Invalid block number''), w)
      else on_block_finalized X ob (b\<lparr>br_chain_id := default_chain_id X\<rparr>) w)"
  by (simp add: on_block_finalized_def try_then_def into_protocol_def)

end
