(* ===== verification/Pallet.thy ===== *)
theory Pallet
  imports Observer
begin

text \<open>
  The FRAME pallet (\<open>src/lib.rs\<close>): the storage map of watch targets, the call that registers a target,
  the hook \<open>on_initialize\<close>, and the process-wide table of observers behind a \<open>std::sync::RwLock\<close>. A
  panic while the lock is held for writing poisons it, and every later \<open>write()\<close> fails. The hash and the
  SCALE codec of targets are parameters, and so is the constructor of the observer, which the last
  properties instantiate with \<open>observer_new\<close> and with the observer that \<open>ensure_observer\<close> makes.
\<close>

section \<open>State\<close>

datatype 'h pallet_event = WatchTargetRegistered 'h | ProofGenerated 'h bytes | MessageRouted 'h bytes

datatype pallet_error = InvalidWatchTarget | InvalidProof | ProofTooLarge | RoutingFailed

datatype dispatch_error = BadOrigin | Module pallet_error

datatype origin = Signed bytes | RootOrigin | NoOrigin

definition ensure_signed :: "origin \<Rightarrow> (bytes, dispatch_error) res" where
  "ensure_signed orig = (case orig of Signed who \<Rightarrow> Ok who | RootOrigin \<Rightarrow> Err BadOrigin | NoOrigin \<Rightarrow> Err BadOrigin)"

text \<open>The table is keyed by the type of the runtime, here a number; an entry has the type of its key.\<close>

record 'ob observers =
  obs_map :: "nat \<rightharpoonup> 'ob"
  obs_poisoned :: bool

record ('h, 'ob) pallet_state =
  ps_watch_targets :: "'h \<rightharpoonup> watch_target"
  ps_events :: "'h pallet_event list"
  ps_observers :: "'ob observers"

definition observers_init :: "'ob observers" where
  "observers_init = \<lparr>obs_map = Map.empty, obs_poisoned = False\<rparr>"

definition pallet_init :: "('h, 'ob) pallet_state" where
  "pallet_init = \<lparr>ps_watch_targets = Map.empty, ps_events = [], ps_observers = observers_init\<rparr>"

section \<open>Operations\<close>

text \<open>\<open>new\<close> is what \<open>SSMPObserver::new\<close> does.\<close>

definition ensure_observer ::
    "('ob, dispatch_error) res \<Rightarrow> nat \<Rightarrow> 'ob observers \<Rightarrow> ('ob option, dispatch_error) res \<times> 'ob observers" where
  "ensure_observer new type_id obs =
     (if obs_poisoned obs then (Ok None, obs)
      else (case obs_map obs type_id of
        Some ob \<Rightarrow> (Ok (Some ob), obs)
      | None \<Rightarrow> (case new of
          Ok new_observer \<Rightarrow> (Ok (Some new_observer), obs\<lparr>obs_map := (obs_map obs)(type_id \<mapsto> new_observer)\<rparr>)
        | Err e \<Rightarrow> (Err e, obs)
        | Panic m \<Rightarrow> (Panic m, obs\<lparr>obs_poisoned := True\<rparr>))))"

definition pallet_observer ::
    "('ob, dispatch_error) res \<Rightarrow> nat \<Rightarrow> 'ob observers \<Rightarrow> ('ob option, dispatch_error) res \<times> 'ob observers" where
  "pallet_observer new type_id obs = ensure_observer new type_id obs"

definition deposit_event :: "'h pallet_event \<Rightarrow> ('h, 'ob) pallet_state \<Rightarrow> ('h, 'ob) pallet_state" where
  "deposit_event ev s = s\<lparr>ps_events := ps_events s @ [ev]\<rparr>"

text \<open>The hook ignores the observer it gets; a panic of the constructor is not caught.\<close>

definition on_initialize ::
    "('ob, dispatch_error) res \<Rightarrow> nat \<Rightarrow> block_number \<Rightarrow> ('h, 'ob) pallet_state \<Rightarrow>
     (nat, dispatch_error) res \<times> ('h, 'ob) pallet_state" where
  "on_initialize new type_id n s = (case ensure_observer new type_id (ps_observers s) of
     (Panic m, obs) \<Rightarrow> (Panic m, s\<lparr>ps_observers := obs\<rparr>)
   | (Ok _, obs) \<Rightarrow> (Ok 0, s\<lparr>ps_observers := obs\<rparr>)
   | (Err _, obs) \<Rightarrow> (Ok 0, s\<lparr>ps_observers := obs\<rparr>))"

text \<open>The observer is shared: a registration is seen through the table.\<close>

definition register_watch_target ::
    "(bytes \<Rightarrow> 'h) \<Rightarrow> (watch_target \<Rightarrow> bytes) \<Rightarrow> (('w, 'ev, 'st) observer, dispatch_error) res \<Rightarrow> nat \<Rightarrow>
     origin \<Rightarrow> watch_target \<Rightarrow> ('h, ('w, 'ev, 'st) observer) pallet_state \<Rightarrow>
     (unit, dispatch_error) res \<times> ('h, ('w, 'ev, 'st) observer) pallet_state" where
  "register_watch_target hash encode_target new type_id orig target s =
     (case ensure_signed orig of
       Err e \<Rightarrow> (Err e, s)
     | Panic m \<Rightarrow> (Panic m, s)
     | Ok _ \<Rightarrow>
         if \<not> (wt_module_name target \<noteq> [] \<and> wt_function_name target \<noteq> [])
         then (Err (Module InvalidWatchTarget), s)
         else
           let target_hash = hash (encode_target target);
               s1 = s\<lparr>ps_watch_targets := (ps_watch_targets s)(target_hash \<mapsto> target)\<rparr>
           in (case pallet_observer new type_id (ps_observers s1) of
             (Panic m, obs) \<Rightarrow> (Panic m, s1\<lparr>ps_observers := obs\<rparr>)
           | (Err e, obs) \<Rightarrow> (Err e, s1\<lparr>ps_observers := obs\<rparr>)
           | (Ok None, obs) \<Rightarrow> (Ok (), deposit_event (WatchTargetRegistered target_hash) (s1\<lparr>ps_observers := obs\<rparr>))
           | (Ok (Some ob), obs) \<Rightarrow> (Ok (), deposit_event (WatchTargetRegistered target_hash)
               (s1\<lparr>ps_observers := obs\<lparr>obs_map :=
                  (obs_map obs)(type_id \<mapsto> observer_register_watch_target target ob)\<rparr>\<rparr>))))"

section \<open>Runs of the pallet\<close>

text \<open>The process goes on after a panic of one call; other runtimes share the lock.\<close>

inductive pallet_step ::
    "(bytes \<Rightarrow> 'h) \<Rightarrow> (watch_target \<Rightarrow> bytes) \<Rightarrow> (('w, 'ev, 'st) observer, dispatch_error) res \<Rightarrow>
     ('h, ('w, 'ev, 'st) observer) pallet_state \<Rightarrow> ('h, ('w, 'ev, 'st) observer) pallet_state \<Rightarrow> bool"
  for hash encode_target new where
  initialize: "pallet_step hash encode_target new s (snd (on_initialize new ty n s))"
| register: "pallet_step hash encode_target new s
    (snd (register_watch_target hash encode_target new ty orig target s))"

inductive pallet_reachable ::
    "(bytes \<Rightarrow> 'h) \<Rightarrow> (watch_target \<Rightarrow> bytes) \<Rightarrow> (('w, 'ev, 'st) observer, dispatch_error) res \<Rightarrow>
     ('h, ('w, 'ev, 'st) observer) pallet_state \<Rightarrow> bool"
  for hash encode_target new where
  start: "pallet_reachable hash encode_target new pallet_init"
| step: "pallet_reachable hash encode_target new s \<Longrightarrow> pallet_step hash encode_target new s s' \<Longrightarrow>
    pallet_reachable hash encode_target new s'"

section \<open>Lemmas\<close>

lemma ensure_observer_cases:
  obtains (poisoned) "obs_poisoned obs" "ensure_observer new ty obs = (Ok None, obs)"
  | (present) ob where "\<not> obs_poisoned obs" "obs_map obs ty = Some ob" "ensure_observer new ty obs = (Ok (Some ob), obs)"
  | (created) ob where "\<not> obs_poisoned obs" "obs_map obs ty = None" "new = Ok ob"
      "ensure_observer new ty obs = (Ok (Some ob), obs\<lparr>obs_map := (obs_map obs)(ty \<mapsto> ob)\<rparr>)"
  | (failed) e where "\<not> obs_poisoned obs" "new = Err e" "ensure_observer new ty obs = (Err e, obs)"
  | (panicked) m where "\<not> obs_poisoned obs" "new = Panic m"
      "ensure_observer new ty obs = (Panic m, obs\<lparr>obs_poisoned := True\<rparr>)"
proof (cases "obs_poisoned obs")
  case False
  show ?thesis
  proof (cases "obs_map obs ty")
    case None
    then show ?thesis using False created failed panicked
      by (cases new) (simp_all add: ensure_observer_def)
  qed (use False present in \<open>simp add: ensure_observer_def\<close>)
qed (use poisoned in \<open>simp add: ensure_observer_def\<close>)

text \<open>
  What every reachable state keeps: the storage is keyed by the hash of its targets, all stored targets
  and all targets of the observers have both names, and every announced hash is stored.
\<close>

definition named :: "watch_target \<Rightarrow> bool" where
  "named t \<longleftrightarrow> wt_module_name t \<noteq> [] \<and> wt_function_name t \<noteq> []"

definition pallet_inv ::
    "(bytes \<Rightarrow> 'h) \<Rightarrow> (watch_target \<Rightarrow> bytes) \<Rightarrow> ('h, ('w, 'ev, 'st) observer) pallet_state \<Rightarrow> bool" where
  "pallet_inv hash enc s \<longleftrightarrow>
     (\<forall>h t. ps_watch_targets s h = Some t \<longrightarrow> h = hash (enc t) \<and> named t) \<and>
     (\<forall>h. WatchTargetRegistered h \<in> set (ps_events s) \<longrightarrow> ps_watch_targets s h \<noteq> None) \<and>
     (\<forall>ty ob t. obs_map (ps_observers s) ty = Some ob \<longrightarrow> t \<in> set (ob_watch_targets ob) \<longrightarrow>
        named t \<and> ps_watch_targets s (hash (enc t)) \<noteq> None)"

lemma pallet_inv_watched:
  "pallet_inv hash enc s \<Longrightarrow> obs_map (ps_observers s) ty = Some ob \<Longrightarrow> t \<in> set (ob_watch_targets ob) \<Longrightarrow>
   named t \<and> ps_watch_targets s (hash (enc t)) \<noteq> None"
  unfolding pallet_inv_def by blast

lemma pallet_inv_storage:
  "pallet_inv hash enc s \<Longrightarrow>
   (\<forall>h t. ps_watch_targets s h = Some t \<longrightarrow> h = hash (enc t) \<and> named t) \<and>
   (\<forall>h. WatchTargetRegistered h \<in> set (ps_events s) \<longrightarrow> ps_watch_targets s h \<noteq> None)"
  unfolding pallet_inv_def by blast

text \<open>A fresh observer watches nothing.\<close>

definition fresh_constructor :: "(('w, 'ev, 'st) observer, dispatch_error) res \<Rightarrow> bool" where
  "fresh_constructor new \<longleftrightarrow> (\<forall>ob. new = Ok ob \<longrightarrow> ob_watch_targets ob = [])"

lemma observers_inv:
  assumes "fresh_constructor new" and "ensure_observer new ty obs = (r, obs')" and "obs_map obs' ty' = Some ob"
  shows "obs_map obs ty' = Some ob \<or> ob_watch_targets ob = []"
  using assms
  by (auto simp: ensure_observer_def fresh_constructor_def split: if_splits option.splits res.splits)

lemma pallet_inv_observers:
  assumes "pallet_inv hash enc s"
    and new: "\<And>ty ob. obs_map obs ty = Some ob \<Longrightarrow> obs_map (ps_observers s) ty = Some ob \<or> ob_watch_targets ob = []"
  shows "pallet_inv hash enc (s\<lparr>ps_observers := obs\<rparr>)"
proof -
  have "named t \<and> ps_watch_targets s (hash (enc t)) \<noteq> None"
    if "obs_map obs ty = Some ob" "t \<in> set (ob_watch_targets ob)" for ty ob t
    using new [OF that(1)] that(2) assms(1) unfolding pallet_inv_def by auto
  with assms(1) show ?thesis unfolding pallet_inv_def by simp
qed

lemma initialize_observers:
  assumes "ensure_observer new ty (ps_observers s) = (r, obs)"
  shows "snd (on_initialize new ty n s) = s\<lparr>ps_observers := obs\<rparr>"
  by (cases r) (simp_all add: on_initialize_def assms)

lemma initialize_inv:
  assumes "fresh_constructor new" and "pallet_inv hash enc s"
  shows "pallet_inv hash enc (snd (on_initialize new ty n s))"
proof -
  obtain r obs where e: "ensure_observer new ty (ps_observers s) = (r, obs)"
    by (cases "ensure_observer new ty (ps_observers s)")
  show ?thesis unfolding initialize_observers [OF e]
    by (rule pallet_inv_observers [OF assms(2) observers_inv [OF assms(1) e]])
qed

text \<open>A registration that passes its checks.\<close>

definition stored :: "'h \<Rightarrow> watch_target \<Rightarrow> 'ob observers \<Rightarrow> ('h, 'ob) pallet_state \<Rightarrow> ('h, 'ob) pallet_state" where
  "stored h target obs s = s\<lparr>ps_watch_targets := (ps_watch_targets s)(h \<mapsto> target), ps_observers := obs\<rparr>"

definition told :: "nat \<Rightarrow> watch_target \<Rightarrow> ('w, 'ev, 'st) observer \<Rightarrow> ('w, 'ev, 'st) observer observers \<Rightarrow>
    ('w, 'ev, 'st) observer observers" where
  "told ty target ob obs = obs\<lparr>obs_map := (obs_map obs)(ty \<mapsto> observer_register_watch_target target ob)\<rparr>"

lemma register_run:
  assumes "ensure_observer new ty (ps_observers s) = (r, obs)" and "named target"
  shows "register_watch_target hash enc new ty (Signed who) target s =
     (case r of
        Panic m \<Rightarrow> (Panic m, stored (hash (enc target)) target obs s)
      | Err e \<Rightarrow> (Err e, stored (hash (enc target)) target obs s)
      | Ok found \<Rightarrow> (Ok (), deposit_event (WatchTargetRegistered (hash (enc target))) (stored (hash (enc target)) target
          (case found of None \<Rightarrow> obs | Some ob \<Rightarrow> told ty target ob obs) s)))"
proof -
  have e: "pallet_observer new ty (ps_observers s) = (r, obs)"
    using assms(1) by (simp add: pallet_observer_def)
  have n: "wt_module_name target \<noteq> []" "wt_function_name target \<noteq> []" using assms(2) by (simp_all add: named_def)
  show ?thesis
  proof (cases r)
    case (Ok found)
    then show ?thesis
      by (cases found) (simp_all add: register_watch_target_def ensure_signed_def Let_def e n stored_def told_def)
  qed (simp_all add: register_watch_target_def ensure_signed_def Let_def e n stored_def)
qed

lemma register_refused:
  "\<not> (\<exists>who. orig = Signed who) \<or> \<not> named target \<Longrightarrow>
   \<exists>e. register_watch_target hash enc new ty orig target s = (Err e, s)"
  by (cases orig) (simp_all add: register_watch_target_def ensure_signed_def named_def)

lemma stored_inv: "pallet_inv hash enc s \<Longrightarrow> named target \<Longrightarrow>
    (\<And>ty ob. obs_map obs ty = Some ob \<Longrightarrow> obs_map (ps_observers s) ty = Some ob \<or> ob_watch_targets ob = []) \<Longrightarrow>
    pallet_inv hash enc (stored (hash (enc target)) target obs s)"
proof -
  assume i: "pallet_inv hash enc s" and n: "named target"
    and new: "\<And>ty ob. obs_map obs ty = Some ob \<Longrightarrow> obs_map (ps_observers s) ty = Some ob \<or> ob_watch_targets ob = []"
  have "pallet_inv hash enc (s\<lparr>ps_watch_targets := (ps_watch_targets s)(hash (enc target) \<mapsto> target)\<rparr>)"
    using i n by (simp add: pallet_inv_def)
  from pallet_inv_observers [OF this, of obs] new
  show "pallet_inv hash enc (stored (hash (enc target)) target obs s)" by (simp add: stored_def)
qed

lemma deposit_inv: "pallet_inv hash enc s \<Longrightarrow> ps_watch_targets s h \<noteq> None \<Longrightarrow>
    pallet_inv hash enc (deposit_event (WatchTargetRegistered h) s)"
  by (simp add: pallet_inv_def deposit_event_def)

lemma told_inv:
  assumes "pallet_inv hash enc (stored (hash (enc target)) target obs s)" and "named target" and "obs_map obs ty = Some ob"
  shows "pallet_inv hash enc (stored (hash (enc target)) target (told ty target ob obs) s)"
proof -
  let ?s = "stored (hash (enc target)) target obs s"
  have old: "named t \<and> ps_watch_targets ?s (hash (enc t)) \<noteq> None"
    if "obs_map obs ty' = Some ob'" "t \<in> set (ob_watch_targets ob')" for ty' ob' t
    by (rule pallet_inv_watched [where ty = ty', OF assms(1) _ that(2)]) (simp add: stored_def that(1))
  have "named t \<and> ps_watch_targets ?s (hash (enc t)) \<noteq> None"
    if ob': "obs_map (told ty target ob obs) ty' = Some ob'" and t: "t \<in> set (ob_watch_targets ob')" for ty' ob' t
  proof (cases "ty' = ty")
    case True
    then have "t = target \<or> t \<in> set (ob_watch_targets ob)"
      using ob' t by (auto simp: told_def observer_register_watch_target_def)
    moreover have "ps_watch_targets ?s (hash (enc target)) \<noteq> None" by (simp add: stored_def)
    ultimately show ?thesis using old [OF assms(3), of t] assms(2) by blast
  next
    case False
    then show ?thesis using old ob' t by (simp add: told_def)
  qed
  then have "named t \<and> ps_watch_targets (stored (hash (enc target)) target (told ty target ob obs) s) (hash (enc t)) \<noteq> None"
    if "obs_map (ps_observers (stored (hash (enc target)) target (told ty target ob obs) s)) ty' = Some ob'"
      and "t \<in> set (ob_watch_targets ob')" for ty' ob' t
    using that by (simp add: stored_def)
  moreover have "ps_watch_targets (stored h t o1 s) = ps_watch_targets (stored h t o2 s)"
    "ps_events (stored h t o1 s) = ps_events (stored h t o2 s)"
    for h t and o1 o2 :: "('b, 'c, 'd) observer observers" by (simp_all add: stored_def)
  ultimately show ?thesis using pallet_inv_storage [OF assms(1)] unfolding pallet_inv_def by metis
qed

lemma register_inv:
  assumes "fresh_constructor new" and "pallet_inv hash enc s"
  shows "pallet_inv hash enc (snd (register_watch_target hash enc new ty orig target s))"
proof (cases "(\<exists>who. orig = Signed who) \<and> named target")
  case False
  then obtain e where "register_watch_target hash enc new ty orig target s = (Err e, s)"
    using register_refused [of orig target hash enc new ty s] by blast
  then show ?thesis using assms(2) by simp
next
  case True
  then obtain who where who: "orig = Signed who" and n: "named target" by blast
  obtain r obs where e: "ensure_observer new ty (ps_observers s) = (r, obs)"
    by (cases "ensure_observer new ty (ps_observers s)")
  let ?h = "hash (enc target)"
  have s2: "pallet_inv hash enc (stored ?h target obs s)"
    by (rule stored_inv [OF assms(2) n observers_inv [OF assms(1) e]])
  have dom: "ps_watch_targets (stored ?h target x s) ?h \<noteq> None" for x by (simp add: stored_def)
  show ?thesis
  proof (cases r)
    case (Ok found)
    have "pallet_inv hash enc (stored ?h target (case found of None \<Rightarrow> obs | Some ob \<Rightarrow> told ty target ob obs) s)"
    proof (cases found)
      case (Some ob)
      have "obs_map obs ty = Some ob"
        using e Ok Some by (auto simp: ensure_observer_def split: if_splits option.splits res.splits)
      with told_inv [OF s2 n this] Some show ?thesis by simp
    qed (simp add: s2)
    from deposit_inv [OF this dom] show ?thesis by (simp add: who register_run [OF e n] Ok)
  qed (simp_all add: who register_run [OF e n] s2)
qed

lemma pallet_reachable_inv:
  "pallet_reachable hash enc new s \<Longrightarrow> fresh_constructor new \<Longrightarrow> pallet_inv hash enc s"
proof (induction rule: pallet_reachable.induct)
  case start
  show ?case by (simp add: pallet_inv_def pallet_init_def observers_init_def)
next
  case (step s s')
  then show ?case by (auto elim!: pallet_step.cases simp: initialize_inv register_inv)
qed

text \<open>The byte bounds that the type \<open>BoundedVec\<close> puts on the fields of a target.\<close>

definition target_typed :: "watch_target \<Rightarrow> bool" where
  "target_typed t \<longleftrightarrow> length (wt_module_name t) \<le> 32 \<and> length (wt_function_name t) \<le> 32 \<and>
     (case wt_message_hash t of None \<Rightarrow> True | Some h \<Rightarrow> length h \<le> 64) \<and> length (wt_target_chain t) \<le> 32"

definition pallet_typed :: "('h, ('w, 'ev, 'st) observer) pallet_state \<Rightarrow> bool" where
  "pallet_typed s \<longleftrightarrow> (\<forall>h t. ps_watch_targets s h = Some t \<longrightarrow> target_typed t) \<and>
     (\<forall>ty ob t. obs_map (ps_observers s) ty = Some ob \<longrightarrow> t \<in> set (ob_watch_targets ob) \<longrightarrow> target_typed t)"

lemma watch_target_new_typed: "watch_target_new m f h c = Ok t \<Longrightarrow> target_typed t"
  by (cases h) (auto simp: watch_target_new_def bounded_def target_typed_def split: if_splits)

lemma pallet_typed_init: "pallet_typed pallet_init"
  by (simp add: pallet_typed_def pallet_init_def observers_init_def)

lemma typed_observers:
  assumes "pallet_typed s"
    and new: "\<And>ty ob. obs_map obs ty = Some ob \<Longrightarrow> obs_map (ps_observers s) ty = Some ob \<or> ob_watch_targets ob = []"
  shows "pallet_typed (s\<lparr>ps_observers := obs\<rparr>)"
proof -
  have "target_typed t" if "obs_map obs ty = Some ob" "t \<in> set (ob_watch_targets ob)" for ty ob t
    using new [OF that(1)] that(2) assms(1) unfolding pallet_typed_def by auto
  with assms(1) show ?thesis unfolding pallet_typed_def by simp
qed

lemma typed_stored:
  assumes "pallet_typed (s\<lparr>ps_observers := obs\<rparr>)" and "target_typed target"
  shows "pallet_typed (stored h target obs s)"
  using assms unfolding pallet_typed_def stored_def by simp

lemma typed_told:
  assumes "pallet_typed (s\<lparr>ps_observers := obs\<rparr>)" and "target_typed target" and "obs_map obs ty = Some ob"
  shows "pallet_typed (s\<lparr>ps_observers := told ty target ob obs\<rparr>)"
proof -
  have "target_typed t"
    if "obs_map (told ty target ob obs) ty' = Some ob'" "t \<in> set (ob_watch_targets ob')" for ty' ob' t
    using that assms unfolding pallet_typed_def told_def observer_register_watch_target_def
    by (cases "ty' = ty") auto
  with assms(1) show ?thesis unfolding pallet_typed_def by simp
qed

lemma typed_deposit: "pallet_typed (deposit_event ev s) = pallet_typed s"
  by (simp add: pallet_typed_def deposit_event_def)

lemma register_typed:
  assumes "fresh_constructor new" and "pallet_typed s" and "target_typed target"
  shows "pallet_typed (snd (register_watch_target hash enc new ty orig target s))"
proof (cases "(\<exists>who. orig = Signed who) \<and> named target")
  case False
  then obtain e where "register_watch_target hash enc new ty orig target s = (Err e, s)"
    using register_refused [of orig target hash enc new ty s] by blast
  then show ?thesis using assms(2) by simp
next
  case True
  then obtain who where who: "orig = Signed who" and n: "named target" by blast
  obtain r obs where e: "ensure_observer new ty (ps_observers s) = (r, obs)"
    by (cases "ensure_observer new ty (ps_observers s)")
  have o: "pallet_typed (s\<lparr>ps_observers := obs\<rparr>)"
    by (rule typed_observers [OF assms(2) observers_inv [OF assms(1) e]])
  show ?thesis
  proof (cases r)
    case (Ok found)
    have "pallet_typed (s\<lparr>ps_observers := (case found of None \<Rightarrow> obs | Some ob \<Rightarrow> told ty target ob obs)\<rparr>)"
    proof (cases found)
      case (Some ob)
      have "obs_map obs ty = Some ob"
        using e Ok Some by (auto simp: ensure_observer_def split: if_splits option.splits res.splits)
      from typed_told [OF o assms(3) this] Some show ?thesis by simp
    qed (simp add: o)
    from typed_stored [OF this assms(3)] show ?thesis
      by (simp add: who register_run [OF e n] Ok typed_deposit)
  qed (simp_all add: who register_run [OF e n] typed_stored [OF o assms(3)])
qed

text \<open>With a constructor that panics there is never an observer.\<close>

lemma panicking_never_creates:
  assumes "new = Panic m" and "obs_map obs = Map.empty" and "ensure_observer new ty obs = (r, obs')"
  shows "obs_map obs' = Map.empty \<and> obs_poisoned obs' \<and> (r = Ok None \<or> r = Panic m) \<and>
    (r = Ok None \<longleftrightarrow> obs_poisoned obs)"
  using assms by (auto simp: ensure_observer_def split: if_splits)

lemma panicking_step:
  assumes "new = Panic m" and "obs_map (ps_observers s) = Map.empty" and "pallet_step hash enc new s s'"
  shows "obs_map (ps_observers s') = Map.empty"
  using assms(3)
proof cases
  case (initialize ty n)
  obtain r obs where e: "ensure_observer new ty (ps_observers s) = (r, obs)"
    by (cases "ensure_observer new ty (ps_observers s)")
  with panicking_never_creates [OF assms(1,2) e] initialize show ?thesis
    by (cases r) (simp_all add: on_initialize_def)
next
  case (register ty orig target)
  obtain r obs where e: "ensure_observer new ty (ps_observers s) = (r, obs)"
    by (cases "ensure_observer new ty (ps_observers s)")
  note none = panicking_never_creates [OF assms(1,2) e]
  show ?thesis
  proof (cases "(\<exists>who. orig = Signed who) \<and> named target")
    case True
    then obtain who where "orig = Signed who" "named target" by blast
    then show ?thesis using register none register_run [OF e, of target hash enc who]
      by (auto simp: stored_def deposit_event_def)
  next
    case False
    then obtain e where "register_watch_target hash enc new ty orig target s = (Err e, s)"
      using register_refused [of orig target hash enc new ty s] by blast
    then show ?thesis using register assms(2) by simp
  qed
qed

lemma panicking_reachable:
  "pallet_reachable hash enc new s \<Longrightarrow> new = Panic m \<Longrightarrow> obs_map (ps_observers s) = Map.empty"
proof (induction rule: pallet_reachable.induct)
  case start
  show ?case by (simp add: pallet_init_def observers_init_def)
next
  case (step s s')
  then show ?case using panicking_step by blast
qed

section \<open>Properties\<close>

text \<open>C16. In every reachable state of the pallet the storage is keyed by the hashes of its targets, every
  stored target has a module and a function name, every announced registration is in the storage, and an
  observer only watches targets that are named and stored under their hash.\<close>

theorem reachable_pallet_state:
  assumes "pallet_reachable hash enc new s" and "\<forall>ob. new = Ok ob \<longrightarrow> ob_watch_targets ob = []"
  shows "(\<forall>h t. ps_watch_targets s h = Some t \<longrightarrow>
        h = hash (enc t) \<and> wt_module_name t \<noteq> [] \<and> wt_function_name t \<noteq> []) \<and>
    (\<forall>h. WatchTargetRegistered h \<in> set (ps_events s) \<longrightarrow> ps_watch_targets s h \<noteq> None) \<and>
    (\<forall>ty ob t. obs_map (ps_observers s) ty = Some ob \<longrightarrow> t \<in> set (ob_watch_targets ob) \<longrightarrow>
        wt_module_name t \<noteq> [] \<and> wt_function_name t \<noteq> [] \<and> ps_watch_targets s (hash (enc t)) \<noteq> None)"
  using pallet_reachable_inv [OF assms(1)] assms(2)
  unfolding fresh_constructor_def pallet_inv_def named_def by simp

definition encode_names :: "watch_target \<Rightarrow> bytes" where
  "encode_names t = wt_module_name t @ wt_function_name t"

definition idle_observer :: "(unit, bytes, unit) observer" where
  "idle_observer = \<lparr>ob_watch_targets = [], ob_generate_proof = (\<lambda>t c w. Err (Internal [])),
     ob_message_router = None, ob_events = (\<lambda>h w. Ok []), ob_is_final = (\<lambda>b w. (Ok False, w))\<rparr>"

theorem reachable_pallet_state_witness:
  "ps_watch_targets (snd (register_watch_target id encode_names (Ok idle_observer) 0 (Signed [1])
      (sample_target None) pallet_init)) [1, 2, 3] = Some (sample_target None) \<and>
   [1, 2, 3] = encode_names (sample_target None) \<and> wt_module_name (sample_target None) \<noteq> []"
proof -
  let ?s = "snd (register_watch_target id encode_names (Ok idle_observer) 0 (Signed [1]) (sample_target None) pallet_init)"
  have "pallet_reachable id encode_names (Ok idle_observer) ?s"
    by (rule pallet_reachable.step [OF pallet_reachable.start pallet_step.register])
  moreover have "\<forall>ob. Ok idle_observer = (Ok ob :: ((unit, bytes, unit) observer, dispatch_error) res) \<longrightarrow>
      ob_watch_targets ob = []"
    by (auto simp: idle_observer_def)
  ultimately have inv: "ps_watch_targets ?s h = Some t \<Longrightarrow> h = id (encode_names t) \<and> wt_module_name t \<noteq> []" for h t
    using reachable_pallet_state [of id encode_names "Ok idle_observer" ?s] by blast
  have "ps_watch_targets ?s [1, 2, 3] = Some (sample_target None)"
    by (simp add: register_watch_target_def ensure_signed_def pallet_observer_def ensure_observer_def pallet_init_def
        observers_init_def deposit_event_def sample_target_def encode_names_def Let_def)
  with inv [OF this] show ?thesis by simp
qed




text \<open>
  The observer that \<open>ensure_observer\<close> makes: a Merkle generator on the default client, the default router and
  \<open>SSMPObserver::new\<close>. \<open>client\<close> is the handle of the default client and \<open>w\<close> the world at the construction.
\<close>

definition default_observer ::
    "'vs externs \<Rightarrow> proof_externs \<Rightarrow> ('w \<Rightarrow> nat \<times> nat) \<Rightarrow> ('w \<Rightarrow> client) \<Rightarrow> metrics \<Rightarrow> predicate_config \<Rightarrow>
     (('vs, 'o) grandpa_finality \<Rightarrow> block_ref \<Rightarrow> 'w \<Rightarrow> (bool, finality_error) res \<times> 'w) \<Rightarrow>
     (frost_message \<Rightarrow> 'w \<Rightarrow> ('st, string) res \<times> 'w) option \<Rightarrow>
     (h256 \<Rightarrow> 'w \<Rightarrow> ('ev list, string) res) \<Rightarrow> 'w \<Rightarrow> (('w, 'ev, 'st) observer, 'e) res" where
  "default_observer X PX clock client g default_cfg finality_of router evs w =
     (let proof_gen = DynMerkle (merkle_generator_new client)
      in observer_new X (client w) g default_cfg finality_of (dyn_generate_proof PX clock proof_gen) router evs)"

lemma panicking_never_exists:
  assumes "pallet_reachable hash enc new s" and "new = Panic m"
  shows "obs_map (ps_observers s) = Map.empty \<and>
    (case ensure_observer new ty (ps_observers s) of
       (r, obs) \<Rightarrow> obs_map obs = Map.empty \<and> obs_poisoned obs \<and>
         r = (if obs_poisoned (ps_observers s) then Ok None else Panic m))"
  using panicking_reachable [OF assms] by (simp add: ensure_observer_def assms(2))

lemma default_observer_never_exists:
  assumes "voter_set_laws X"
    and "pallet_reachable hash enc (default_observer X PX clock client g cfg finality_of router evs w) s"
  shows "obs_map (ps_observers s) = Map.empty"
  by (rule panicking_reachable [OF assms(2)]) (simp add: default_observer_def observer_new_panics [OF assms(1)])

text \<open>C22. With the observer of this crate the pallet never has an observer: in every run its table stays
  empty, each attempt to get one answers nothing or panics, and the attempt that panics poisons the lock
  for all later ones. Registered targets are stored and never watched.\<close>

theorem observer_never_exists:
  assumes "voter_set_laws X"
    and "pallet_reachable hash enc (observer_new X c g cfg finality_of gen router evs) s"
  shows "obs_map (ps_observers s) = Map.empty \<and>
    (case ensure_observer (observer_new X c g cfg finality_of gen router evs) ty (ps_observers s) of
       (r, obs) \<Rightarrow> obs_map obs = Map.empty \<and> obs_poisoned obs \<and>
         r = (if obs_poisoned (ps_observers s) then Ok None else Panic ''Empty voter set is valid''))"
  by (rule panicking_never_exists [OF assms(2) observer_new_panics [OF assms(1)]])

definition sample_new :: "((unit, bytes, unit) observer, dispatch_error) res" where
  "sample_new = observer_new list_externs (sample_client 1 3) metrics_init sample_cfg
     (\<lambda>(gf :: (authority_list, unit) grandpa_finality) b w. (Ok True, w)) (\<lambda>t c w. Err (Internal [])) None
     (\<lambda>h w. Ok [])"

theorem observer_never_exists_witness:
  "obs_map (ps_observers (snd (on_initialize sample_new 0 1 (pallet_init :: (bytes, (unit, bytes, unit) observer) pallet_state)))) =
     Map.empty"
proof -
  have "pallet_reachable id encode_names sample_new (snd (on_initialize sample_new 0 1 pallet_init))"
    by (rule pallet_reachable.step [OF pallet_reachable.start pallet_step.initialize])
  from observer_never_exists [OF list_externs_laws this [unfolded sample_new_def]] show ?thesis
    unfolding sample_new_def by blast
qed

end
