(* ===== verification/Registry.thy ===== *)
theory Registry
  imports Wrapper_Types
begin

text \<open>
  Proof verification (\<open>src/verification/mod.rs\<close>): verifiers as values of their two trait methods, the
  Merkle and the BLS verifier, and the registry that asks the first verifier supporting a proof's type.
  The locale \<open>proof_system\<close> joins a generator to a verifier for the same types; the registry lemmas are
  proved in it and used for the generators of \<open>src/proof/generator.rs\<close>.
\<close>

section \<open>Verifiers\<close>

text \<open>\<open>VerificationParams\<close> belongs to \<open>frost_protocol\<close> and is passed through unread.\<close>

record 'ps verifier =
  vf_verify_proof :: "state_proof \<Rightarrow> 'ps \<Rightarrow> (bool, state_error) res"
  vf_supported_types :: "proof_type list"

definition merkle_verify_proof :: "state_proof \<Rightarrow> 'ps \<Rightarrow> (bool, state_error) res" where
  "merkle_verify_proof p ps = Ok True"

definition merkle_verifier :: "'ps verifier" where
  "merkle_verifier = \<lparr>vf_verify_proof = merkle_verify_proof, vf_supported_types = [PtBasic]\<rparr>"

definition bls_verify_proof :: "state_proof \<Rightarrow> 'ps \<Rightarrow> (bool, state_error) res" where
  "bls_verify_proof p ps = Ok True"

definition bls_verifier :: "'ps verifier" where
  "bls_verifier = \<lparr>vf_verify_proof = bls_verify_proof, vf_supported_types = [PtSignature]\<rparr>"

section \<open>The registry\<close>

record 'ps registry =
  rg_verifiers :: "'ps verifier list"

definition registry_new :: "'ps registry" where
  "registry_new = \<lparr>rg_verifiers = []\<rparr>"

definition register_verifier :: "'ps verifier \<Rightarrow> 'ps registry \<Rightarrow> 'ps registry" where
  "register_verifier v r = r\<lparr>rg_verifiers := rg_verifiers r @ [v]\<rparr>"

fun try_verifiers :: "'ps verifier list \<Rightarrow> state_proof \<Rightarrow> 'ps \<Rightarrow> (bool, state_error) res" where
  "try_verifiers [] p ps = Err (Internal ''No suitable verifier found'')"
| "try_verifiers (v # vs) p ps =
     (if type_of_proof p \<in> set (vf_supported_types v) then vf_verify_proof v p ps
      else try_verifiers vs p ps)"

definition registry_verify_proof :: "'ps registry \<Rightarrow> state_proof \<Rightarrow> 'ps \<Rightarrow> (bool, state_error) res" where
  "registry_verify_proof r p ps = try_verifiers (rg_verifiers r) p ps"

section \<open>Lemmas\<close>

definition supports :: "proof_type \<Rightarrow> 'ps verifier \<Rightarrow> bool" where
  "supports ty v \<longleftrightarrow> ty \<in> set (vf_supported_types v)"

lemma try_verifiers_find:
  "try_verifiers vs p ps = (case find (supports (type_of_proof p)) vs of
     None \<Rightarrow> Err (Internal ''No suitable verifier found'')
   | Some v \<Rightarrow> vf_verify_proof v p ps)"
  by (induction vs) (simp_all add: supports_def)

lemma find_append: "find P (xs @ ys) = (case find P xs of None \<Rightarrow> find P ys | Some x \<Rightarrow> Some x)"
  by (induction xs) simp_all

lemma verifiers_of_registered:
  "rg_verifiers (fold register_verifier vs r) = rg_verifiers r @ vs"
  by (induction vs arbitrary: r) (simp_all add: register_verifier_def)

lemma registry_find:
  "registry_verify_proof (fold register_verifier vs registry_new) p ps =
     (case find (supports (type_of_proof p)) vs of
        None \<Rightarrow> Err (Internal ''No suitable verifier found'')
      | Some v \<Rightarrow> vf_verify_proof v p ps)"
  by (simp add: registry_verify_proof_def try_verifiers_find verifiers_of_registered registry_new_def)

section \<open>Generators and verifiers that fit together\<close>

locale proof_system = proof_generator generate supported encoding
  for generate :: "state_transition \<Rightarrow> generation_config \<Rightarrow> (state_proof, state_error) res"
    and supported :: "proof_type list"
    and encoding :: "proof_data \<Rightarrow> (bytes, string) res" +
  fixes v :: "'ps verifier"
  assumes covers: "set supported \<subseteq> set (vf_supported_types v)"
    and accepts: "generate t cfg = Ok p \<Longrightarrow> vf_verify_proof v p ps = Ok True"
begin

text \<open>A generated proof verifies through any registry in which this verifier comes first for its type.\<close>

lemma generated_verifies:
  assumes "generate t cfg = Ok p" and "\<And>u. u \<in> set before \<Longrightarrow> \<not> supports (type_of_proof p) u"
  shows "registry_verify_proof (fold register_verifier (before @ v # after) registry_new) p ps = Ok True"
proof -
  have "find (supports (type_of_proof p)) before = None" using assms(2) by (simp add: find_None_iff)
  moreover have "supports (type_of_proof p) v"
    using generated_supported [OF assms(1)] covers by (auto simp: supports_def)
  ultimately show ?thesis using accepts [OF assms(1)] by (simp add: registry_find find_append del: fold_append)
qed

end

interpretation bls_system: proof_system "bls_generate PX c auths now1 now2" bls_supported_types "json_to_vec PX"
  bls_verifier for PX c auths now1 now2
  by unfold_locales (simp_all add: bls_supported_types_def bls_verifier_def bls_verify_proof_def)

section \<open>Properties\<close>

text \<open>C37. Dispatch: a registry built by registering verifiers one after the other answers with the first
  registered verifier that supports the proof's type and fails when none does; a later registration
  changes no answer that an earlier verifier gives.\<close>

theorem registry_first_match:
  "registry_verify_proof (fold register_verifier vs registry_new) p ps =
     (case find (\<lambda>v. type_of_proof p \<in> set (vf_supported_types v)) vs of
        None \<Rightarrow> Err (Internal ''No suitable verifier found'')
      | Some v \<Rightarrow> vf_verify_proof v p ps) \<and>
   ((\<exists>v \<in> set vs. type_of_proof p \<in> set (vf_supported_types v)) \<longrightarrow>
     registry_verify_proof (register_verifier u (fold register_verifier vs registry_new)) p ps =
     registry_verify_proof (fold register_verifier vs registry_new) p ps)"
proof -
  have eq: "supports (type_of_proof p) = (\<lambda>v. type_of_proof p \<in> set (vf_supported_types v))"
    by (rule ext) (simp add: supports_def)
  have "register_verifier u (fold register_verifier vs registry_new) = fold register_verifier (vs @ [u]) registry_new"
    by simp
  moreover have "registry_verify_proof (fold register_verifier (vs @ [u]) registry_new) p ps =
      registry_verify_proof (fold register_verifier vs registry_new) p ps"
    if ex: "\<exists>v \<in> set vs. type_of_proof p \<in> set (vf_supported_types v)"
  proof -
    have "find (supports (type_of_proof p)) vs \<noteq> None" using ex by (auto simp: find_None_iff eq)
    then obtain v where "find (supports (type_of_proof p)) vs = Some v" by blast
    then show ?thesis by (simp add: registry_find find_append del: fold_append)
  qed
  ultimately show ?thesis using registry_find [of vs p ps] by (simp add: eq del: fold_append)
qed

definition sample_proof :: "proof_type \<Rightarrow> state_proof" where
  "sample_proof ty = \<lparr>proof_transition = sample_transition None, proof_content = \<lparr>pd_proof_type = ty, pd_data = [],
     pd_metadata = None, pd_generated_at = 0, pd_expires_at = None, pd_version = 1\<rparr>\<rparr>"

theorem registry_first_match_witness:
  "registry_verify_proof (register_verifier merkle_verifier
     (fold register_verifier [merkle_verifier, bls_verifier] registry_new)) (sample_proof PtSignature) () = Ok True"
  using registry_first_match [of "[merkle_verifier, bls_verifier]" "sample_proof PtSignature" "()" merkle_verifier]
  by (simp add: type_of_proof_def sample_proof_def merkle_verifier_def bls_verifier_def bls_verify_proof_def)

text \<open>Proofs of the BLS generator verify through any registry that lists the BLS verifier before every
  other verifier of signature proofs.\<close>

lemma bls_proofs_verify:
  assumes "bls_generate PX c auths now1 now2 t cfg = Ok p"
    and "\<forall>u \<in> set before. PtSignature \<notin> set (vf_supported_types u)"
  shows "registry_verify_proof (fold register_verifier (before @ bls_verifier # after) registry_new) p ps = Ok True"
proof (rule bls_system.generated_verifies [OF assms(1)])
  have "type_of_proof p = PtSignature"
    using bls.generated_supported [OF assms(1)] by (simp add: bls_supported_types_def)
  then show "\<not> supports (type_of_proof p) u" if "u \<in> set before" for u
    using that assms(2) by (simp add: supports_def)
qed

lemma bls_proofs_verify_witness:
  "\<exists>p. bls_generate sample_proof_externs sample_proof_client [] 0 0 (sample_transition None)
     (generation_config_default\<lparr>gc_proof_type := PtSignature\<rparr>) = Ok p \<and>
     registry_verify_proof (fold register_verifier [merkle_verifier, bls_verifier] registry_new) p () = Ok True"
proof -
  obtain p where p: "bls_generate sample_proof_externs sample_proof_client [] 0 0 (sample_transition None)
     (generation_config_default\<lparr>gc_proof_type := PtSignature\<rparr>) = Ok p"
    using sample_bls_ok by (auto simp: is_ok_iff)
  have "\<forall>u \<in> set [merkle_verifier :: unit verifier]. PtSignature \<notin> set (vf_supported_types u)"
    by (simp add: merkle_verifier_def)
  from bls_proofs_verify [OF p this, of "[]"] p show ?thesis by auto
qed

text \<open>Proofs of the Merkle generator are refused by every registry of the two built-in verifiers: the
  generator labels them with the custom type "Merkle", the Merkle verifier supports the basic type.\<close>

lemma merkle_proofs_find_no_verifier:
  assumes "merkle_generate PX c now1 now2 t cfg = Ok p" and "set vs \<subseteq> {merkle_verifier, bls_verifier}"
  shows "registry_verify_proof (fold register_verifier vs registry_new) p ps =
    Err (Internal ''No suitable verifier found'')"
proof -
  have "type_of_proof p = PtCustom ''Merkle''"
    using merkle.generated_supported [OF assms(1)] by (simp add: merkle_supported_types_def)
  then have "find (supports (type_of_proof p)) vs = None"
    using assms(2) by (auto simp: find_None_iff supports_def merkle_verifier_def bls_verifier_def)
  then show ?thesis by (simp add: registry_find)
qed

lemma merkle_proofs_find_no_verifier_witness:
  "\<exists>p. merkle_generate sample_proof_externs sample_proof_client 0 0 (sample_transition (Some [1]))
     generation_config_default = Ok p \<and>
     registry_verify_proof (fold register_verifier [merkle_verifier, bls_verifier] registry_new) p () =
       Err (Internal ''No suitable verifier found'')"
proof -
  obtain p where p: "merkle_generate sample_proof_externs sample_proof_client 0 0 (sample_transition (Some [1]))
      generation_config_default = Ok p"
    using sample_merkle_ok [of "[1]"] by (auto simp: is_ok_iff)
  from merkle_proofs_find_no_verifier [OF p, of "[merkle_verifier, bls_verifier]" "()"] p show ?thesis by simp
qed

end
