(* ===== verification/System.thy ===== *)
theory System
  imports Pallet Registry
begin

text \<open>
  The parts wired together as \<open>ensure_observer\<close> and \<open>SSMPObserver::new_with_runtime_authorities\<close> do
  (\<open>src/lib.rs\<close>, \<open>src/observer/mod.rs\<close>): an observer whose predicate runs \<open>GrandpaFinality\<close> over the
  verification client, whose generator reads the chain of that client, and whose router is an adapter.
  The router behind the adapter is the mock of \<open>src/tests.rs\<close>. The interpretation makes the delivery
  lemma of the observer a fact about this system.
\<close>

section \<open>The system\<close>

record 'vs system =
  sys_node :: "'vs node"
  sys_router :: "mock_network router_adapter"
  sys_clock :: int

definition system_route :: "frost_message \<Rightarrow> 'vs system \<Rightarrow> (route_status, string) res \<times> 'vs system" where
  "system_route m s = (case adapter_route_message
       (mock_router :: (mock_network, unit, route_status, route_metrics, string) inner_router) m (sys_router s) of
     (r, a) \<Rightarrow> (r, s\<lparr>sys_router := a\<rparr>))"

definition system_is_final ::
    "'vs externs \<Rightarrow> predicate_config \<Rightarrow> block_ref \<Rightarrow> 'vs system \<Rightarrow> (bool, finality_error) res \<times> 'vs system" where
  "system_is_final X cfg b s = (case grandpa_is_final X cfg (\<lambda>_ nd. nd) b (sys_node s) of
     (r, nd) \<Rightarrow> (r, s\<lparr>sys_node := nd\<rparr>))"

type_synonym generator =
  "client \<Rightarrow> nat \<Rightarrow> nat \<Rightarrow> state_transition \<Rightarrow> generation_config \<Rightarrow> (state_proof, state_error) res"

text \<open>
  A generator object of the crate as the observer calls it; \<open>ensure_observer\<close> makes a Merkle generator with
  the client of the observer.
\<close>

definition crate_generator :: "proof_externs \<Rightarrow> client dyn_proof_generator \<Rightarrow> generator" where
  "crate_generator PX g c now1 now2 t cfg = dyn_generate_proof PX (\<lambda>_. (now1, now2)) g t cfg c"

definition pallet_generator :: "client dyn_proof_generator" where
  "pallet_generator = DynMerkle (merkle_generator_new id)"

lemma pallet_generator_merkle: "crate_generator PX pallet_generator = merkle_generate PX"
  by (intro ext) (simp add: crate_generator_def pallet_generator_def dyn_generate_proof_def merkle_generator_new_def)

definition system_observer ::
    "'vs externs \<Rightarrow> predicate_config \<Rightarrow> generator \<Rightarrow> (h256 \<Rightarrow> ('ev list, string) res) \<Rightarrow> watch_target list \<Rightarrow>
     ('vs system, 'ev, route_status) observer" where
  "system_observer X cfg gen evs ts = \<lparr>ob_watch_targets = ts,
     ob_generate_proof = (\<lambda>t c s. gen (nd_client (sys_node s)) (nat (sys_clock s)) (nat (sys_clock s)) t c),
     ob_message_router = Some system_route,
     ob_events = (\<lambda>h s. evs h),
     ob_is_final = system_is_final X cfg\<rparr>"

definition sent_messages :: "'vs system \<Rightarrow> frost_message list" where
  "sent_messages s = mn_messages (adapter_inner (sys_router s))"

section \<open>The delivery contract holds of the system\<close>

lemma system_route_frame:
  "sys_node (snd (system_route m s)) = sys_node s" "sys_clock (snd (system_route m s)) = sys_clock s"
  by (simp_all add: system_route_def split: prod.splits)

interpretation system: finality_observer system_route sent_messages OX "system_observer X cfg gen evs ts"
  for OX :: "('vs system, 'ev) observer_externs" and X :: "'vs externs" and cfg gen evs ts
proof
  fix m st and s s' :: "'vs system"
  show "sent_messages s' = sent_messages s @ [m]" if "system_route m s = (Ok st, s')"
    using that mock_adapter.adapted.routed [of m "sys_router s"]
    by (auto simp: system_route_def sent_messages_def split: prod.splits)
  show "sent_messages s' = sent_messages s" if "system_route m s = (r, s')" and "\<not> is_ok r" for r
    using that mock_adapter.adapted.not_routed [of m "sys_router s"]
    by (auto simp: system_route_def sent_messages_def split: prod.splits)
qed (simp_all add: system_observer_def system_route_frame)

section \<open>Lemmas: one notification\<close>

text \<open>The block a notification is about.\<close>

definition notified_block :: "('w, 'ev) observer_externs \<Rightarrow> finality_notification \<Rightarrow> block_ref" where
  "notified_block OX n = \<lparr>br_chain_id = default_chain_id OX, br_number = u32_to_u64 (fn_number n), br_hash = fn_hash n\<rparr>"

lemma handle_system:
  "handle_finality_notification OX (system_observer X cfg gen evs ts) n s =
     (case grandpa_is_final X cfg (\<lambda>_ nd. nd) (notified_block OX n) (sys_node s) of
        (Ok fin, nd) \<Rightarrow> if fin
          then handle_targets OX (system_observer X cfg gen evs ts) (notified_block OX n) ts (s\<lparr>sys_node := nd\<rparr>)
          else (Ok (), s\<lparr>sys_node := nd\<rparr>)
      | (Err e, nd) \<Rightarrow> (Err (from_finality_error OX e), s\<lparr>sys_node := nd\<rparr>)
      | (Panic m, nd) \<Rightarrow> (Panic m, s\<lparr>sys_node := nd\<rparr>))"
proof -
  have o: "ob_is_final (system_observer X cfg gen evs ts) = system_is_final X cfg"
    "ob_watch_targets (system_observer X cfg gen evs ts) = ts"
    by (simp_all add: system_observer_def)
  obtain r nd where "grandpa_is_final X cfg (\<lambda>_ nd. nd) (notified_block OX n) (sys_node s) = (r, nd)"
    by (cases "grandpa_is_final X cfg (\<lambda>_ nd. nd) (notified_block OX n) (sys_node s)")
  then show ?thesis
    by (cases r) (simp_all add: handle_finality_notification_def try_then_def with_err_def o Let_def
        notified_block_def [symmetric] system_is_final_def)
qed

lemma route_proof_node: "sys_node (snd (route_proof OX (system_observer X cfg gen evs ts) p s)) = sys_node s"
  by (simp add: route_proof_def system_observer_def case_prod_beta system_route_frame)

lemma handle_targets_node:
  "sys_node (snd (handle_targets OX (system_observer X cfg gen evs us) b ts s)) = sys_node s"
proof (induction ts arbitrary: s)
  case (Cons t ts)
  have h: "sys_node (snd (handle_target OX (system_observer X cfg gen evs us) b t s)) = sys_node s" for s
    by (rule handle_target_cases [of OX "system_observer X cfg gen evs us" b s t]) (simp_all add: route_proof_node)
  have "sys_node (snd (try_then (handle_target OX (system_observer X cfg gen evs us) b t)
      (\<lambda>_. handle_targets OX (system_observer X cfg gen evs us) b ts) s)) = sys_node s"
    by (rule try_then_keeps [where P = "\<lambda>v. sys_node v = sys_node s"]) (simp_all add: h Cons)
  then show ?case by simp
qed simp

lemma handled_not_final:
  assumes "handle_finality_notification OX (system_observer X cfg gen evs ts) n s = (r, s')"
    and "grandpa_is_final X cfg (\<lambda>_ nd. nd) (notified_block OX n) (sys_node s) = (f, nd)" and "f \<noteq> Ok True"
  shows "s' = s\<lparr>sys_node := nd\<rparr>" "sent_messages s' = sent_messages s"
proof -
  show "s' = s\<lparr>sys_node := nd\<rparr>" using assms by (cases f) (auto simp: handle_system)
  then show "sent_messages s' = sent_messages s" by (simp add: sent_messages_def)
qed

lemma handled_final:
  assumes "handle_finality_notification OX (system_observer X cfg gen evs ts) n s = (r, s')"
    and "grandpa_is_final X cfg (\<lambda>_ nd. nd) (notified_block OX n) (sys_node s) = (Ok True, nd)"
  shows "sys_node s' = nd"
    and "\<exists>us ps. sent_messages s' = sent_messages s @ map (routed_message OX) ps \<and>
      list_all2 (proof_for OX (system_observer X cfg gen evs ts) (notified_block OX n) (s\<lparr>sys_node := nd\<rparr>)) us ps \<and>
      prefix us (filter (target_matches OX (system_observer X cfg gen evs ts) (notified_block OX n)
        (s\<lparr>sys_node := nd\<rparr>)) ts) \<and>
      (is_ok r \<longrightarrow> us = filter (target_matches OX (system_observer X cfg gen evs ts) (notified_block OX n)
        (s\<lparr>sys_node := nd\<rparr>)) ts)"
proof -
  have h: "handle_targets OX (system_observer X cfg gen evs ts) (notified_block OX n) ts (s\<lparr>sys_node := nd\<rparr>) = (r, s')"
    using assms by (simp add: handle_system)
  show "sys_node s' = nd"
    using handle_targets_node [of OX X cfg gen evs ts "notified_block OX n" ts "s\<lparr>sys_node := nd\<rparr>"] h by simp
  have "sent_messages (s\<lparr>sys_node := nd\<rparr>) = sent_messages s" by (simp add: sent_messages_def)
  then show "\<exists>us ps. sent_messages s' = sent_messages s @ map (routed_message OX) ps \<and>
      list_all2 (proof_for OX (system_observer X cfg gen evs ts) (notified_block OX n) (s\<lparr>sys_node := nd\<rparr>)) us ps \<and>
      prefix us (filter (target_matches OX (system_observer X cfg gen evs ts) (notified_block OX n)
        (s\<lparr>sys_node := nd\<rparr>)) ts) \<and>
      (is_ok r \<longrightarrow> us = filter (target_matches OX (system_observer X cfg gen evs ts) (notified_block OX n)
        (s\<lparr>sys_node := nd\<rparr>)) ts)"
    using system.targets_delivered [OF h] by simp
qed

text \<open>
  No generator of the crate proves an observed transition: the configuration of the observer is the default
  one, whose type only the Merkle generator supports, and the transition carries no data.
\<close>

lemma crate_never_generates:
  assumes "merkle_root_laws PX" and "generate_state_transition OX now b t = Ok tr"
  shows "dyn_generate_proof PX clock g (ssmp_into tr) generation_config_default w \<noteq> Ok p"
proof (cases g)
  case (DynMerkle m)
  have "merkle_root PX (merkle_leaves []) = None" using assms(1) by (simp add: merkle_root_laws_def)
  with transition_Ok [OF assms(2)] DynMerkle show ?thesis
    by (auto simp: dyn_generate_proof_def merkle_generate_def Let_def and_then_eq_Ok split: if_splits)
next
  case (DynBls bg)
  then have "gc_proof_type generation_config_default \<notin> set (dyn_supported_types g)"
    by (simp add: dyn_supported_types_def bls_supported_types_def generation_config_default_def)
  from dyn.unsupported [OF this] show ?thesis by simp
qed

lemma crate_never_proves:
  assumes "merkle_root_laws PX"
  shows "\<not> proof_for OX (system_observer X cfg (crate_generator PX g) evs ts) b s t p"
  by (auto simp: proof_for_def system_observer_def crate_generator_def crate_never_generates [OF assms])

lemma delivered:
  assumes "handle_finality_notification OX (system_observer X cfg gen evs ts) n s = (r, s')"
  shows "(sent_messages s' = sent_messages s) \<or>
    (\<exists>nd. grandpa_is_final X cfg (\<lambda>_ nd. nd) (notified_block OX n) (sys_node s) = (Ok True, nd) \<and> sys_node s' = nd)"
proof -
  obtain f nd where f: "grandpa_is_final X cfg (\<lambda>_ nd. nd) (notified_block OX n) (sys_node s) = (f, nd)"
    by (cases "grandpa_is_final X cfg (\<lambda>_ nd. nd) (notified_block OX n) (sys_node s)")
  then show ?thesis
    using handled_final(1) [OF assms, of nd] handled_not_final(2) [OF assms f] by (cases "f = Ok True") auto
qed

section \<open>A sample system\<close>

text \<open>A system whose generator always produces a proof, for the witnesses.\<close>

definition sample_system :: "authority_list system" where
  "sample_system = \<lparr>sys_node = sample_node 2 3, sys_router = adapter_new mock_network_default, sys_clock = 0\<rparr>"

definition sample_generator :: generator where
  "sample_generator c n1 n2 t cfg = Ok (sample_proof PtSignature)"

definition sample_notification :: finality_notification where
  "sample_notification = \<lparr>fn_hash = 1, fn_number = 1, fn_justification = None\<rparr>"

definition sample_events :: "h256 \<Rightarrow> (bytes list, string) res" where
  "sample_events h = Ok [[0, 2, 3, 1]]"

definition sample_message :: frost_message where
  "sample_message = \<lparr>fm_message_type = MtStateTransition, fm_payload = [], fm_source = ''source'', fm_target = None\<rparr>"

abbreviation sample_observer :: "generator \<Rightarrow> (authority_list system, bytes, route_status) observer" where
  "sample_observer gen \<equiv> system_observer list_externs sample_cfg gen sample_events [sample_target None]"

abbreviation sys_externs :: "(authority_list system, bytes) observer_externs" where
  "sys_externs \<equiv> sample_externs"

lemma sample_chain: "default_chain_id sys_externs = ChainId ''default''"
  by (simp add: sample_externs_def)

lemma sat_1: "u64_to_u32_sat 1 = 1"
  by (simp add: u64_to_u32_sat_def)

lemma sample_final_at:
  "grandpa_is_final list_externs sample_cfg (\<lambda>_ nd. nd) (notified_block sys_externs sample_notification) (sample_node 2 3) =
     (Ok True, sample_node 2 3)"
  using is_final_finalized [of "sample_node 2 3" "notified_block sys_externs sample_notification" _ None list_externs
      sample_cfg, OF _ _ _ _ _ sample_threshold] sample_header [of 2 3]
  by (simp add: sample_node_def notified_block_def sample_notification_def sample_cfg_def word_le_nat_alt sat_1)
    (simp add: sample_client_def)

lemma sample_event: "event_matches_target sys_externs [0, 2, 3, 1] (sample_target None) = Ok True"
  by (simp add: event_matches_target_def event_match_cases Let_def sample_externs_def sample_target_def
      sublist_Cons_right)

lemma sample_matches:
  "matches_watch_target sys_externs (sample_observer gen) b (sample_target None) s = Ok True"
  by (simp add: matches_watch_target_def system_observer_def sample_events_def sample_event)

lemma sample_run:
  "handle_finality_notification sys_externs (sample_observer sample_generator) sample_notification sample_system =
     (Ok (), sample_system\<lparr>sys_router := RouterAdapter (mock_network_default\<lparr>mn_messages := [sample_message]\<rparr>)\<rparr>)"
proof -
  have node: "sys_node sample_system = sample_node 2 3" "sample_system\<lparr>sys_node := sample_node 2 3\<rparr> = sample_system"
    by (simp_all add: sample_system_def)
  obtain tr where tr: "generate_state_transition sys_externs (system_time sys_externs sample_system)
      (notified_block sys_externs sample_notification) (sample_target None) = Ok tr"
    using transition_total by blast
  have gen: "ob_generate_proof (sample_observer sample_generator) t c s = Ok (sample_proof PtSignature)" for t c s
    by (simp add: system_observer_def sample_generator_def)
  have "route_proof sys_externs (sample_observer sample_generator) (sample_proof PtSignature) sample_system =
      (Ok (), sample_system\<lparr>sys_router := RouterAdapter (mock_network_default\<lparr>mn_messages := [sample_message]\<rparr>)\<rparr>)"
    by (simp add: route_proof_def system_observer_def system_route_def adapter_route_message_def with_inner_def
        mock_router_def mock_route_message_def mock_send_to_def try_then_def sample_system_def adapter_new_def
        mock_network_default_def routed_message_def sample_externs_def sample_proof_def sample_message_def)
  then show ?thesis
    by (simp add: handle_system node sample_final_at try_then_def handle_target_def sample_matches tr gen)
qed

end
