(* ===== verification/Worker.thy ===== *)
theory Worker
  imports System
begin

text \<open>
  The observer at work (\<open>src/observer/mod.rs\<close>): the worker owns a shared observer and handles
  notifications one after the other, while the pallet registers further targets on the same observer and
  the node goes on with its own operations. A step is one registration, one handled notification, one
  operation of the node or a tick of the clock; the observer copies its targets after the finality check,
  which does not read them, so a registration that arrives during a notification has the effect of one just
  before or just after it. The first lemmas relate the sequential worker to these runs, the
  properties speak about every message of a run.
\<close>

section \<open>The worker\<close>

record ('w, 'ev, 'st) worker =
  wk_observer :: "('w, 'ev, 'st) observer"

definition worker_new :: "('w, 'ev, 'st) observer \<Rightarrow> ('w, 'ev, 'st) worker" where
  "worker_new ob = \<lparr>wk_observer = ob\<rparr>"

text \<open>The body of \<open>run\<close> is commented out in the source: it returns at once.\<close>

definition worker_run :: "('w, 'ev, 'st) worker \<Rightarrow> 'w \<Rightarrow> unit \<times> 'w" where
  "worker_run wk w = ((), w)"

section \<open>Steps of the process\<close>

datatype process_event = Registered watch_target | Notified finality_notification | NodeActs | ClockTicks

text \<open>
  Notifications are handled with any outcome. After a panic the worker is gone, but the method is public and
  other tasks may call it, so the runs go on.
\<close>

inductive process_step ::
    "('vs system, 'ev) observer_externs \<Rightarrow> 'vs externs \<Rightarrow> process_event \<Rightarrow>
     ('vs system, 'ev, route_status) observer \<times> 'vs system \<Rightarrow>
     ('vs system, 'ev, route_status) observer \<times> 'vs system \<Rightarrow> bool"
  for OX X where
  registered: "process_step OX X (Registered t) (ob, s) (observer_register_watch_target t ob, s)"
| notified: "process_step OX X (Notified n) (ob, s) (ob, snd (handle_finality_notification OX ob n s))"
| node_acts: "node_step X (sys_node s) nd \<Longrightarrow> process_step OX X NodeActs (ob, s) (ob, s\<lparr>sys_node := nd\<rparr>)"
| clock_ticks: "process_step OX X ClockTicks (ob, s) (ob, s\<lparr>sys_clock := c\<rparr>)"

inductive process_run ::
    "('vs system, 'ev) observer_externs \<Rightarrow> 'vs externs \<Rightarrow>
     ('vs system, 'ev, route_status) observer \<times> 'vs system \<Rightarrow> process_event list \<Rightarrow>
     ('vs system, 'ev, route_status) observer \<times> 'vs system \<Rightarrow> bool"
  for OX X p0 where
  start: "process_run OX X p0 [] p0"
| step: "process_run OX X p0 es p \<Longrightarrow> process_step OX X e p p' \<Longrightarrow> process_run OX X p0 (es @ [e]) p'"

inductive_cases process_stepE: "process_step OX X e p p'"

text \<open>The targets a run registers, in order.\<close>

definition registered_by :: "process_event list \<Rightarrow> watch_target list" where
  "registered_by es = concat (map (\<lambda>e. case e of Registered t \<Rightarrow> [t] | _ \<Rightarrow> []) es)"

lemma registered_by_simps [simp]:
  "registered_by [] = []" "registered_by (es @ [e]) = registered_by es @ (case e of Registered t \<Rightarrow> [t] | _ \<Rightarrow> [])"
  by (simp_all add: registered_by_def)

lemma registered_by_mem: "t \<in> set (registered_by es) \<longleftrightarrow> Registered t \<in> set es"
  by (auto simp: registered_by_def split: process_event.splits)

section \<open>Lemmas\<close>

lemma register_system_observer:
  "observer_register_watch_target t (system_observer X cfg gen evs ts) = system_observer X cfg gen evs (ts @ [t])"
  by (simp add: observer_register_watch_target_def system_observer_def)

text \<open>The observer of a run is the initial one with the registered targets added.\<close>

lemma run_observer:
  "process_run OX X p0 es p \<Longrightarrow> fst p0 = system_observer Y cfg gen evs ts \<Longrightarrow>
   fst p = system_observer Y cfg gen evs (ts @ registered_by es)"
proof (induction rule: process_run.induct)
  case (step es p e p')
  then show ?case by (auto elim!: process_stepE simp: register_system_observer)
qed simp

text \<open>The sequential worker is a run without registrations.\<close>

lemma run_append:
  "process_run OX X p es' q \<Longrightarrow> process_run OX X p0 es p \<Longrightarrow> process_run OX X p0 (es @ es') q"
proof (induction rule: process_run.induct)
  case (step es' q e q')
  then have "process_run OX X p0 ((es @ es') @ [e]) q'" by (blast intro: process_run.step)
  then show ?case by simp
qed simp

lemma worker_is_run:
  "run_with_finality_stream OX ob ns s = (Ok (), s') \<Longrightarrow> process_run OX X (ob, s) (map Notified ns) (ob, s')"
proof (induction ns arbitrary: s)
  case Nil
  then show ?case by (simp add: process_run.start)
next
  case (Cons n ns)
  obtain r s1 where h: "handle_finality_notification OX ob n s = (r, s1)"
    by (cases "handle_finality_notification OX ob n s")
  have "process_run OX X (ob, s) ([] @ [Notified n]) (ob, snd (handle_finality_notification OX ob n s))"
    by (rule process_run.step [OF process_run.start process_step.notified])
  then have one: "process_run OX X (ob, s) [Notified n] (ob, s1)" by (simp add: h)
  have "run_with_finality_stream OX ob ns s1 = (Ok (), s')" using Cons.prems h by (cases r) simp_all
  from run_append [OF Cons.IH [OF this] one] show ?case by simp
qed

text \<open>The node keeps its parameters.\<close>

lemma node_step_params: "node_step X nd nd' \<Longrightarrow> nd_params nd' = nd_params nd"
proof (induction rule: node_step.induct)
  case (cached_status nd t_read t_insert t_retain h)
  show ?case
    by (rule cached_cases [of t_read nd h X t_insert t_retain])
      (use metrics_onlyD [OF status_frame [of nd X h]] in \<open>auto\<close>)
qed (auto simp: metrics_onlyD [OF metrics_only_verify] metrics_onlyD [OF status_frame]
    metrics_onlyD [OF confidence_frame] metrics_onlyD [OF rules_frame] hash_frame inclusion_frame
    update_authorities_from_runtime_def handle_authority_set_update_def ok_or_def
    split: res.splits option.splits)

lemma final_keeps_ok:
  assumes "node_ok nd"
  shows "node_ok (snd (grandpa_is_final X cfg (\<lambda>_ nd. nd) b nd))"
  using gp.is_final_keeps [of nd X cfg "\<lambda>_ _ nd. nd" 0 b] assms
  by (simp add: grandpa_is_final_def guarded_id [OF env_grows_idle])

section \<open>What one notification sends\<close>

text \<open>
  A message with a good reason: when it was sent the notified block was settled, and it carries the proof
  for a target of the observer that matched an event of that block.
\<close>

definition good_reason ::
    "('vs system, 'ev) observer_externs \<Rightarrow> predicate_config \<Rightarrow> ('vs system, 'ev, route_status) observer \<Rightarrow>
     finality_notification \<Rightarrow> 'vs system \<Rightarrow> 'vs system \<Rightarrow> frost_message \<Rightarrow> bool" where
  "good_reason OX cfg ob n s s' m \<longleftrightarrow>
     settled (cfg_min_confirmations cfg) 50 (view_of (sys_node s')) (notified_block OX n) \<and>
     (\<exists>t p. t \<in> set (ob_watch_targets ob) \<and>
        target_matches OX ob (notified_block OX n) (s\<lparr>sys_node := sys_node s'\<rparr>) t \<and>
        proof_for OX ob (notified_block OX n) (s\<lparr>sys_node := sys_node s'\<rparr>) t p \<and> m = routed_message OX p)"

lemma notification_node_ok:
  assumes "node_ok (sys_node s)"
  shows "node_ok (sys_node (snd (handle_finality_notification OX (system_observer X cfg gen evs ts) n s)))"
proof -
  obtain f nd where f: "grandpa_is_final X cfg (\<lambda>_ nd. nd) (notified_block OX n) (sys_node s) = (f, nd)"
    by (cases "grandpa_is_final X cfg (\<lambda>_ nd. nd) (notified_block OX n) (sys_node s)")
  obtain r s' where h: "handle_finality_notification OX (system_observer X cfg gen evs ts) n s = (r, s')"
    by (cases "handle_finality_notification OX (system_observer X cfg gen evs ts) n s")
  have "sys_node s' = nd"
    using handled_final(1) [OF h, of nd] handled_not_final(1) [OF h f] f by (cases "f = Ok True") auto
  then show ?thesis using final_keeps_ok [OF assms, of X cfg "notified_block OX n"] f h by simp
qed

lemma notification_messages:
  assumes h: "handle_finality_notification OX (system_observer X cfg gen evs ts) n s = (r, s')"
    and ok: "node_ok (sys_node s)"
  shows "\<exists>ms. sent_messages s' = sent_messages s @ ms \<and>
    (\<forall>m \<in> set ms. good_reason OX cfg (system_observer X cfg gen evs ts) n s s' m)"
proof -
  let ?ob = "system_observer X cfg gen evs ts"
  obtain f nd where f: "grandpa_is_final X cfg (\<lambda>_ nd. nd) (notified_block OX n) (sys_node s) = (f, nd)"
    by (cases "grandpa_is_final X cfg (\<lambda>_ nd. nd) (notified_block OX n) (sys_node s)")
  show ?thesis
  proof (cases "f = Ok True")
    case True
    note f' = f [unfolded True]
    have nd: "sys_node s' = nd" by (rule handled_final(1) [OF h f'])
    have set: "settled (cfg_min_confirmations cfg) 50 (view_of (sys_node s')) (notified_block OX n)"
      using svc.is_final_sound [OF f' [unfolded grandpa_is_final_def] ok] nd by simp
    obtain us ps where ps: "sent_messages s' = sent_messages s @ map (routed_message OX) ps"
      and all: "list_all2 (proof_for OX ?ob (notified_block OX n) (s\<lparr>sys_node := nd\<rparr>)) us ps"
      and us: "prefix us (filter (target_matches OX ?ob (notified_block OX n) (s\<lparr>sys_node := nd\<rparr>)) ts)"
      using handled_final(2) [OF h f'] by blast
    have "good_reason OX cfg ?ob n s s' (routed_message OX p)" if p: "p \<in> set ps" for p
    proof -
      obtain t where t: "t \<in> set us" "proof_for OX ?ob (notified_block OX n) (s\<lparr>sys_node := nd\<rparr>) t p"
        using list_all2_right [OF all p] by blast
      then have "t \<in> set (filter (target_matches OX ?ob (notified_block OX n) (s\<lparr>sys_node := nd\<rparr>)) ts)"
        using us set_mono_prefix by blast
      moreover have "ob_watch_targets ?ob = ts" by (simp add: system_observer_def)
      ultimately show ?thesis using t(2) set nd unfolding good_reason_def by auto
    qed
    with ps show ?thesis by (intro exI [of _ "map (routed_message OX) ps"]) simp
  next
    case False
    then show ?thesis using handled_not_final(2) [OF h f] by simp
  qed
qed

section \<open>Messages of a run\<close>

text \<open>The message was sent by a notification of the run, to the observer as it was then.\<close>

definition sent_in_run ::
    "('vs system, 'ev) observer_externs \<Rightarrow> 'vs externs \<Rightarrow> predicate_config \<Rightarrow>
     ('vs system, 'ev, route_status) observer \<times> 'vs system \<Rightarrow> process_event list \<Rightarrow> frost_message \<Rightarrow> bool" where
  "sent_in_run OX X cfg p0 es m \<longleftrightarrow> (\<exists>us n vs ob s r s'. es = us @ Notified n # vs \<and>
     process_run OX X p0 us (ob, s) \<and> handle_finality_notification OX ob n s = (r, s') \<and>
     ob_watch_targets ob = ob_watch_targets (fst p0) @ registered_by us \<and> good_reason OX cfg ob n s s' m)"

lemma sent_in_run_snoc: "sent_in_run OX X cfg p0 es m \<Longrightarrow> sent_in_run OX X cfg p0 (es @ [e]) m"
  unfolding sent_in_run_def by (metis append_Cons append_assoc)

lemma step_messages:
  assumes run: "process_run OX X p0 es (ob, s)" and step: "process_step OX X e (ob, s) (ob', s')"
    and ob: "ob = system_observer X cfg gen evs (ob_watch_targets (fst p0) @ registered_by es)"
    and ok: "node_ok (sys_node s)"
  shows "node_ok (sys_node s') \<and> (\<exists>ms. sent_messages s' = sent_messages s @ ms \<and>
    (\<forall>m \<in> set ms. sent_in_run OX X cfg p0 (es @ [e]) m))"
  using step
proof cases
  case (notified n)
  obtain r s1 where h: "handle_finality_notification OX ob n s = (r, s1)"
    by (cases "handle_finality_notification OX ob n s")
  then have s1: "s1 = s'" using notified by simp
  obtain ms where ms: "sent_messages s' = sent_messages s @ ms" "\<forall>m \<in> set ms. good_reason OX cfg ob n s s' m"
    using notification_messages [OF h [unfolded ob] ok] unfolding ob s1 by blast
  have "ob_watch_targets ob = ob_watch_targets (fst p0) @ registered_by es"
    by (subst ob) (simp add: system_observer_def)
  then have "sent_in_run OX X cfg p0 (es @ [e]) m" if "m \<in> set ms" for m
    using run h ms(2) that notified s1 unfolding sent_in_run_def by blast
  moreover have "node_ok (sys_node s')"
    using notification_node_ok [OF ok, of OX X cfg gen evs] h s1 ob by (metis snd_conv)
  ultimately show ?thesis using ms(1) by blast
qed (use ok in \<open>auto simp: sent_messages_def node_step_params\<close>)

lemma run_messages:
  assumes "process_run OX X p0 es p" and "fst p0 = system_observer X cfg gen evs ts" and "node_ok (sys_node (snd p0))"
  shows "node_ok (sys_node (snd p)) \<and> (\<exists>ms. sent_messages (snd p) = sent_messages (snd p0) @ ms \<and>
    (\<forall>m \<in> set ms. sent_in_run OX X cfg p0 es m))"
  using assms
proof (induction rule: process_run.induct)
  case (step es p e p')
  obtain ob s ob' s' where p: "p = (ob, s)" "p' = (ob', s')" by (cases p; cases p')
  have "ob = system_observer X cfg gen evs (ob_watch_targets (fst p0) @ registered_by es)"
    using run_observer [OF step.hyps(1) step.prems(1)] step.prems(1) p by (simp add: system_observer_def)
  with step.hyps p step.IH [OF step.prems]
  obtain ms ms' where "node_ok (sys_node s')" "sent_messages s' = sent_messages s @ ms'"
    "\<forall>m \<in> set ms'. sent_in_run OX X cfg p0 (es @ [e]) m"
    "sent_messages s = sent_messages (snd p0) @ ms" "\<forall>m \<in> set ms. sent_in_run OX X cfg p0 es m"
    using step_messages [of OX X p0 es ob s e ob' s' cfg gen evs] by auto
  then show ?case using p sent_in_run_snoc [of OX X cfg p0 es] by (intro conjI exI [of _ "ms @ ms'"]) auto
qed simp

section \<open>Properties\<close>


abbreviation sample_start ::
    "(authority_list system, bytes, route_status) observer \<times> authority_list system" where
  "sample_start \<equiv> (system_observer list_externs sample_cfg sample_generator sample_events [], sample_system)"

lemma sample_registered: "process_run sys_externs list_externs sample_start [Registered (sample_target None)]
    (sample_observer sample_generator, sample_system)"
proof -
  have "observer_register_watch_target (sample_target None)
      (system_observer list_externs sample_cfg sample_generator sample_events []) = sample_observer sample_generator"
    by (simp add: register_system_observer)
  then show ?thesis
    using process_run.step [OF process_run.start [of sys_externs list_externs sample_start]
        process_step.registered [of sys_externs list_externs "sample_target None"]] by simp
qed




end
