(* ===== verification/Chain_Reads.thy ===== *)
theory Chain_Reads
  imports Grandpa_Finality
begin

text \<open>
  The reads of the chain behind one finality check (\<open>src/finality/mod.rs\<close>, lines 330 to 383, 657 to 707 and
  861 to 958). The source does not take a snapshot: the header, the chain info and the justifications of a
  block are separate calls of the backend, and blocks are imported and finalized between them. Here every
  read has its own snapshot, \<open>cs k\<close> for the read number \<open>k\<close> of one \<open>is_final\<close>. With equal snapshots this
  is the model of \<open>Verification_Client\<close>, and the promise of \<open>is_final\<close> survives torn reads, also when
  the best block changes in any way.
\<close>

section \<open>Operations read by read\<close>

definition status_reads ::
    "'vs externs \<Rightarrow> client \<Rightarrow> client \<Rightarrow> client \<Rightarrow> h256 \<Rightarrow> 'vs node \<Rightarrow> (finality_status, gv_error) res \<times> 'vs node" where
  "status_reads X c1 c2 c3 h =
     try_then (lift_res (lookup_header X c1 h)) (\<lambda>hdr.
     let latest_finalized = finalized_number (cl_info c2);
         confirmations = sat_sub latest_finalized (hd_number hdr);
         is_finalized = (hd_number hdr \<le> latest_finalized)
     in
     try_then (lift_res
         (map_err (\<lambda>e. GvChainError (''Failed to get justification: '' @ e)) (cl_justifications c3 h))) (\<lambda>js.
     let justification = Option.bind js (into_grandpa_justification X);
         has_justification = (justification \<noteq> None)
     in
     try_then (maybe_rate X justification) (\<lambda>rate.
     lift_res (Ok \<lparr>st_block_number = hd_number hdr, st_confirmations = confirmations,
       st_has_justification = has_justification, st_is_finalized = is_finalized,
       st_participation_rate = rate\<rparr>))))"

definition hash_read :: "'vs externs \<Rightarrow> client \<Rightarrow> block_ref \<Rightarrow> 'vs node \<Rightarrow> (bool, fv_error) res \<times> 'vs node" where
  "hash_read X c b =
     try_then (lift_res (map_err gv_into_fv (lookup_header X c (br_hash b)))) (\<lambda>hdr.
     lift_res (Ok (hd_number hdr = u64_to_u32_sat (br_number b))))"

definition confidence_reads ::
    "'vs externs \<Rightarrow> client \<Rightarrow> client \<Rightarrow> client \<Rightarrow> block_ref \<Rightarrow> 'vs node \<Rightarrow> (f64, fv_error) res \<times> 'vs node" where
  "confidence_reads X c1 c2 c3 b =
     try_then (with_err consensus_err (status_reads X c1 c2 c3 (br_hash b))) (\<lambda>st nd.
     (Ok (confidence_of (nd_params nd) st), nd))"

text \<open>The chain info is read a second time for the fork depth.\<close>

definition rules_reads ::
    "'vs externs \<Rightarrow> client \<Rightarrow> client \<Rightarrow> client \<Rightarrow> client \<Rightarrow> block_ref \<Rightarrow> chain_rules \<Rightarrow> 'vs node \<Rightarrow>
     (bool, fv_error) res \<times> 'vs node" where
  "rules_reads X c1 c2 c3 c4 b rules =
     try_then (with_err consensus_err (status_reads X c1 c2 c3 (br_hash b))) (\<lambda>st nd.
     (Ok (chain_rules_hold (cl_info c4) st rules), nd))"

definition is_final_reads ::
    "'vs externs \<Rightarrow> predicate_config \<Rightarrow> (nat \<Rightarrow> client) \<Rightarrow> (nat \<Rightarrow> 'vs node \<Rightarrow> 'vs node) \<Rightarrow> block_ref \<Rightarrow> 'vs node \<Rightarrow>
     (bool, finality_error) res \<times> 'vs node" where
  "is_final_reads X cfg cs env =
     is_final (display_fv_error X) (hash_read X (cs 0)) (confidence_reads X (cs 1) (cs 2) (cs 3))
       (rules_reads X (cs 4) (cs 5) (cs 6) (cs 7)) cfg env"

section \<open>Equal snapshots\<close>

lemma status_reads_same: "nd_client nd = c \<Longrightarrow> status_reads X c c c h nd = get_finality_status X h nd"
  by (simp add: status_reads_def get_finality_status_alt Let_def)

lemma hash_read_same: "nd_client nd = c \<Longrightarrow> hash_read X c b nd = verify_block_hash X b nd"
  by (simp add: hash_read_def verify_block_hash_def Let_def)

lemma confidence_reads_same: "nd_client nd = c \<Longrightarrow> confidence_reads X c c c b nd = get_finality_confidence X b nd"
  by (simp add: confidence_reads_def get_finality_confidence_def try_then_def with_err_def status_reads_same)

lemma rules_reads_same: "nd_client nd = c \<Longrightarrow> rules_reads X c c c c b r nd = verify_chain_rules X b r nd"
  using metrics_onlyD(1) [OF status_frame [of nd X "br_hash b"]]
  by (auto simp: rules_reads_def verify_chain_rules_def try_then_def with_err_def status_reads_same
      split: prod.splits res.splits)

lemma reads_same:
  assumes "nd_client nd = c"
  shows "is_final_reads X cfg (\<lambda>_. c) (\<lambda>_ nd. nd) b nd = grandpa_is_final X cfg (\<lambda>_ nd. nd) b nd"
proof -
  have h: "nd_client (snd (verify_block_hash X b nd)) = c" using assms by (simp add: hash_frame)
  then have "nd_client (snd (get_finality_confidence X b (snd (verify_block_hash X b nd)))) = c"
    by (simp add: metrics_onlyD [OF confidence_frame])
  with h show ?thesis using assms
    by (auto simp: is_final_reads_def grandpa_is_final_def is_final_def Let_def try_then_def with_err_def
        hash_read_same confidence_reads_same rules_reads_same split: prod.splits res.splits)
qed

section \<open>What torn reads establish\<close>

definition client_view :: "client \<Rightarrow> chain_view" where
  "client_view c = \<lparr>
     cv_block_at = (\<lambda>h. case cl_header c h of
        Ok found \<Rightarrow> map_option hd_number found | Err _ \<Rightarrow> None | Panic _ \<Rightarrow> None),
     cv_finalized = finalized_number (cl_info c),
     cv_best = best_number (cl_info c)\<rparr>"

lemma client_view_node: "client_view (nd_client nd) = view_of nd"
  by (simp add: client_view_def view_of_def)

text \<open>Headers stay and finality does not go back; the best block is free.\<close>

definition finality_grows :: "client \<Rightarrow> client \<Rightarrow> bool" where
  "finality_grows c c' \<longleftrightarrow> cv_block_at (client_view c) \<subseteq>\<^sub>m cv_block_at (client_view c') \<and>
     finalized_number (cl_info c) \<le> finalized_number (cl_info c')"

lemma finality_grows_refl [simp]: "finality_grows c c"
  by (simp add: finality_grows_def)

lemma finality_grows_trans: "finality_grows c d \<Longrightarrow> finality_grows d e \<Longrightarrow> finality_grows c e"
  unfolding finality_grows_def by (meson map_le_trans order_trans)

lemma finality_grows_steps:
  assumes "\<forall>k. finality_grows (cs k) (cs (Suc k))" and "i \<le> j"
  shows "finality_grows (cs i) (cs j)"
  using assms(2)
proof (induction rule: dec_induct)
  case (step n)
  then show ?case using assms(1) finality_grows_trans by blast
qed simp

lemma finality_grows_block:
  "finality_grows c c' \<Longrightarrow> cv_block_at (client_view c) h = Some n \<Longrightarrow> cv_block_at (client_view c') h = Some n"
  by (auto simp: finality_grows_def map_le_def dom_def)

lemma hash_read_Ok_True:
  "hash_read X c b nd = (Ok True, nd') \<Longrightarrow>
   nd' = nd \<and> cv_block_at (client_view c) (br_hash b) = Some (u64_to_u32_sat (br_number b))"
  by (auto simp: hash_read_def res_simps lookup_header_def client_view_def)

lemma status_reads_frame: "metrics_only nd (snd (status_reads X c1 c2 c3 h nd))"
  unfolding status_reads_def Let_def
  by (intro try_then_keeps [where P = "metrics_only nd"])
    (auto intro: metrics_only_trans metrics_only_maybe_rate)

lemma hash_read_frame: "metrics_only nd (snd (hash_read X c b nd))"
  unfolding hash_read_def
  by (intro try_then_keeps [where P = "metrics_only nd"]) auto

lemma confidence_reads_frame: "metrics_only nd (snd (confidence_reads X c1 c2 c3 b nd))"
  using status_reads_frame by (simp add: confidence_reads_def try_pure_snd)

lemma rules_reads_frame: "metrics_only nd (snd (rules_reads X c1 c2 c3 c4 b r nd))"
  using status_reads_frame by (simp add: rules_reads_def try_pure_snd)

lemma status_reads_Ok:
  assumes "status_reads X c1 c2 c3 h nd = (Ok st, nd')"
  shows "cv_block_at (client_view c1) h = Some (st_block_number st) \<and>
    st_confirmations st = sat_sub (finalized_number (cl_info c2)) (st_block_number st) \<and>
    (st_is_finalized st \<longleftrightarrow> st_block_number st \<le> finalized_number (cl_info c2)) \<and>
    f64_nonneg (st_participation_rate st) \<and> nd_params nd' = nd_params nd"
proof -
  obtain hdr js rate where "cl_header c1 h = Ok (Some hdr)"
    and rate: "maybe_rate X (Option.bind js (into_grandpa_justification X)) nd = (Ok rate, nd')"
    and st: "st = \<lparr>st_block_number = hd_number hdr,
        st_confirmations = sat_sub (finalized_number (cl_info c2)) (hd_number hdr),
        st_has_justification = (Option.bind js (into_grandpa_justification X) \<noteq> None),
        st_is_finalized = (hd_number hdr \<le> finalized_number (cl_info c2)), st_participation_rate = rate\<rparr>"
    using assms by (auto simp: status_reads_def Let_def res_simps lookup_header_def)
  moreover have "f64_nonneg rate" using maybe_rate_nonneg [of X _ nd rate] rate by (metis fst_conv)
  moreover have "nd_params nd' = nd_params nd"
    using metrics_onlyD(3) [OF status_reads_frame [of nd X c1 c2 c3 h]] assms by simp
  ultimately show ?thesis by (simp add: client_view_def)
qed

lemma confidence_reads_Ok:
  assumes "confidence_reads X c1 c2 c3 b nd = (Ok c, nd')" and "node_ok nd"
  shows "\<exists>n. cv_block_at (client_view c1) (br_hash b) = Some n \<and>
    (n \<le> finalized_number (cl_info c2) \<or> c \<le> confidence_cap)" and "node_ok nd'"
proof -
  obtain st where st: "status_reads X c1 c2 c3 (br_hash b) nd = (Ok st, nd')" and c: "c = confidence_of (nd_params nd') st"
    using assms(1) by (auto simp: confidence_reads_def res_simps)
  note ok = status_reads_Ok [OF st]
  then show "node_ok nd'" using assms(2) by simp
  show "\<exists>n. cv_block_at (client_view c1) (br_hash b) = Some n \<and>
    (n \<le> finalized_number (cl_info c2) \<or> c \<le> confidence_cap)"
  proof (cases "st_is_finalized st")
    case False
    with ok have "st_confirmations st = 0" by (simp add: sat_sub_eq_0_iff not_le less_imp_le)
    from confidence_of_unfinalized [OF False this, of "nd_params nd'"] ok assms(2) c show ?thesis by auto
  qed (use ok in auto)
qed

lemma rules_reads_Ok_True:
  assumes "rules_reads X c1 c2 c3 c4 b r nd = (Ok True, nd')"
  shows "\<exists>n. cv_block_at (client_view c1) (br_hash b) = Some n \<and>
    unat (u64_to_u32_sat (rule_min_confirmations r)) \<le> unat (finalized_number (cl_info c2)) - unat n \<and>
    unat (best_number (cl_info c4)) - unat n \<le> unat (u64_to_u32_sat (rule_max_fork_depth r))"
proof -
  obtain st where st: "status_reads X c1 c2 c3 (br_hash b) nd = (Ok st, nd')"
    and c: "chain_rules_hold (cl_info c4) st r"
    using assms by (auto simp: rules_reads_def res_simps)
  have "u64_to_u32_sat (rule_min_confirmations r) \<le> st_confirmations st"
    "sat_sub (best_number (cl_info c4)) (st_block_number st) \<le> u64_to_u32_sat (rule_max_fork_depth r)"
    using c by (auto simp: chain_rules_hold_def Let_def not_less split: if_splits)
  then show ?thesis using status_reads_Ok [OF st] by (auto simp: word_le_nat_alt unat_sat_sub)
qed

section \<open>Properties\<close>

text \<open>C5. The reads of one finality check need no snapshot: with a separate, later state of the chain behind
  each of its eight reads, known headers staying and finality not going back, \<open>is_final\<close> still answers true
  only for a block that is settled in the last of these states: known under its number, confirmed, and at most
  50 behind the best block; and finalized there when the threshold is above 0.6 or a confirmation is required.
  The best block may change in any way, and other tasks may change the authority set.\<close>

theorem torn_reads_settled:
  assumes "is_final_reads X cfg cs env b nd = (Ok True, nd')"
    and "\<forall>k. finality_grows (cs k) (cs (Suc k))"
    and "f64_nonneg (min_participation (nd_params nd))"
    and "\<forall>i nd. nd_params (env i nd) = nd_params nd"
  shows "settled (cfg_min_confirmations cfg) 50 (client_view (cs 7)) b \<and>
    (f64_lit (4 / 10) + f64_lit (2 / 10) < cfg_confidence_threshold cfg \<or> cfg_min_confirmations cfg \<noteq> 0 \<longrightarrow>
      u64_to_u32_sat (br_number b) \<le> finalized_number (cl_info (cs 7)))"
proof -
  let ?n = "u64_to_u32_sat (br_number b)"
  obtain w1 c w2 where s: "hash_read X (cs 0) b nd = (Ok True, w1)"
      "confidence_reads X (cs 1) (cs 2) (cs 3) b (env 0 w1) = (Ok c, w2)" "\<not> c < cfg_confidence_threshold cfg"
      "rules_reads X (cs 4) (cs 5) (cs 6) (cs 7) b (grandpa_rules cfg) (env 1 w2) = (Ok True, nd')"
    using assms(1) by (auto simp: is_final_reads_def is_final_def Let_def res_simps split: if_splits)
  have w1: "w1 = nd" and n0: "cv_block_at (client_view (cs 0)) (br_hash b) = Some ?n"
    using hash_read_Ok_True [OF s(1)] by simp_all
  have at_n: "cv_block_at (client_view (cs k)) (br_hash b) = Some ?n" for k
    by (rule finality_grows_block [OF finality_grows_steps [OF assms(2) le0] n0])
  have fin: "finalized_number (cl_info (cs k)) \<le> finalized_number (cl_info (cs 7))" if "k \<le> 7" for k
    using finality_grows_steps [OF assms(2) that] by (simp add: finality_grows_def)
  have set: "settled (cfg_min_confirmations cfg) 50 (client_view (cs 7)) b"
    using rules_reads_Ok_True [OF s(4)] at_n [of 4] at_n [of 7] fin [of 5]
    by (auto simp: settled_def grandpa_rules_def client_view_def word_le_nat_alt)
  have "?n \<le> finalized_number (cl_info (cs 7))" if "confidence_cap < cfg_confidence_threshold cfg"
  proof -
    have "\<not> c \<le> confidence_cap" using that s(3) f64_le_less_trans by blast
    moreover have "node_ok (env 0 w1)" using assms(3,4) w1 by simp
    ultimately have "?n \<le> finalized_number (cl_info (cs 2))"
      using confidence_reads_Ok(1) [OF s(2)] at_n [of 1] by auto
    with fin [of 2] show ?thesis by simp
  qed
  moreover have "?n \<le> finalized_number (cl_info (cs 7))" if "cfg_min_confirmations cfg \<noteq> 0"
  proof -
    have "0 < unat (u64_to_u32_sat (cfg_min_confirmations cfg))"
      using that by (simp add: unat_u64_to_u32_sat unat_gt_0)
    then show ?thesis using set at_n [of 7] by (auto simp: settled_def client_view_def word_le_nat_alt)
  qed
  ultimately show ?thesis using set by (auto simp: confidence_cap_def)
qed

text \<open>A chain in which block 2 is finalized while the check runs.\<close>

definition sample_reads :: "nat \<Rightarrow> client" where
  "sample_reads k = sample_client 2 (if k < 3 then 3 else 2)"

lemma sample_reads_final:
  "fst (is_final_reads list_externs sample_cfg sample_reads (\<lambda>_ nd. nd) sample_block (sample_node 2 3)) = Ok True"
proof -
  have h: "lookup_header list_externs (sample_reads k) 1 =
      Ok \<lparr>hd_number = 1, hd_hash = 1, hd_parent_hash = 0, hd_state_root = 0\<rparr>" for k
    by (simp add: lookup_header_def sample_reads_def sample_client_def)
  have st: "status_reads list_externs (sample_reads i) (sample_reads j) (sample_reads k) 1 nd =
      (Ok \<lparr>st_block_number = 1, st_confirmations = 1, st_has_justification = False, st_is_finalized = True,
        st_participation_rate = f64_lit 0\<rparr>, nd)" for i j k nd
    by (simp add: status_reads_def h try_then_def Let_def maybe_rate_def)
      (simp add: sample_reads_def sample_client_def maybe_rate_def sat_sub_def try_then_def)
  show ?thesis
    using sample_threshold
    by (simp add: is_final_reads_def is_final_def Let_def try_then_def with_err_def hash_read_def h st sample_block_def
        confidence_reads_def confidence_of_def rules_reads_def rules_hold_unjustified)
      (simp add: sample_reads_def sample_client_def sample_cfg_def u64_to_u32_sat_def)
qed

theorem torn_reads_settled_witness:
  "settled 1 50 (client_view (sample_client 2 2)) sample_block \<and>
   u64_to_u32_sat (br_number sample_block) \<le> finalized_number (cl_info (sample_client 2 2))"
proof -
  obtain nd' where run: "is_final_reads list_externs sample_cfg sample_reads (\<lambda>_ nd. nd) sample_block (sample_node 2 3) =
      (Ok True, nd')" using sample_reads_final by (metis prod.collapse)
  have grows: "\<forall>k. finality_grows (sample_reads k) (sample_reads (Suc k))"
    by (simp add: finality_grows_def sample_reads_def sample_client_def client_view_def)
  have params: "\<forall>i nd. nd_params ((\<lambda>_ nd. nd) i nd) = nd_params (nd :: authority_list node)" by simp
  from torn_reads_settled [OF run grows sample_node_ok params] show ?thesis
    by (simp add: sample_cfg_def) (simp add: sample_reads_def)
qed



end
