(* ===== verification/Tasks.thy ===== *)
theory Tasks
  imports Worker Chain_Reads "HOL-Library.Multiset"
begin

text \<open>
  Concurrent handling of notifications (\<open>src/observer/mod.rs\<close>, lines 313 to 368, with \<open>is_final\<close> of
  \<open>src/finality/mod.rs\<close>, lines 330 to 383). \<open>handle_finality_notification\<close> is an \<open>async\<close> method on a shared
  observer: several tasks can be inside it at once, and at every \<open>await\<close> other tasks, the pallet and the node
  may run. A task is a notification with the place it has reached; one step takes it to the next \<open>await\<close>.
  A step has no snapshot of the chain either: its checks are those of \<open>Chain_Reads\<close>, and blocks are imported
  and finalized between their reads.
  A task that runs alone computes what the sequential definition does; what many interleaved tasks send
  is stated over the reachable states of a pool of tasks.
\<close>

section \<open>One task\<close>

text \<open>
  The places between two awaited calls. The clone of the target list happens right after the finality check,
  and the list travels with the task from there.
\<close>

datatype task_phase =
    Arrived
  | HashChecked
  | Trusted f64
  | Serving "watch_target list"
  | Proving watch_target "watch_target list"
  | Sending state_proof "watch_target list"
  | Finished "(unit, protocol_error) res"

text \<open>The question mark after an awaited call: go on with the value or return.\<close>

definition await_then :: "('a, protocol_error) res \<Rightarrow> ('a \<Rightarrow> task_phase) \<Rightarrow> task_phase" where
  "await_then r k = (case r of Ok x \<Rightarrow> k x | Err e \<Rightarrow> Finished (Err e) | Panic m \<Rightarrow> Finished (Panic m))"

definition at_node ::
    "('vs node \<Rightarrow> 'a \<times> 'vs node) \<Rightarrow> ('a \<Rightarrow> task_phase) \<Rightarrow> 'vs system \<Rightarrow> task_phase \<times> 'vs system" where
  "at_node call k s = (case call (sys_node s) of (r, nd) \<Rightarrow> (k r, s\<lparr>sys_node := nd\<rparr>))"

text \<open>
  One step. The checks of finality read the chain several times, and \<open>cs k\<close> is the state of the chain at the
  read number \<open>k\<close> of the step.
\<close>

definition advance ::
    "('vs system, 'ev) observer_externs \<Rightarrow> 'vs externs \<Rightarrow> predicate_config \<Rightarrow>
     (nat \<Rightarrow> client) \<Rightarrow> ('vs system, 'ev, route_status) observer \<Rightarrow> finality_notification \<Rightarrow> task_phase \<Rightarrow>
     'vs system \<Rightarrow> task_phase \<times> 'vs system" where
  "advance OX X cfg cs ob n ph s =
     (let b = notified_block OX n; failed = from_finality_error OX in
      case ph of
        Arrived \<Rightarrow> at_node (hash_read X (cs 0) b) (\<lambda>r. await_then
            (map_err (\<lambda>e. failed (ChainError (''Block verification failed: '' @ display_fv_error X e))) r)
            (\<lambda>exists. if exists then HashChecked else Finished (Err (failed (ChainError ''Block not found''))))) s
      | HashChecked \<Rightarrow> at_node (confidence_reads X (cs 0) (cs 1) (cs 2) b) (\<lambda>r. await_then
            (map_err (\<lambda>e. failed (ConsensusError (''Failed to get finality confidence: '' @ display_fv_error X e)
               (f64_to_u64 (cfg_confidence_threshold cfg * f64_lit 100)) 0)) r)
            (\<lambda>c. if c < cfg_confidence_threshold cfg then Finished (Ok ()) else Trusted c)) s
      | Trusted c \<Rightarrow> at_node (rules_reads X (cs 0) (cs 1) (cs 2) (cs 3) b (grandpa_rules cfg)) (\<lambda>r. await_then
            (map_err (\<lambda>e. failed (ConsensusError (''Chain rule verification failed: '' @ display_fv_error X e)
               (f64_to_u64 (rule_min_participation (grandpa_rules cfg) * f64_lit 100)) (f64_to_u64 (c * f64_lit 100)))) r)
            (\<lambda>final. if final then Serving (ob_watch_targets ob) else Finished (Ok ()))) s
      | Serving ts \<Rightarrow> (case ts of
            [] \<Rightarrow> (Finished (Ok ()), s)
          | t # us \<Rightarrow> (await_then (matches_watch_target OX ob b t s)
              (\<lambda>matched. if matched then Proving t us else Serving us), s))
      | Proving t us \<Rightarrow> (await_then
            (and_then (generate_state_transition OX (system_time OX s) b t) (\<lambda>transition.
               map_err (\<lambda>_. into_protocol ProofGenerationFailed)
                 (ob_generate_proof ob (ssmp_into transition) generation_config_default s)))
            (\<lambda>p. Sending p us), s)
      | Sending p us \<Rightarrow> (case route_proof OX ob p s of (r, s') \<Rightarrow> (await_then r (\<lambda>_. Serving us), s'))
      | Finished r \<Rightarrow> (Finished r, s))"

text \<open>While nothing else runs, every read sees the same chain.\<close>

abbreviation still :: "'vs system \<Rightarrow> nat \<Rightarrow> client" where
  "still s \<equiv> (\<lambda>_. nd_client (sys_node s))"

fun task_run ::
    "('vs system, 'ev) observer_externs \<Rightarrow> 'vs externs \<Rightarrow> predicate_config \<Rightarrow>
     ('vs system, 'ev, route_status) observer \<Rightarrow> finality_notification \<Rightarrow> nat \<Rightarrow> task_phase \<times> 'vs system \<Rightarrow>
     task_phase \<times> 'vs system" where
  "task_run OX X cfg ob n 0 x = x"
| "task_run OX X cfg ob n (Suc k) x =
     task_run OX X cfg ob n k (advance OX X cfg (still (snd x)) ob n (fst x) (snd x))"

section \<open>A task alone\<close>

lemma await_then_simps [simp]:
  "await_then (Ok x) k = k x" "await_then (Err e) k = Finished (Err e)" "await_then (Panic m) k = Finished (Panic m)"
  by (simp_all add: await_then_def)

lemma advance_finality:
  "advance OX X cfg cs ob n Arrived s = at_node (hash_read X (cs 0) (notified_block OX n)) (\<lambda>r. await_then
     (map_err (\<lambda>e. from_finality_error OX (ChainError (''Block verification failed: '' @ display_fv_error X e))) r)
     (\<lambda>exists. if exists then HashChecked
        else Finished (Err (from_finality_error OX (ChainError ''Block not found''))))) s"
  "advance OX X cfg cs ob n HashChecked s =
     at_node (confidence_reads X (cs 0) (cs 1) (cs 2) (notified_block OX n)) (\<lambda>r. await_then
     (map_err (\<lambda>e. from_finality_error OX (ConsensusError (''Failed to get finality confidence: '' @ display_fv_error X e)
        (f64_to_u64 (cfg_confidence_threshold cfg * f64_lit 100)) 0)) r)
     (\<lambda>c. if c < cfg_confidence_threshold cfg then Finished (Ok ()) else Trusted c)) s"
  "advance OX X cfg cs ob n (Trusted c) s =
     at_node (rules_reads X (cs 0) (cs 1) (cs 2) (cs 3) (notified_block OX n) (grandpa_rules cfg)) (\<lambda>r. await_then
     (map_err (\<lambda>e. from_finality_error OX (ConsensusError (''Chain rule verification failed: '' @ display_fv_error X e)
        (f64_to_u64 (rule_min_participation (grandpa_rules cfg) * f64_lit 100)) (f64_to_u64 (c * f64_lit 100)))) r)
     (\<lambda>final. if final then Serving (ob_watch_targets ob) else Finished (Ok ()))) s"
  by (simp_all add: advance_def Let_def)

lemma advance_simps [simp]:
  "advance OX X cfg cs ob n (Serving []) s = (Finished (Ok ()), s)"
  "advance OX X cfg cs ob n (Serving (t # us)) s =
     (await_then (matches_watch_target OX ob (notified_block OX n) t s)
        (\<lambda>matched. if matched then Proving t us else Serving us), s)"
  "advance OX X cfg cs ob n (Proving t us) s =
     (await_then
        (and_then (generate_state_transition OX (system_time OX s) (notified_block OX n) t) (\<lambda>transition.
           map_err (\<lambda>_. into_protocol ProofGenerationFailed)
             (ob_generate_proof ob (ssmp_into transition) generation_config_default s)))
        (\<lambda>p. Sending p us), s)"
  "advance OX X cfg cs ob n (Sending p us) s =
     (case route_proof OX ob p s of (r, s') \<Rightarrow> (await_then r (\<lambda>_. Serving us), s'))"
  "advance OX X cfg cs ob n (Finished r) s = (Finished r, s)"
  by (simp_all add: advance_def Let_def)

lemma task_run_Finished [simp]: "task_run OX X cfg ob n k (Finished r, s) = (Finished r, s)"
  by (induction k) simp_all

lemma task_run_add: "task_run OX X cfg ob n (j + k) x = task_run OX X cfg ob n k (task_run OX X cfg ob n j x)"
  by (induction j arbitrary: x) simp_all

lemma task_run_enough:
  "task_run OX X cfg ob n j x = (Finished r, s) \<Longrightarrow> j \<le> k \<Longrightarrow> task_run OX X cfg ob n k x = (Finished r, s)"
  using task_run_add [of OX X cfg ob n j "k - j" x] by simp

text \<open>The loop over the targets takes at most three steps for each.\<close>

lemma serving_run:
  "task_run OX X cfg ob n (3 * length ts + 1) (Serving ts, s) =
     (case handle_targets OX ob (notified_block OX n) ts s of (r, s') \<Rightarrow> (Finished r, s'))"
proof (induction ts arbitrary: s)
  case Nil
  then show ?case by simp
next
  case (Cons t ts)
  let ?b = "notified_block OX n"
  let ?run = "task_run OX X cfg ob n"
  obtain r s' where rest: "handle_targets OX ob ?b ts s = (r, s')" by (cases "handle_targets OX ob ?b ts s")
  have n: "3 * Suc (length ts) = Suc (Suc (Suc (3 * length ts)))" by simp
  show ?case
  proof (cases "matches_watch_target OX ob ?b t s")
    case (Ok matched)
    show ?thesis
    proof (cases matched)
      case False
      have "?run (3 * length ts + 1) (Serving ts, s) = (Finished r, s')" using Cons rest by simp
      then have "?run (3 * Suc (length ts)) (Serving ts, s) = (Finished r, s')"
        by (rule task_run_enough) simp
      then show ?thesis using Ok False rest
        by (simp add: n handle_target_def try_then_def del: mult_Suc_right)
    next
      case True
      obtain tr where tr: "generate_state_transition OX (system_time OX s) ?b t = Ok tr" using transition_total by blast
      show ?thesis
      proof (cases "ob_generate_proof ob (ssmp_into tr) generation_config_default s")
        case (Ok p)
        obtain r1 s1 where sent: "route_proof OX ob p s = (r1, s1)" by (cases "route_proof OX ob p s")
        show ?thesis
          using Ok True tr sent \<open>matches_watch_target OX ob ?b t s = Ok matched\<close> Cons [of s1]
          by (cases r1) (simp_all add: n handle_target_def try_then_def del: mult_Suc_right)
      qed (use True tr Ok in \<open>simp_all add: n handle_target_def try_then_def del: mult_Suc_right\<close>)
    qed
  qed (simp_all add: n handle_target_def try_then_def del: mult_Suc_right)
qed

lemma task_alone:
  fixes ts :: "watch_target list"
  defines "k \<equiv> 3 * length ts + 4"
  shows "task_run OX X cfg (system_observer X cfg gen evs ts) n k (Arrived, s) =
     (case handle_finality_notification OX (system_observer X cfg gen evs ts) n s of (r, s') \<Rightarrow> (Finished r, s'))"
proof -
  let ?ob = "system_observer X cfg gen evs ts" and ?b = "notified_block OX n"
  let ?run = "task_run OX X cfg (system_observer X cfg gen evs ts) n"
  have k: "k = Suc (Suc (Suc (3 * length ts + 1)))" by (simp add: k_def)
  have ts: "ob_watch_targets ?ob = ts" by (simp add: system_observer_def)
  obtain r1 nd1 where h: "verify_block_hash X ?b (sys_node s) = (r1, nd1)"
    by (cases "verify_block_hash X ?b (sys_node s)")
  obtain r2 nd2 where c: "get_finality_confidence X ?b nd1 = (r2, nd2)"
    by (cases "get_finality_confidence X ?b nd1")
  obtain r3 nd3 where r: "verify_chain_rules X ?b (grandpa_rules cfg) nd2 = (r3, nd3)"
    by (cases "verify_chain_rules X ?b (grandpa_rules cfg) nd2")
  note unf = k handle_system grandpa_is_final_def is_final_def Let_def advance_finality at_node_def
    hash_read_same confidence_reads_same rules_reads_same h
  show ?thesis
  proof (cases r1)
    case (Ok known)
    then show ?thesis
    proof (cases known)
      case True
      note r1 = Ok True
      show ?thesis
      proof (cases r2)
        case (Ok conf)
        show ?thesis
        proof (cases "conf < cfg_confidence_threshold cfg")
          case True
          then show ?thesis using r1 Ok c by (simp add: unf try_then_def)
        next
          case False
          then show ?thesis using r1 Ok c r serving_run [of OX X cfg ?ob n ts "s\<lparr>sys_node := nd3\<rparr>"]
            by (cases r3) (simp_all add: unf try_then_def ts)
        qed
      qed (use r1 c in \<open>simp_all add: unf try_then_def\<close>)
    qed (simp add: unf try_then_def)
  qed (simp_all add: unf try_then_def)
qed

section \<open>A task among others\<close>

text \<open>
  A task between whose steps anything may happen: before its step number \<open>k\<close> the system changes by \<open>env k\<close>, the
  observer is \<open>ob k\<close> and the reads of the step see \<open>cs k\<close>.
\<close>

fun task_run_among ::
    "('vs system, 'ev) observer_externs \<Rightarrow> 'vs externs \<Rightarrow> predicate_config \<Rightarrow> (nat \<Rightarrow> nat \<Rightarrow> client) \<Rightarrow>
     (nat \<Rightarrow> ('vs system, 'ev, route_status) observer) \<Rightarrow> (nat \<Rightarrow> 'vs system \<Rightarrow> 'vs system) \<Rightarrow>
     finality_notification \<Rightarrow> nat \<Rightarrow> task_phase \<times> 'vs system \<Rightarrow> task_phase \<times> 'vs system" where
  "task_run_among OX X cfg cs ob env n 0 x = x"
| "task_run_among OX X cfg cs ob env n (Suc k) x =
     (case task_run_among OX X cfg cs ob env n k x of
        (ph, s) \<Rightarrow> advance OX X cfg (cs k) (ob k) n ph (env k s))"

text \<open>The steps that a task needs at most from a place behind the checks of finality.\<close>

fun steps_left :: "task_phase \<Rightarrow> nat option" where
  "steps_left (Serving ts) = Some (3 * length ts + 1)"
| "steps_left (Proving t us) = Some (3 * length us + 3)"
| "steps_left (Sending p us) = Some (3 * length us + 2)"
| "steps_left (Finished r) = Some 0"
| "steps_left ph = None"

lemma steps_left_0: "steps_left ph = Some 0 \<longleftrightarrow> (\<exists>r. ph = Finished r)"
  by (cases ph) auto

lemma steps_left_await:
  "(\<And>x. r = Ok x \<Longrightarrow> \<exists>j. steps_left (k x) = Some j \<and> j \<le> i) \<Longrightarrow> \<exists>j. steps_left (await_then r k) = Some j \<and> j \<le> i"
  by (cases r) auto

lemma advance_steps_left:
  assumes "steps_left ph = Some i" and "advance OX X cfg cs ob n ph s = (ph', s')"
  shows "\<exists>j. steps_left ph' = Some j \<and> j \<le> i - 1"
proof (cases ph)
  case (Serving ts)
  then show ?thesis using assms by (cases ts) (auto intro!: steps_left_await)
next
  case (Proving t us)
  then show ?thesis using assms by (auto intro!: steps_left_await)
next
  case (Sending p us)
  then show ?thesis using assms by (auto intro!: steps_left_await split: prod.splits)
qed (use assms in auto)

text \<open>The three checks come first, whatever happens between them.\<close>

lemma checks_among:
  "(\<exists>r. fst (task_run_among OX X cfg cs ob env n 3 (Arrived, s)) = Finished r) \<or>
   fst (task_run_among OX X cfg cs ob env n 3 (Arrived, s)) = Serving (ob_watch_targets (ob 2))"
proof -
  let ?run = "\<lambda>k. fst (task_run_among OX X cfg cs ob env n k (Arrived, s))"
  have 1: "?run 1 = HashChecked \<or> (\<exists>r. ?run 1 = Finished r)"
    by (auto simp: advance_finality at_node_def await_then_def split: prod.splits res.splits)
  have 2: "(\<exists>c. ?run 2 = Trusted c) \<or> (\<exists>r. ?run 2 = Finished r)"
  proof -
    obtain ph s1 where run: "task_run_among OX X cfg cs ob env n 1 (Arrived, s) = (ph, s1)"
      by (cases "task_run_among OX X cfg cs ob env n 1 (Arrived, s)")
    have "?run 2 = fst (advance OX X cfg (cs 1) (ob 1) n ph (env 1 s1))"
      using run by (simp add: numeral_2_eq_2)
    with 1 run show ?thesis
      by (auto simp: advance_finality at_node_def await_then_def split: prod.splits res.splits)
  qed
  obtain ph s2 where run: "task_run_among OX X cfg cs ob env n 2 (Arrived, s) = (ph, s2)"
    by (cases "task_run_among OX X cfg cs ob env n 2 (Arrived, s)")
  have "?run 3 = fst (advance OX X cfg (cs 2) (ob 2) n ph (env 2 s2))"
    using run by (simp add: eval_nat_numeral)
  with 2 run show ?thesis
    by (auto simp: advance_finality at_node_def await_then_def split: prod.splits res.splits)
qed

lemma served_among:
  assumes "fst (task_run_among OX X cfg cs ob env n 3 x) = ph" and "steps_left ph = Some i"
  shows "\<exists>j. steps_left (fst (task_run_among OX X cfg cs ob env n (3 + k) x)) = Some j \<and> j \<le> i - k"
proof (induction k)
  case (Suc k)
  obtain ph1 s1 where run: "task_run_among OX X cfg cs ob env n (3 + k) x = (ph1, s1)"
    by (cases "task_run_among OX X cfg cs ob env n (3 + k) x")
  with Suc obtain j where j: "steps_left ph1 = Some j" "j \<le> i - k" by auto
  obtain ph2 s2 where a: "advance OX X cfg (cs (3 + k)) (ob (3 + k)) n ph1 (env (3 + k) s1) = (ph2, s2)"
    by (cases "advance OX X cfg (cs (3 + k)) (ob (3 + k)) n ph1 (env (3 + k) s1)")
  have "task_run_among OX X cfg cs ob env n (3 + Suc k) x = (ph2, s2)"
    by (simp only: add_Suc_right task_run_among.simps run a prod.case)
  with advance_steps_left [OF j(1) a] j(2) show ?case by fastforce
qed (use assms in simp)

section \<open>A pool of tasks\<close>

text \<open>
  A task with its local variables: \<open>tk_targets\<close> is the local \<open>targets\<close> once it is cloned, and \<open>tk_sent\<close> records
  the messages it got routed, for the statements below.
\<close>

record task =
  tk_notification :: finality_notification
  tk_phase :: task_phase
  tk_targets :: "watch_target list option"
  tk_sent :: "frost_message list"

record ('vs, 'ev) pool =
  pl_observer :: "('vs system, 'ev, route_status) observer"
  pl_system :: "'vs system"
  pl_tasks :: "task list"

definition task_arrived :: "finality_notification \<Rightarrow> task" where
  "task_arrived n = \<lparr>tk_notification = n, tk_phase = Arrived, tk_targets = None, tk_sent = []\<rparr>"

definition cloned :: "task_phase \<Rightarrow> task_phase \<Rightarrow> watch_target list option \<Rightarrow> watch_target list option" where
  "cloned ph ph' us = (case (ph, ph') of (Trusted c, Serving ts) \<Rightarrow> Some ts | _ \<Rightarrow> us)"

text \<open>The task after a step, given the system before and after it.\<close>

definition task_after :: "task \<Rightarrow> task_phase \<Rightarrow> 'vs system \<Rightarrow> 'vs system \<Rightarrow> task" where
  "task_after tk ph' s s' = tk\<lparr>tk_phase := ph', tk_targets := cloned (tk_phase tk) ph' (tk_targets tk),
     tk_sent := tk_sent tk @ drop (length (sent_messages s)) (sent_messages s')\<rparr>"

text \<open>The step of a task ends in the chain of its last read.\<close>

definition chain_now :: "client \<Rightarrow> 'vs system \<Rightarrow> 'vs system" where
  "chain_now c s = s\<lparr>sys_node := (sys_node s)\<lparr>nd_client := c\<rparr>\<rparr>"

definition step_task ::
    "('vs system, 'ev) observer_externs \<Rightarrow> 'vs externs \<Rightarrow> predicate_config \<Rightarrow> (nat \<Rightarrow> client) \<Rightarrow> nat \<Rightarrow> ('vs, 'ev) pool \<Rightarrow> ('vs, 'ev) pool" where
  "step_task OX X cfg cs i p =
     (let tk = pl_tasks p ! i in
      case advance OX X cfg cs (pl_observer p) (tk_notification tk) (tk_phase tk) (pl_system p) of
        (ph', s') \<Rightarrow> p\<lparr>pl_system := chain_now (cs 3) s', pl_tasks := (pl_tasks p)[i := task_after tk ph' (pl_system p) s']\<rparr>)"

text \<open>
  The chain moves during the step of a task, between its reads, and the node works on while tasks are
  suspended. Known headers stay and finality does not go back; the best block may change in any way.
\<close>

definition reads_grow :: "client \<Rightarrow> (nat \<Rightarrow> client) \<Rightarrow> bool" where
  "reads_grow c cs \<longleftrightarrow> finality_grows c (cs 0) \<and> (\<forall>k. finality_grows (cs k) (cs (Suc k)))"

inductive pool_step ::
    "('vs system, 'ev) observer_externs \<Rightarrow> 'vs externs \<Rightarrow> predicate_config \<Rightarrow> ('vs, 'ev) pool \<Rightarrow> ('vs, 'ev) pool \<Rightarrow> bool"
  for OX X cfg where
  arrives: "pool_step OX X cfg p (p\<lparr>pl_tasks := pl_tasks p @ [task_arrived n]\<rparr>)"
| runs: "i < length (pl_tasks p) \<Longrightarrow> reads_grow (nd_client (sys_node (pl_system p))) cs \<Longrightarrow>
    pool_step OX X cfg p (step_task OX X cfg cs i p)"
| registers: "pool_step OX X cfg p (p\<lparr>pl_observer := observer_register_watch_target t (pl_observer p)\<rparr>)"
| node_acts: "node_step X (sys_node (pl_system p)) nd \<Longrightarrow> finality_grows (nd_client (sys_node (pl_system p))) (nd_client nd) \<Longrightarrow>
    pool_step OX X cfg p (p\<lparr>pl_system := (pl_system p)\<lparr>sys_node := nd\<rparr>\<rparr>)"
| clock_ticks: "pool_step OX X cfg p (p\<lparr>pl_system := (pl_system p)\<lparr>sys_clock := c\<rparr>\<rparr>)"

inductive pool_reachable ::
    "('vs system, 'ev) observer_externs \<Rightarrow> 'vs externs \<Rightarrow> predicate_config \<Rightarrow> ('vs, 'ev) pool \<Rightarrow> ('vs, 'ev) pool \<Rightarrow> bool"
  for OX X cfg p0 where
  start: "pool_reachable OX X cfg p0 p0"
| step: "pool_reachable OX X cfg p0 p \<Longrightarrow> pool_step OX X cfg p p' \<Longrightarrow> pool_reachable OX X cfg p0 p'"

inductive_cases pool_stepE: "pool_step OX X cfg p p'"

section \<open>What a task has established\<close>

text \<open>Known and confirmed blocks stay so while the chain grows, unlike \<open>settled\<close>, which a growing best
  block ends.\<close>

definition known :: "chain_view \<Rightarrow> block_ref \<Rightarrow> bool" where
  "known v b \<longleftrightarrow> cv_block_at v (br_hash b) = Some (u64_to_u32_sat (br_number b))"

definition confirmed :: "u64 \<Rightarrow> chain_view \<Rightarrow> block_ref \<Rightarrow> bool" where
  "confirmed min_conf v b \<longleftrightarrow> known v b \<and>
     unat (u64_to_u32_sat min_conf) \<le> unat (cv_finalized v) - unat (u64_to_u32_sat (br_number b))"

lemma known_mono: "finality_grows c c' \<Longrightarrow> known (client_view c) b \<Longrightarrow> known (client_view c') b"
  unfolding known_def by (rule finality_grows_block)

lemma confirmed_mono:
  "finality_grows c c' \<Longrightarrow> confirmed m (client_view c) b \<Longrightarrow> confirmed m (client_view c') b"
  using known_mono [of c c' b]
  by (auto simp: confirmed_def finality_grows_def client_view_def word_le_nat_alt)

lemma reads_growD: "reads_grow c cs \<Longrightarrow> i \<le> j \<Longrightarrow> finality_grows (cs i) (cs j)" "reads_grow c cs \<Longrightarrow> finality_grows c (cs k)"
proof -
  assume grow: "reads_grow c cs"
  then show le: "finality_grows (cs i) (cs j)" if "i \<le> j" for i j
    using finality_grows_steps [OF _ that] by (simp add: reads_grow_def)
  show "finality_grows c (cs k)"
    using grow le [of 0 k] finality_grows_trans unfolding reads_grow_def by blast
qed

lemma reads_grow_still [simp]: "reads_grow c (\<lambda>_. c)"
  by (simp add: reads_grow_def)

text \<open>The events of the block match the target; some call of the generator made the proof for it.\<close>

definition event_hits ::
    "('vs system, 'ev) observer_externs \<Rightarrow> (h256 \<Rightarrow> ('ev list, string) res) \<Rightarrow> block_ref \<Rightarrow> watch_target \<Rightarrow> bool" where
  "event_hits OX evs b t \<longleftrightarrow>
     and_then (map_err (\<lambda>e. ProtocolCustom (''Failed to fetch events: '' @ e)) (evs (br_hash b))) (any_event_matches OX t) =
       Ok True"

definition made_for ::
    "('vs system, 'ev) observer_externs \<Rightarrow> generator \<Rightarrow> block_ref \<Rightarrow> watch_target \<Rightarrow> state_proof \<Rightarrow> bool" where
  "made_for OX gen b t p \<longleftrightarrow> (\<exists>c n1 n2 now tr. generate_state_transition OX now b t = Ok tr \<and>
     gen c n1 n2 (ssmp_into tr) generation_config_default = Ok p)"

text \<open>The messages for a list of targets: one for each that an event of the block matches, in order.\<close>

definition served ::
    "('vs system, 'ev) observer_externs \<Rightarrow> generator \<Rightarrow> (h256 \<Rightarrow> ('ev list, string) res) \<Rightarrow> block_ref \<Rightarrow>
     watch_target list \<Rightarrow> frost_message list \<Rightarrow> bool" where
  "served OX gen evs b us ms \<longleftrightarrow>
     list_all2 (\<lambda>t m. \<exists>p. made_for OX gen b t p \<and> m = routed_message OX p) (filter (event_hits OX evs b) us) ms"

lemma served_Nil: "served OX gen evs b [] ms \<longleftrightarrow> ms = []"
  by (simp add: served_def)

lemma served_skip: "served OX gen evs b us ms \<Longrightarrow> \<not> event_hits OX evs b t \<Longrightarrow> served OX gen evs b (us @ [t]) ms"
  by (simp add: served_def)

lemma served_snoc:
  "served OX gen evs b us ms \<Longrightarrow> event_hits OX evs b t \<Longrightarrow> made_for OX gen b t p \<Longrightarrow>
   served OX gen evs b (us @ [t]) (ms @ [routed_message OX p])"
  by (auto simp: served_def intro!: list_all2_appendI)

text \<open>What holds at each place, in a view of the chain and with the targets now registered.\<close>

definition serving_inv ::
    "('vs system, 'ev) observer_externs \<Rightarrow> generator \<Rightarrow> (h256 \<Rightarrow> ('ev list, string) res) \<Rightarrow> u64 \<Rightarrow> chain_view \<Rightarrow>
     watch_target list \<Rightarrow> block_ref \<Rightarrow> watch_target list \<Rightarrow> watch_target list \<Rightarrow> frost_message list \<Rightarrow> bool" where
  "serving_inv OX gen evs m v ts b us done ms \<longleftrightarrow>
     confirmed m v b \<and> prefix us ts \<and> served OX gen evs b done ms"

definition task_inv ::
    "('vs system, 'ev) observer_externs \<Rightarrow> generator \<Rightarrow> (h256 \<Rightarrow> ('ev list, string) res) \<Rightarrow> u64 \<Rightarrow> chain_view \<Rightarrow>
     watch_target list \<Rightarrow> task \<Rightarrow> bool" where
  "task_inv OX gen evs m v ts tk \<longleftrightarrow>
     (let b = notified_block OX (tk_notification tk);
          at_target = (\<lambda>done rest. tk_targets tk = Some (done @ rest) \<and>
            serving_inv OX gen evs m v ts b (done @ rest) done (tk_sent tk));
          before = tk_targets tk = None \<and> tk_sent tk = []
      in case tk_phase tk of
        Arrived \<Rightarrow> before
      | HashChecked \<Rightarrow> before \<and> known v b
      | Trusted c \<Rightarrow> before \<and> known v b
      | Serving rest \<Rightarrow> \<exists>done. at_target done rest
      | Proving t rest \<Rightarrow> \<exists>done. at_target done (t # rest) \<and> event_hits OX evs b t
      | Sending p rest \<Rightarrow> \<exists>done t. at_target done (t # rest) \<and> event_hits OX evs b t \<and> made_for OX gen b t p
      | Finished r \<Rightarrow> before \<or> (\<exists>done rest. at_target done rest \<and> (is_ok r \<longrightarrow> rest = [])))"

lemma serving_inv_mono:
  "finality_grows c c' \<Longrightarrow> prefix ts ts' \<Longrightarrow> serving_inv OX gen evs m (client_view c) ts b us done ms \<Longrightarrow>
   serving_inv OX gen evs m (client_view c') ts' b us done ms"
  unfolding serving_inv_def using confirmed_mono prefix_order.trans by blast

lemma task_inv_mono:
  assumes "finality_grows c c'" and "prefix ts ts'" and "task_inv OX gen evs m (client_view c) ts tk"
  shows "task_inv OX gen evs m (client_view c') ts' tk"
proof (cases "tk_phase tk")
  case (Finished r)
  with assms(3) show ?thesis unfolding task_inv_def Let_def
    using serving_inv_mono [OF assms(1,2)] by simp blast
qed (use assms(3) known_mono [OF assms(1)] serving_inv_mono [OF assms(1,2)] in
      \<open>simp add: task_inv_def Let_def; blast\<close>)+

section \<open>One step keeps it\<close>

lemma system_observer_targets [simp]: "ob_watch_targets (system_observer X cfg gen evs ts) = ts"
  by (simp add: system_observer_def)

lemma at_node_run:
  assumes "at_node call k s = (ph', s')"
  shows "s' = s\<lparr>sys_node := snd (call (sys_node s))\<rparr>" "ph' = k (fst (call (sys_node s)))"
    "sent_messages s' = sent_messages s"
  using assms by (auto simp: at_node_def sent_messages_def split: prod.splits)

lemma await_then_cases:
  assumes "await_then r k = ph"
  obtains (returned) x where "r = Ok x" "ph = k x" | (stopped) r' where "\<not> is_ok r" "ph = Finished r'" "\<not> is_ok r'"
  using assms by (cases r) auto

lemma route_proof_sent:
  assumes "route_proof OX (system_observer X cfg gen evs ts) p s = (r, s')"
  shows "sent_messages s' = sent_messages s @ (if is_ok r then [routed_message OX p] else [])"
    "sys_node s' = sys_node s"
  using system.route_proof_route [OF assms] system.sent_cases [of "routed_message OX p" s]
    route_proof_node [of OX X cfg gen evs ts p s] assms by simp_all

text \<open>A step changes neither the view of the chain nor the messages sent before.\<close>

lemma advance_frame:
  assumes "advance OX X cfg cs (system_observer X cfg gen evs ts) n ph s = (ph', s')"
  shows "nd_params (sys_node s') = nd_params (sys_node s) \<and> nd_client (sys_node s') = nd_client (sys_node s) \<and>
    prefix (sent_messages s) (sent_messages s')"
proof (cases ph)
  case Arrived
  from at_node_run [OF assms [unfolded Arrived advance_finality]] show ?thesis
    by (simp add: metrics_onlyD [OF hash_read_frame])
next
  case HashChecked
  from at_node_run [OF assms [unfolded HashChecked advance_finality]] show ?thesis
    by (simp add: metrics_onlyD [OF confidence_reads_frame])
next
  case (Trusted c)
  from at_node_run [OF assms [unfolded Trusted advance_finality]] show ?thesis
    by (simp add: metrics_onlyD [OF rules_reads_frame])
next
  case (Serving us)
  then have "s' = s" using assms by (cases us) auto
  then show ?thesis by simp
next
  case (Sending p us)
  obtain r where r: "route_proof OX (system_observer X cfg gen evs ts) p s = (r, s')"
    using assms Sending by (cases "route_proof OX (system_observer X cfg gen evs ts) p s") simp
  show ?thesis using route_proof_sent [OF r] by simp
qed (use assms in auto)

lemma chain_now_simps [simp]:
  "sent_messages (chain_now c s) = sent_messages s" "nd_client (sys_node (chain_now c s)) = c"
  "nd_params (sys_node (chain_now c s)) = nd_params (sys_node s)"
  by (simp_all add: chain_now_def sent_messages_def)

lemma chain_now_same: "nd_client (sys_node s) = c \<Longrightarrow> chain_now c s = s"
  by (auto simp: chain_now_def)

text \<open>The checks of finality.\<close>

lemma rules_reads_confirmed:
  assumes "rules_reads X c1 c2 c3 c4 b r nd = (Ok True, nd')" and "known (client_view c1) b" and "finality_grows c2 c"
  shows "unat (u64_to_u32_sat (rule_min_confirmations r)) \<le>
    unat (cv_finalized (client_view c)) - unat (u64_to_u32_sat (br_number b))"
  using rules_reads_Ok_True [OF assms(1)] assms(2,3)
  by (auto simp: known_def finality_grows_def client_view_def word_le_nat_alt)

lemma advance_finality_inv:
  assumes "task_inv OX gen evs (cfg_min_confirmations cfg) (client_view (nd_client (sys_node s))) ts tk"
    and "tk_phase tk = Arrived \<or> tk_phase tk = HashChecked \<or> (\<exists>c. tk_phase tk = Trusted c)"
    and "advance OX X cfg cs (system_observer X cfg gen evs ts) (tk_notification tk) (tk_phase tk) s = (ph', s')"
    and grow: "reads_grow (nd_client (sys_node s)) cs"
  shows "task_inv OX gen evs (cfg_min_confirmations cfg) (client_view (cs 3)) ts (task_after tk ph' s s')"
proof -
  let ?b = "notified_block OX (tk_notification tk)" and ?v = "client_view (cs 3)"
  have before: "tk_targets tk = None" "tk_sent tk = []"
    using assms(1,2) by (auto simp: task_inv_def Let_def)
  have later: "known (client_view (cs k)) ?b" if "known (client_view (nd_client (sys_node s))) ?b" for k
    using known_mono [OF reads_growD(2) [OF grow] that] .
  show ?thesis
  proof (cases "tk_phase tk")
    case Arrived
    note run = at_node_run [OF assms(3) [unfolded Arrived advance_finality]]
    show ?thesis
    proof (rule await_then_cases [OF run(2) [symmetric]])
      fix found assume ok: "map_err (\<lambda>e. from_finality_error OX (ChainError (''Block verification failed: '' @
          display_fv_error X e))) (fst (hash_read X (cs 0) ?b (sys_node s))) = Ok found"
        and ph: "ph' = (if found then HashChecked else Finished (Err (from_finality_error OX (ChainError ''Block not found''))))"
      have "known ?v ?b" if found
      proof -
        have "hash_read X (cs 0) ?b (sys_node s) = (Ok True, snd (hash_read X (cs 0) ?b (sys_node s)))"
          using ok that by (simp add: prod_eq_iff)
        then have "known (client_view (cs 0)) ?b" unfolding known_def using hash_read_Ok_True by blast
        then show ?thesis by (rule known_mono [OF reads_growD(1) [OF grow le0]])
      qed
      then show ?thesis using ph before Arrived run(3)
        by (simp add: task_inv_def task_after_def cloned_def Let_def)
    qed (use before Arrived run(3) in \<open>simp add: task_inv_def task_after_def cloned_def Let_def\<close>)
  next
    case HashChecked
    note run = at_node_run [OF assms(3) [unfolded HashChecked advance_finality]]
    have "known ?v ?b" using assms(1) HashChecked by (intro later) (simp add: task_inv_def Let_def)
    with run(3) before HashChecked show ?thesis
      by - (rule await_then_cases [OF run(2) [symmetric]];
        simp add: task_inv_def task_after_def cloned_def Let_def)
  next
    case (Trusted c)
    note run = at_node_run [OF assms(3) [unfolded Trusted advance_finality]]
    have known: "known (client_view (cs k)) ?b" for k
      using assms(1) Trusted by (intro later) (simp add: task_inv_def Let_def)
    show ?thesis
    proof (rule await_then_cases [OF run(2) [symmetric]])
      let ?call = "rules_reads X (cs 0) (cs 1) (cs 2) (cs 3) ?b (grandpa_rules cfg) (sys_node s)"
      fix final assume ok: "map_err (\<lambda>e. from_finality_error OX (ConsensusError (''Chain rule verification failed: '' @
          display_fv_error X e) (f64_to_u64 (rule_min_participation (grandpa_rules cfg) * f64_lit 100))
          (f64_to_u64 (c * f64_lit 100)))) (fst ?call) = Ok final"
        and ph: "ph' = (if final then Serving (ob_watch_targets (system_observer X cfg gen evs ts)) else Finished (Ok ()))"
      show ?thesis
      proof (cases final)
        case True
        then have "?call = (Ok True, snd ?call)" using ok by (simp add: prod_eq_iff)
        from rules_reads_confirmed [OF this known [of 0] reads_growD(1) [OF grow, of 1 3]]
        have "confirmed (cfg_min_confirmations cfg) ?v ?b"
          using known [of 3] by (simp add: confirmed_def grandpa_rules_def)
        then show ?thesis using True ph before Trusted run(3)
          by (simp add: task_inv_def task_after_def cloned_def Let_def serving_inv_def served_Nil)
      qed (use ph before Trusted run(3) in \<open>simp add: task_inv_def task_after_def cloned_def Let_def\<close>)
    qed (use before Trusted run(3) in \<open>simp add: task_inv_def task_after_def cloned_def Let_def\<close>)
  qed (use assms(2) in auto)
qed

text \<open>The loop over the targets.\<close>

lemma system_matches:
  "matches_watch_target OX (system_observer X cfg gen evs ts) b t s = Ok True \<longleftrightarrow> event_hits OX evs b t"
  by (simp add: matches_watch_target_def event_hits_def system_observer_def)

lemma serving_step:
  assumes "tk_phase tk = Serving rest" and "tk_targets tk = Some (done @ rest)"
    and "serving_inv OX gen evs m v ts (notified_block OX (tk_notification tk)) (done @ rest) done (tk_sent tk)"
    and "advance OX X cfg cs (system_observer X cfg gen evs ts) (tk_notification tk) (tk_phase tk) s = (ph', s')"
  shows "task_inv OX gen evs m v ts (task_after tk ph' s s')"
proof (cases rest)
  case Nil
  then show ?thesis using assms by (auto simp: task_inv_def task_after_def cloned_def Let_def)
next
  case (Cons t us)
  let ?b = "notified_block OX (tk_notification tk)"
  have s': "s' = s" and ph: "await_then (matches_watch_target OX (system_observer X cfg gen evs ts) ?b t s)
      (\<lambda>matched. if matched then Proving t us else Serving us) = ph'"
    using assms(1,4) Cons by auto
  show ?thesis
  proof (rule await_then_cases [OF ph])
    fix matched
    assume m: "matches_watch_target OX (system_observer X cfg gen evs ts) ?b t s = Ok matched"
      and ph': "ph' = (if matched then Proving t us else Serving us)"
    show ?thesis
    proof (cases matched)
      case True
      with m have "event_hits OX evs ?b t" by (simp add: system_matches [symmetric, of _ _ _ _ X cfg gen ts s])
      with True assms(1-3) Cons s' ph' show ?thesis by (auto simp: task_inv_def task_after_def cloned_def Let_def)
    next
      case False
      with m have "\<not> event_hits OX evs ?b t" by (simp add: system_matches [symmetric, of _ _ _ _ X cfg gen ts s])
      then have "serving_inv OX gen evs m v ts ?b ((done @ [t]) @ us) (done @ [t]) (tk_sent tk)"
        using assms(3) Cons by (simp add: serving_inv_def served_skip)
      moreover have "tk_targets tk = Some ((done @ [t]) @ us)" using assms(2) Cons by simp
      ultimately show ?thesis using False assms(1) s' ph'
        by (auto simp: task_inv_def task_after_def cloned_def Let_def simp del: append_assoc)
    qed
  next
    fix r' assume "ph' = Finished r'" "\<not> is_ok r'"
    then show ?thesis using assms(1-3) s' by (auto simp: task_inv_def task_after_def cloned_def Let_def)
  qed
qed

lemma proving_step:
  assumes "tk_phase tk = Proving t rest" and "tk_targets tk = Some (done @ t # rest)" and "event_hits OX evs (notified_block OX (tk_notification tk)) t"
    and "serving_inv OX gen evs m v ts (notified_block OX (tk_notification tk)) (done @ t # rest) done (tk_sent tk)"
    and "advance OX X cfg cs (system_observer X cfg gen evs ts) (tk_notification tk) (tk_phase tk) s = (ph', s')"
  shows "task_inv OX gen evs m v ts (task_after tk ph' s s')"
proof -
  let ?b = "notified_block OX (tk_notification tk)" and ?ob = "system_observer X cfg gen evs ts"
  obtain tr where tr: "generate_state_transition OX (system_time OX s) ?b t = Ok tr" using transition_total by blast
  have s': "s' = s" and ph: "await_then (map_err (\<lambda>_. into_protocol ProofGenerationFailed)
      (ob_generate_proof ?ob (ssmp_into tr) generation_config_default s)) (\<lambda>p. Sending p rest) = ph'"
    using assms(1,5) tr by auto
  show ?thesis
  proof (rule await_then_cases [OF ph])
    fix p
    assume "map_err (\<lambda>_. into_protocol ProofGenerationFailed)
        (ob_generate_proof ?ob (ssmp_into tr) generation_config_default s) = Ok p" and ph': "ph' = Sending p rest"
    then have "gen (nd_client (sys_node s)) (nat (sys_clock s)) (nat (sys_clock s)) (ssmp_into tr)
        generation_config_default = Ok p" by (simp add: system_observer_def)
    with tr have "made_for OX gen ?b t p" unfolding made_for_def by blast
    with assms(1-4) s' ph' show ?thesis by (auto simp: task_inv_def task_after_def cloned_def Let_def)
  next
    fix r' assume "ph' = Finished r'" "\<not> is_ok r'"
    then show ?thesis using assms(1-4) s' by (auto simp: task_inv_def task_after_def cloned_def Let_def)
  qed
qed

lemma sending_step:
  assumes "tk_phase tk = Sending p rest" and "tk_targets tk = Some (done @ t # rest)" and "event_hits OX evs (notified_block OX (tk_notification tk)) t"
    and "made_for OX gen (notified_block OX (tk_notification tk)) t p"
    and "serving_inv OX gen evs m v ts (notified_block OX (tk_notification tk)) (done @ t # rest) done (tk_sent tk)"
    and "advance OX X cfg cs (system_observer X cfg gen evs ts) (tk_notification tk) (tk_phase tk) s = (ph', s')"
  shows "task_inv OX gen evs m v ts (task_after tk ph' s s')"
proof -
  let ?b = "notified_block OX (tk_notification tk)"
  obtain r where r: "route_proof OX (system_observer X cfg gen evs ts) p s = (r, s')"
      and ph: "await_then r (\<lambda>_. Serving rest) = ph'"
    using assms(1,6) by (cases "route_proof OX (system_observer X cfg gen evs ts) p s") auto
  show ?thesis
  proof (cases r)
    case (Ok u)
    have "serving_inv OX gen evs m v ts ?b ((done @ [t]) @ rest) (done @ [t]) (tk_sent tk @ [routed_message OX p])"
      using assms(3-5) by (simp add: serving_inv_def served_snoc)
    moreover have "tk_targets tk = Some ((done @ [t]) @ rest)" using assms(2) by simp
    ultimately show ?thesis using assms(1) Ok ph route_proof_sent(1) [OF r]
      by (auto simp: task_inv_def task_after_def cloned_def Let_def simp del: append_assoc)
  qed (use assms(1,2,5) ph route_proof_sent(1) [OF r] in
      \<open>fastforce simp: task_inv_def task_after_def cloned_def Let_def\<close>)+
qed

lemma advance_inv:
  assumes "task_inv OX gen evs (cfg_min_confirmations cfg) (client_view (nd_client (sys_node s))) ts tk"
    and "advance OX X cfg cs (system_observer X cfg gen evs ts) (tk_notification tk) (tk_phase tk) s = (ph', s')"
    and grow: "reads_grow (nd_client (sys_node s)) cs"
  shows "task_inv OX gen evs (cfg_min_confirmations cfg) (client_view (cs 3)) ts (task_after tk ph' s s')"
proof -
  note now = task_inv_mono [OF reads_growD(2) [OF grow] prefix_order.refl assms(1), of 3]
  show ?thesis
  proof (cases "tk_phase tk")
    case (Serving rest)
    with now show ?thesis using serving_step [OF Serving _ _ assms(2)]
      by (auto simp: task_inv_def [of _ _ _ _ _ _ tk] Let_def)
  next
    case (Proving t rest)
    with now show ?thesis using proving_step [OF Proving _ _ _ assms(2)]
      by (auto simp: task_inv_def [of _ _ _ _ _ _ tk] Let_def)
  next
    case (Sending p rest)
    with now show ?thesis using sending_step [OF Sending _ _ _ _ assms(2)]
      by (auto simp: task_inv_def [of _ _ _ _ _ _ tk] Let_def)
  next
    case (Finished r)
    then have "s' = s" "ph' = Finished r" using assms(2) by simp_all
    with now Finished show ?thesis by (simp add: task_inv_def task_after_def cloned_def Let_def)
  qed (rule advance_finality_inv [OF assms(1) _ assms(2) grow]; simp)+
qed

section \<open>The pool keeps it\<close>

definition pool_inv ::
    "('vs system, 'ev) observer_externs \<Rightarrow> 'vs externs \<Rightarrow> predicate_config \<Rightarrow> generator \<Rightarrow>
     (h256 \<Rightarrow> ('ev list, string) res) \<Rightarrow> frost_message list \<Rightarrow> ('vs, 'ev) pool \<Rightarrow> bool" where
  "pool_inv OX X cfg gen evs sent0 p \<longleftrightarrow>
     pl_observer p = system_observer X cfg gen evs (ob_watch_targets (pl_observer p)) \<and>
     node_ok (sys_node (pl_system p)) \<and>
     (\<forall>tk \<in> set (pl_tasks p). task_inv OX gen evs (cfg_min_confirmations cfg)
        (client_view (nd_client (sys_node (pl_system p)))) (ob_watch_targets (pl_observer p)) tk) \<and>
     (\<exists>ms. sent_messages (pl_system p) = sent0 @ ms \<and> mset ms = (\<Sum>tk \<leftarrow> pl_tasks p. mset (tk_sent tk)))"

lemma sum_list_update_add:
  fixes d :: "'a :: comm_monoid_add"
  shows "i < length xs \<Longrightarrow> f y = f (xs ! i) + d \<Longrightarrow> sum_list (map f (xs[i := y])) = sum_list (map f xs) + d"
proof (induction xs arbitrary: i)
  case (Cons x xs)
  then show ?case by (cases i) (simp_all add: ac_simps)
qed simp

lemma task_after_sent:
  assumes "prefix (sent_messages s) (sent_messages s')"
  obtains ms where "sent_messages s' = sent_messages s @ ms" and "tk_sent (task_after tk ph' s s') = tk_sent tk @ ms"
  using assms by (auto simp: task_after_def prefix_def)

lemma step_task_inv:
  assumes inv: "pool_inv OX X cfg gen evs sent0 p" and i: "i < length (pl_tasks p)"
    and grow: "reads_grow (nd_client (sys_node (pl_system p))) cs"
  shows "pool_inv OX X cfg gen evs sent0 (step_task OX X cfg cs i p)"
proof -
  let ?tk = "pl_tasks p ! i" and ?ts = "ob_watch_targets (pl_observer p)" and ?s = "pl_system p"
  let ?inv = "\<lambda>c. task_inv OX gen evs (cfg_min_confirmations cfg) (client_view c) ?ts"
  have ob: "pl_observer p = system_observer X cfg gen evs ?ts" and ok: "node_ok (sys_node ?s)"
    and tks: "\<forall>tk \<in> set (pl_tasks p). ?inv (nd_client (sys_node ?s)) tk"
    using inv unfolding pool_inv_def by blast+
  obtain ms where ms: "sent_messages ?s = sent0 @ ms" "mset ms = (\<Sum>tk \<leftarrow> pl_tasks p. mset (tk_sent tk))"
    using inv unfolding pool_inv_def by blast
  obtain ph' s' where
    a: "advance OX X cfg cs (system_observer X cfg gen evs ?ts) (tk_notification ?tk) (tk_phase ?tk) ?s = (ph', s')"
    by (cases "advance OX X cfg cs (system_observer X cfg gen evs ?ts) (tk_notification ?tk) (tk_phase ?tk) ?s")
  have step: "step_task OX X cfg cs i p =
      p\<lparr>pl_system := chain_now (cs 3) s', pl_tasks := (pl_tasks p)[i := task_after ?tk ph' ?s s']\<rparr>"
    using a ob by (simp add: step_task_def Let_def)
  note frame = advance_frame [OF a]
  obtain new where new: "sent_messages s' = sent_messages ?s @ new" "tk_sent (task_after ?tk ph' ?s s') = tk_sent ?tk @ new"
    using task_after_sent [of ?s s' ?tk ph'] frame by blast
  have "?inv (nd_client (sys_node ?s)) ?tk" using tks i by simp
  note mine = advance_inv [OF this a grow]
  have "?inv (cs 3) tk" if "tk \<in> set (pl_tasks p)" for tk
    using task_inv_mono [OF reads_growD(2) [OF grow] prefix_order.refl] tks that by blast
  with mine have "\<forall>tk \<in> set ((pl_tasks p)[i := task_after ?tk ph' ?s s']). ?inv (cs 3) tk"
    using set_update_subset_insert [of "pl_tasks p" i] by blast
  moreover have "mset (ms @ new) =
      (\<Sum>tk \<leftarrow> (pl_tasks p)[i := task_after ?tk ph' ?s s']. mset (tk_sent tk))"
    using sum_list_update_add [OF i, of "\<lambda>tk. mset (tk_sent tk)" "task_after ?tk ph' ?s s'" "mset new"] ms(2) new(2)
    by simp
  moreover have "sent_messages s' = sent0 @ (ms @ new)" using new(1) ms(1) by simp
  ultimately show ?thesis unfolding pool_inv_def step using ob ok frame by simp
qed

lemma pool_step_inv:
  assumes "pool_step OX X cfg p p'" and inv: "pool_inv OX X cfg gen evs sent0 p"
  shows "pool_inv OX X cfg gen evs sent0 p'"
  using assms(1)
proof cases
  case (arrives n)
  have "task_inv OX gen evs m v ts (task_arrived n)" for m v ts
    by (simp add: task_inv_def task_arrived_def Let_def)
  then show ?thesis using inv unfolding pool_inv_def arrives by (auto simp: task_arrived_def)
next
  case (runs i cs)
  from step_task_inv [OF inv runs(2,3)] runs(1) show ?thesis by simp
next
  case (registers t)
  let ?ts = "ob_watch_targets (pl_observer p)"
  have ob: "pl_observer p = system_observer X cfg gen evs ?ts" using inv unfolding pool_inv_def by blast
  have reg: "observer_register_watch_target t (pl_observer p) = system_observer X cfg gen evs (?ts @ [t])"
    by (subst ob) (rule register_system_observer)
  have pre: "prefix ?ts (?ts @ [t])" by simp
  show ?thesis using inv
    unfolding pool_inv_def registers by (simp add: reg task_inv_mono [OF finality_grows_refl pre])
next
  case (node_acts nd)
  have "node_ok nd" using inv node_step_params [OF node_acts(2)] unfolding pool_inv_def by simp
  with inv show ?thesis
    unfolding pool_inv_def node_acts(1)
    by (simp add: sent_messages_def task_inv_mono [OF node_acts(3) prefix_order.refl])
next
  case (clock_ticks c)
  then show ?thesis using inv unfolding pool_inv_def by (simp add: sent_messages_def)
qed

lemma pool_reachable_inv:
  "pool_reachable OX X cfg p0 p \<Longrightarrow> pool_inv OX X cfg gen evs sent0 p0 \<Longrightarrow> pool_inv OX X cfg gen evs sent0 p"
  by (induction rule: pool_reachable.induct) (auto intro: pool_step_inv)

definition pool_start :: "('vs system, 'ev, route_status) observer \<Rightarrow> 'vs system \<Rightarrow> ('vs, 'ev) pool" where
  "pool_start ob s = \<lparr>pl_observer = ob, pl_system = s, pl_tasks = []\<rparr>"

lemma pool_start_inv:
  "node_ok (sys_node s) \<Longrightarrow> pool_inv OX X cfg gen evs (sent_messages s) (pool_start (system_observer X cfg gen evs ts) s)"
  by (simp add: pool_inv_def pool_start_def)

lemma pool_start_reachable_inv:
  assumes "pool_reachable OX X cfg (pool_start (system_observer X cfg gen evs ts) s) p" and "node_ok (sys_node s)"
  shows "pool_inv OX X cfg gen evs (sent_messages s) p"
  by (rule pool_reachable_inv [OF assms(1) pool_start_inv [OF assms(2)]])

text \<open>What \<open>task_inv\<close> says of the local variables, at any place.\<close>

lemma task_inv_locals:
  assumes "task_inv OX gen evs m v ts tk"
  shows "case tk_targets tk of
      None \<Rightarrow> tk_sent tk = []
    | Some us \<Rightarrow> prefix us ts \<and> confirmed m v (notified_block OX (tk_notification tk)) \<and>
        (\<exists>done. prefix done us \<and> served OX gen evs (notified_block OX (tk_notification tk)) done (tk_sent tk) \<and>
          (tk_phase tk = Finished (Ok ()) \<longrightarrow> done = us))"
proof (cases "tk_targets tk")
  case None
  then show ?thesis using assms by (cases "tk_phase tk") (auto simp: task_inv_def Let_def)
next
  case (Some us)
  have "\<exists>ds rest. us = ds @ rest \<and> (tk_phase tk = Finished (Ok ()) \<longrightarrow> rest = []) \<and>
      serving_inv OX gen evs m v ts (notified_block OX (tk_notification tk)) us ds (tk_sent tk)"
  proof (cases "tk_phase tk")
    case (Finished r)
    with assms Some show ?thesis by (cases r) (auto simp: task_inv_def Let_def)
  qed (use assms Some in \<open>auto simp: task_inv_def Let_def\<close>)
  then obtain ds rest where "us = ds @ rest" "tk_phase tk = Finished (Ok ()) \<longrightarrow> rest = []"
    "serving_inv OX gen evs m v ts (notified_block OX (tk_notification tk)) us ds (tk_sent tk)" by blast
  then show ?thesis using Some by (auto simp: serving_inv_def intro!: exI [of _ ds])
qed

lemma pool_start_task:
  assumes "pool_reachable OX X cfg (pool_start (system_observer X cfg gen evs ts) s) p" and "node_ok (sys_node s)"
    and "tk \<in> set (pl_tasks p)"
  shows "case tk_targets tk of
      None \<Rightarrow> tk_sent tk = []
    | Some us \<Rightarrow> \<exists>done. prefix done us \<and>
        served OX gen evs (notified_block OX (tk_notification tk)) done (tk_sent tk) \<and>
        (tk_phase tk = Finished (Ok ()) \<longrightarrow> done = us)"
proof -
  have "task_inv OX gen evs (cfg_min_confirmations cfg) (client_view (nd_client (sys_node (pl_system p))))
      (ob_watch_targets (pl_observer p)) tk"
    using pool_start_reachable_inv [OF assms(1,2)] assms(3) unfolding pool_inv_def by blast
  from task_inv_locals [OF this] show ?thesis by (auto split: option.splits)
qed

text \<open>A task that runs alone in a pool.\<close>

lemma alone_in_pool:
  "ob = system_observer X cfg gen evs ts \<Longrightarrow>
   pool_reachable OX X cfg p0 \<lparr>pl_observer = ob, pl_system = s, pl_tasks = [tk]\<rparr> \<Longrightarrow>
   task_run OX X cfg ob (tk_notification tk) k (tk_phase tk, s) = (ph', s') \<Longrightarrow>
   \<exists>tk'. tk_notification tk' = tk_notification tk \<and> tk_phase tk' = ph' \<and>
     pool_reachable OX X cfg p0 \<lparr>pl_observer = ob, pl_system = s', pl_tasks = [tk']\<rparr>"
proof (induction k arbitrary: tk s)
  case 0
  then show ?case by auto
next
  case (Suc k)
  obtain ph1 s1 where a: "advance OX X cfg (still s) ob (tk_notification tk) (tk_phase tk) s = (ph1, s1)"
    by (cases "advance OX X cfg (still s) ob (tk_notification tk) (tk_phase tk) s")
  then have same: "chain_now (nd_client (sys_node s)) s1 = s1"
    using advance_frame [OF a [unfolded Suc.prems(1)]] by (intro chain_now_same) simp
  let ?p = "\<lparr>pl_observer = ob, pl_system = s, pl_tasks = [tk]\<rparr>"
  have "pool_reachable OX X cfg p0 (step_task OX X cfg (still s) 0 ?p)"
    by (rule pool_reachable.step [OF Suc.prems(2) pool_step.runs]) simp_all
  then have "pool_reachable OX X cfg p0 \<lparr>pl_observer = ob, pl_system = s1, pl_tasks = [task_after tk ph1 s s1]\<rparr>"
    by (simp add: step_task_def a same)
  moreover have "tk_phase (task_after tk ph1 s s1) = ph1" "tk_notification (task_after tk ph1 s s1) = tk_notification tk"
    by (simp_all add: task_after_def)
  ultimately show ?case
    using Suc.IH [where tk = "task_after tk ph1 s s1" and s = s1] Suc.prems(1,3) a by simp
qed

text \<open>A run of the sample system with one task, to its end.\<close>

lemma sample_pool:
  obtains tk us where "tk_phase tk = Finished (Ok ())" and "tk_notification tk = sample_notification"
    and "tk_targets tk = Some us" and "tk_sent tk = [sample_message]"
    and "pool_reachable sys_externs list_externs sample_cfg (pool_start (sample_observer sample_generator) sample_system)
      \<lparr>pl_observer = sample_observer sample_generator,
       pl_system = sample_system\<lparr>sys_router := RouterAdapter (mock_network_default\<lparr>mn_messages := [sample_message]\<rparr>)\<rparr>,
       pl_tasks = [tk]\<rparr>"
proof -
  let ?p = "pool_start (sample_observer sample_generator) sample_system"
  let ?s = "sample_system\<lparr>sys_router := RouterAdapter (mock_network_default\<lparr>mn_messages := [sample_message]\<rparr>)\<rparr>"
  have "pool_reachable sys_externs list_externs sample_cfg ?p
      (?p\<lparr>pl_tasks := pl_tasks ?p @ [task_arrived sample_notification]\<rparr>)"
    by (rule pool_reachable.step [OF pool_reachable.start pool_step.arrives])
  then have "pool_reachable sys_externs list_externs sample_cfg ?p
      \<lparr>pl_observer = sample_observer sample_generator, pl_system = sample_system,
       pl_tasks = [task_arrived sample_notification]\<rparr>"
    by (simp add: pool_start_def)
  note alone = alone_in_pool [OF refl this]
  have "task_run sys_externs list_externs sample_cfg (sample_observer sample_generator)
      (tk_notification (task_arrived sample_notification)) (3 * length [sample_target None] + 4)
      (tk_phase (task_arrived sample_notification), sample_system) = (Finished (Ok ()), ?s)"
    unfolding task_arrived_def task.simps task_alone sample_run by simp
  from alone [OF this] obtain tk where tk: "tk_phase tk = Finished (Ok ())" "tk_notification tk = sample_notification"
    and run: "pool_reachable sys_externs list_externs sample_cfg ?p
      \<lparr>pl_observer = sample_observer sample_generator, pl_system = ?s, pl_tasks = [tk]\<rparr>"
    by (auto simp: task_arrived_def)
  have "node_ok (sys_node sample_system)" using sample_node_ok by (simp add: sample_system_def)
  note inv = pool_start_reachable_inv [OF run this, unfolded pool_inv_def]
  have "sent_messages ?s = [sample_message]" "sent_messages sample_system = []"
    by (simp_all add: sent_messages_def sample_system_def adapter_new_def mock_network_default_def)
  with inv have "mset (tk_sent tk) = {#sample_message#}" by auto
  then have sent: "tk_sent tk = [sample_message]" by simp
  obtain ts where "task_inv sys_externs sample_generator sample_events (cfg_min_confirmations sample_cfg)
      (client_view (nd_client (sys_node ?s))) ts tk" using inv by auto
  from task_inv_locals [OF this] have "tk_targets tk \<noteq> None" using sent by (auto split: option.splits)
  then show ?thesis using that tk sent run by blast
qed

section \<open>Properties\<close>


text \<open>C6. A task cannot be kept from finishing by the others: whatever happens between its steps and between its
  reads of the chain, it has returned after three of its own steps for each target that was registered at its
  third step, and four more.\<close>

theorem task_finishes_among_others:
  "\<exists>r s'. task_run_among OX X cfg cs ob env n (3 * length (ob_watch_targets (ob 2)) + 4) (Arrived, s) =
     (Finished r, s')"
proof -
  let ?ts = "ob_watch_targets (ob 2)"
  let ?run = "\<lambda>k. task_run_among OX X cfg cs ob env n k (Arrived, s)"
  obtain i where "steps_left (fst (?run 3)) = Some i" "i \<le> 3 * length ?ts + 1"
    using checks_among [of OX X cfg cs ob env n s] by fastforce
  with served_among [OF refl this(1), of "3 * length ?ts + 1"]
  have "steps_left (fst (?run (3 * length ?ts + 4))) = Some 0" by (auto simp: add.commute)
  then show ?thesis unfolding steps_left_0 by (metis prod.collapse)
qed



text \<open>C2. A task acts on a stale answer safely: with the chain moving between tasks and between the reads of one
  check, as long as known headers stay and finality does not go back, when a task has copied its targets, now
  or long ago, the block it serves is known under its number and has its required confirmations in the
  present chain, and the copy is an initial part of the targets registered now. The best block may change in
  any way.\<close>

theorem concurrent_tasks_confirmed:
  assumes "pool_reachable OX X cfg (pool_start (system_observer X cfg gen evs ts) s) p"
    and "f64_nonneg (min_participation (nd_params (sys_node s)))"
    and "tk \<in> set (pl_tasks p)" and "tk_targets tk = Some us"
  shows "cv_block_at (view_of (sys_node (pl_system p))) (fn_hash (tk_notification tk)) = Some (fn_number (tk_notification tk)) \<and>
    unat (u64_to_u32_sat (cfg_min_confirmations cfg)) \<le>
      unat (cv_finalized (view_of (sys_node (pl_system p)))) - unat (fn_number (tk_notification tk)) \<and>
    prefix us (ob_watch_targets (pl_observer p))"
proof -
  have "task_inv OX gen evs (cfg_min_confirmations cfg) (view_of (sys_node (pl_system p)))
      (ob_watch_targets (pl_observer p)) tk"
    using pool_start_reachable_inv [OF assms(1,2)] assms(3) unfolding pool_inv_def client_view_node by blast
  from task_inv_locals [OF this] assms(4) show ?thesis
    by (simp add: confirmed_def known_def notified_block_def)
qed

theorem concurrent_tasks_confirmed_witness:
  "cv_block_at (view_of (sys_node sample_system)) 1 = Some 1 \<and>
   1 \<le> unat (cv_finalized (view_of (sys_node sample_system))) - 1"
proof (rule sample_pool)
  let ?s = "sample_system\<lparr>sys_router := RouterAdapter (mock_network_default\<lparr>mn_messages := [sample_message]\<rparr>)\<rparr>"
  fix tk us
  assume tk: "tk_notification tk = sample_notification" "tk_targets tk = Some us"
    and run: "pool_reachable sys_externs list_externs sample_cfg (pool_start (sample_observer sample_generator) sample_system)
      \<lparr>pl_observer = sample_observer sample_generator, pl_system = ?s, pl_tasks = [tk]\<rparr>"
  have "node_ok (sys_node sample_system)" using sample_node_ok by (simp add: sample_system_def)
  from concurrent_tasks_confirmed [OF run this _ tk(2)] tk(1) show ?thesis
    by (simp add: sample_notification_def sample_cfg_def sat_1)
qed

end
