(* ===== verification/Legacy_Pallet.thy ===== *)
theory Legacy_Pallet
  imports Pallet
begin

text \<open>
  The older pallet of \<open>src/pallet/mod.rs\<close>, which records finalized state transitions, stores proofs for
  them and stores verified messages. It is written against earlier versions of the finality and proof
  traits than the ones in \<open>src/finality\<close> and \<open>src/proof\<close> (other arities, a \<open>verify_proof\<close> on generators, a
  \<open>ProofType::Merkle\<close>), so what it calls there is a parameter: the record \<open>legacy_externs\<close>. Every call is
  modelled with all its early returns; the properties are about the three storage maps over runs.
\<close>

section \<open>State\<close>

record legacy_config =
  lc_proof_type :: proof_type
  lc_max_size :: u32
  lc_timeout :: u32

definition legacy_config_default :: legacy_config where
  "legacy_config_default = \<lparr>lc_proof_type = PtMerkle, lc_max_size = 1024 * 1024, lc_timeout = 30\<rparr>"

datatype 'h legacy_event = TransitionRecorded 'h | LegacyProofGenerated 'h proof_type
  | MessageVerified 'h | StateFinalized block_ref

datatype legacy_error = InvalidTransition | LegacyInvalidProof | InvalidMessage | BlockNotFinalized
  | LegacyProofTooLarge | UnsupportedProofType | FinalityVerificationFailed

datatype legacy_dispatch_error = LegacyBadOrigin | LegacyModule legacy_error

record ('h, 'm) legacy_state =
  ls_transitions :: "'h \<rightharpoonup> state_transition"
  ls_proofs :: "'h \<rightharpoonup> state_proof"
  ls_messages :: "'h \<rightharpoonup> 'm"
  ls_latest_block :: "block_ref option"
  ls_proof_config :: legacy_config
  ls_events :: "'h legacy_event list"

text \<open>The genesis value of the proof configuration is part of the chain specification.\<close>

definition legacy_init :: "legacy_config \<Rightarrow> ('h, 'm) legacy_state" where
  "legacy_init cfg = \<lparr>ls_transitions = Map.empty, ls_proofs = Map.empty, ls_messages = Map.empty,
     ls_latest_block = None, ls_proof_config = cfg, ls_events = []\<rparr>"

text \<open>
  The library side: validation and hashing of transitions and messages, the two generators (made
  afresh for every call from the client and the authority set), and the sizes.
\<close>

record ('h, 'm) legacy_externs =
  lx_valid_transition :: "state_transition \<Rightarrow> bool"
  lx_hash_transition :: "state_transition \<Rightarrow> 'h"
  lx_valid_message :: "'m \<Rightarrow> bool"
  lx_hash_message :: "'m \<Rightarrow> 'h"
  lx_message_proof :: "'m \<Rightarrow> state_proof"
  lx_merkle_generate :: "state_transition \<Rightarrow> legacy_config \<Rightarrow> (state_proof, state_error) res"
  lx_bls_generate :: "state_transition \<Rightarrow> legacy_config \<Rightarrow> (state_proof, state_error) res"
  lx_merkle_verify :: "state_proof \<Rightarrow> legacy_config \<Rightarrow> (bool, state_error) res"
  lx_bls_verify :: "state_proof \<Rightarrow> legacy_config \<Rightarrow> (bool, state_error) res"
  lx_encoded_size :: "state_proof \<Rightarrow> nat"
  lx_max_proof_size :: u32

section \<open>Calls\<close>

definition legacy_signed :: "origin \<Rightarrow> (bytes, legacy_dispatch_error) res" where
  "legacy_signed orig = (case orig of Signed who \<Rightarrow> Ok who | RootOrigin \<Rightarrow> Err LegacyBadOrigin | NoOrigin \<Rightarrow> Err LegacyBadOrigin)"

text \<open>\<open>ensure!(c, e)\<close>\<close>

definition ensure :: "bool \<Rightarrow> legacy_error \<Rightarrow> (unit, legacy_dispatch_error) res" where
  "ensure c e = (if c then Ok () else Err (LegacyModule e))"

definition legacy_deposit :: "'h legacy_event \<Rightarrow> ('h, 'm) legacy_state \<Rightarrow> ('h, 'm) legacy_state" where
  "legacy_deposit ev s = s\<lparr>ls_events := ls_events s @ [ev]\<rparr>"

text \<open>
  Each call reads, checks and only then writes: the checks are a result, the writes a function of its
  value.
\<close>

definition commit_call :: "('a, 'e) res \<Rightarrow> ('a \<Rightarrow> 's \<Rightarrow> 's) \<Rightarrow> 's \<Rightarrow> (unit, 'e) res \<times> 's" where
  "commit_call checks write s = (case checks of
     Ok x \<Rightarrow> (Ok (), write x s) | Err e \<Rightarrow> (Err e, s) | Panic m \<Rightarrow> (Panic m, s))"

text \<open>\<open>is_final\<close> is the predicate made from the client and the authority set of the moment.\<close>

definition record_transition ::
    "('h, 'm) legacy_externs \<Rightarrow> (block_ref \<Rightarrow> (bool, finality_error) res) \<Rightarrow> origin \<Rightarrow> state_transition \<Rightarrow>
     ('h, 'm) legacy_state \<Rightarrow> (unit, legacy_dispatch_error) res \<times> ('h, 'm) legacy_state" where
  "record_transition LX is_fin orig t s = commit_call
     (and_then (legacy_signed orig) (\<lambda>who.
      and_then (ensure (lx_valid_transition LX t) InvalidTransition) (\<lambda>_.
      and_then (map_err (\<lambda>_. LegacyModule FinalityVerificationFailed) (is_fin (sr_block_ref (tr_pre_state t)))) (\<lambda>fin.
      and_then (ensure fin BlockNotFinalized) (\<lambda>_.
      Ok (lx_hash_transition LX t))))))
     (\<lambda>h s. legacy_deposit (TransitionRecorded h) (s\<lparr>ls_transitions := (ls_transitions s)(h \<mapsto> t)\<rparr>)) s"

definition legacy_generator ::
    "('h, 'm) legacy_externs \<Rightarrow> proof_type \<Rightarrow>
     (state_transition \<Rightarrow> legacy_config \<Rightarrow> (state_proof, state_error) res, legacy_dispatch_error) res" where
  "legacy_generator LX ty = (case ty of
     PtMerkle \<Rightarrow> Ok (lx_merkle_generate LX)
   | PtSignature \<Rightarrow> Ok (lx_bls_generate LX)
   | _ \<Rightarrow> Err (LegacyModule UnsupportedProofType))"

definition legacy_generate_proof ::
    "('h, 'm) legacy_externs \<Rightarrow> origin \<Rightarrow> 'h \<Rightarrow> proof_type \<Rightarrow> ('h, 'm) legacy_state \<Rightarrow>
     (unit, legacy_dispatch_error) res \<times> ('h, 'm) legacy_state" where
  "legacy_generate_proof LX orig h ty s = commit_call
     (and_then (legacy_signed orig) (\<lambda>who.
      and_then (ok_or (LegacyModule InvalidTransition) (ls_transitions s h)) (\<lambda>t.
      and_then (legacy_generator LX ty) (\<lambda>gen.
      let config = (ls_proof_config s)\<lparr>lc_proof_type := ty\<rparr> in
      and_then (map_err (\<lambda>_. LegacyModule LegacyInvalidProof) (gen t config)) (\<lambda>p.
      and_then (ensure (lx_encoded_size LX p \<le> unat (lx_max_proof_size LX)) LegacyProofTooLarge) (\<lambda>_.
      Ok p))))))
     (\<lambda>p s. legacy_deposit (LegacyProofGenerated h ty) (s\<lparr>ls_proofs := (ls_proofs s)(h \<mapsto> p)\<rparr>)) s"

definition legacy_verifier ::
    "('h, 'm) legacy_externs \<Rightarrow> proof_type \<Rightarrow>
     (state_proof \<Rightarrow> legacy_config \<Rightarrow> (bool, state_error) res, legacy_dispatch_error) res" where
  "legacy_verifier LX ty = (case ty of
     PtMerkle \<Rightarrow> Ok (lx_merkle_verify LX)
   | PtSignature \<Rightarrow> Ok (lx_bls_verify LX)
   | _ \<Rightarrow> Err (LegacyModule UnsupportedProofType))"

definition verify_message ::
    "('h, 'm) legacy_externs \<Rightarrow> origin \<Rightarrow> 'm \<Rightarrow> ('h, 'm) legacy_state \<Rightarrow>
     (unit, legacy_dispatch_error) res \<times> ('h, 'm) legacy_state" where
  "verify_message LX orig m s = commit_call
     (and_then (legacy_signed orig) (\<lambda>who.
      and_then (ensure (lx_valid_message LX m) InvalidMessage) (\<lambda>_.
      and_then (legacy_verifier LX (type_of_proof (lx_message_proof LX m))) (\<lambda>verify.
      and_then (map_err (\<lambda>_. LegacyModule LegacyInvalidProof) (verify (lx_message_proof LX m) (ls_proof_config s))) (\<lambda>ok.
      and_then (ensure ok LegacyInvalidProof) (\<lambda>_.
      Ok (lx_hash_message LX m)))))))
     (\<lambda>h s. legacy_deposit (MessageVerified h) (s\<lparr>ls_messages := (ls_messages s)(h \<mapsto> m)\<rparr>)) s"

definition update_latest_block :: "block_ref \<Rightarrow> ('h, 'm) legacy_state \<Rightarrow> ('h, 'm) legacy_state" where
  "update_latest_block b s = legacy_deposit (StateFinalized b) (s\<lparr>ls_latest_block := Some b\<rparr>)"

section \<open>Runs\<close>

text \<open>The calls of a run, each with the verdict of finality at its time where it needs one.\<close>

datatype ('h, 'm) legacy_call =
    RecordTransition "block_ref \<Rightarrow> (bool, finality_error) res" origin state_transition
  | GenerateProof origin 'h proof_type
  | VerifyMessage origin 'm
  | UpdateLatestBlock block_ref

definition legacy_run ::
    "('h, 'm) legacy_externs \<Rightarrow> ('h, 'm) legacy_call \<Rightarrow> ('h, 'm) legacy_state \<Rightarrow>
     (unit, legacy_dispatch_error) res \<times> ('h, 'm) legacy_state" where
  "legacy_run LX c s = (case c of
     RecordTransition is_fin orig t \<Rightarrow> record_transition LX is_fin orig t s
   | GenerateProof orig h ty \<Rightarrow> legacy_generate_proof LX orig h ty s
   | VerifyMessage orig m \<Rightarrow> verify_message LX orig m s
   | UpdateLatestBlock b \<Rightarrow> (Ok (), update_latest_block b s))"

definition legacy_runs ::
    "('h, 'm) legacy_externs \<Rightarrow> ('h, 'm) legacy_call list \<Rightarrow> ('h, 'm) legacy_state \<Rightarrow> ('h, 'm) legacy_state" where
  "legacy_runs LX cs s = fold (\<lambda>c s. snd (legacy_run LX c s)) cs s"

section \<open>Lemmas: single calls\<close>

lemma ensure_Ok [simp]: "ensure c e = Ok u \<longleftrightarrow> c"
  by (simp add: ensure_def)

lemma legacy_signed_Ok: "legacy_signed orig = Ok who \<longleftrightarrow> orig = Signed who"
  by (cases orig) (simp_all add: legacy_signed_def)

lemma commit_call_Ok: "commit_call checks write s = (Ok (), s') \<longleftrightarrow> (\<exists>x. checks = Ok x \<and> s' = write x s)"
  by (cases checks) (auto simp: commit_call_def)

lemma commit_call_not_Ok: "commit_call checks write s = (r, s') \<Longrightarrow> \<not> is_ok r \<Longrightarrow> s' = s"
  by (cases checks) (auto simp: commit_call_def)

lemma legacy_run_not_Ok: "legacy_run LX c s = (r, s') \<Longrightarrow> \<not> is_ok r \<Longrightarrow> s' = s"
  by (cases c) (auto simp: legacy_run_def record_transition_def legacy_generate_proof_def verify_message_def
      dest: commit_call_not_Ok)

lemma record_transition_Ok:
  "record_transition LX is_fin orig t s = (Ok (), s') \<longleftrightarrow>
     (\<exists>who. orig = Signed who) \<and> lx_valid_transition LX t \<and> is_fin (sr_block_ref (tr_pre_state t)) = Ok True \<and>
     s' = legacy_deposit (TransitionRecorded (lx_hash_transition LX t))
       (s\<lparr>ls_transitions := (ls_transitions s)(lx_hash_transition LX t \<mapsto> t)\<rparr>)"
  by (auto simp: record_transition_def commit_call_Ok and_then_eq_Ok legacy_signed_Ok)

lemma legacy_generator_Ok:
  "legacy_generator LX ty = Ok gen \<longleftrightarrow>
     ty = PtMerkle \<and> gen = lx_merkle_generate LX \<or> ty = PtSignature \<and> gen = lx_bls_generate LX"
  by (cases ty) (auto simp: legacy_generator_def)

lemma legacy_verifier_Ok:
  "legacy_verifier LX ty = Ok v \<longleftrightarrow>
     ty = PtMerkle \<and> v = lx_merkle_verify LX \<or> ty = PtSignature \<and> v = lx_bls_verify LX"
  by (cases ty) (auto simp: legacy_verifier_def)

lemma legacy_generate_proof_Ok:
  "legacy_generate_proof LX orig h ty s = (Ok (), s') \<longleftrightarrow>
     (\<exists>who t gen p. orig = Signed who \<and> ls_transitions s h = Some t \<and> legacy_generator LX ty = Ok gen \<and>
        gen t ((ls_proof_config s)\<lparr>lc_proof_type := ty\<rparr>) = Ok p \<and>
        lx_encoded_size LX p \<le> unat (lx_max_proof_size LX) \<and>
        s' = legacy_deposit (LegacyProofGenerated h ty) (s\<lparr>ls_proofs := (ls_proofs s)(h \<mapsto> p)\<rparr>))"
  by (auto simp: legacy_generate_proof_def commit_call_Ok and_then_eq_Ok legacy_signed_Ok Let_def)

lemma verify_message_Ok:
  "verify_message LX orig m s = (Ok (), s') \<longleftrightarrow>
     (\<exists>who verify. orig = Signed who \<and> lx_valid_message LX m \<and>
        legacy_verifier LX (type_of_proof (lx_message_proof LX m)) = Ok verify \<and>
        verify (lx_message_proof LX m) (ls_proof_config s) = Ok True \<and>
        s' = legacy_deposit (MessageVerified (lx_hash_message LX m))
          (s\<lparr>ls_messages := (ls_messages s)(lx_hash_message LX m \<mapsto> m)\<rparr>))"
  by (auto simp: verify_message_def commit_call_Ok and_then_eq_Ok legacy_signed_Ok)

section \<open>The invariant\<close>

text \<open>A proof that some generator made for a stored transition under the configuration of the pallet.\<close>

definition proof_origin ::
    "('h, 'm) legacy_externs \<Rightarrow> legacy_config \<Rightarrow> state_transition \<Rightarrow> state_proof \<Rightarrow> bool" where
  "proof_origin LX cfg t p \<longleftrightarrow>
     lx_merkle_generate LX t (cfg\<lparr>lc_proof_type := PtMerkle\<rparr>) = Ok p \<or>
     lx_bls_generate LX t (cfg\<lparr>lc_proof_type := PtSignature\<rparr>) = Ok p"

definition message_verified :: "('h, 'm) legacy_externs \<Rightarrow> legacy_config \<Rightarrow> 'm \<Rightarrow> bool" where
  "message_verified LX cfg m \<longleftrightarrow> lx_valid_message LX m \<and>
     (type_of_proof (lx_message_proof LX m) = PtMerkle \<and> lx_merkle_verify LX (lx_message_proof LX m) cfg = Ok True \<or>
      type_of_proof (lx_message_proof LX m) = PtSignature \<and> lx_bls_verify LX (lx_message_proof LX m) cfg = Ok True)"

text \<open>
  Transitions under one hash may be replaced by others with the same hash, so a stored proof belongs to
  some valid transition with that hash.
\<close>

definition legacy_inv :: "('h, 'm) legacy_externs \<Rightarrow> legacy_config \<Rightarrow> ('h, 'm) legacy_state \<Rightarrow> bool" where
  "legacy_inv LX cfg s \<longleftrightarrow> ls_proof_config s = cfg \<and>
     (\<forall>h t. ls_transitions s h = Some t \<longrightarrow> h = lx_hash_transition LX t \<and> lx_valid_transition LX t) \<and>
     (\<forall>h p. ls_proofs s h = Some p \<longrightarrow> ls_transitions s h \<noteq> None \<and>
        lx_encoded_size LX p \<le> unat (lx_max_proof_size LX) \<and>
        (\<exists>t. lx_hash_transition LX t = h \<and> lx_valid_transition LX t \<and> proof_origin LX cfg t p)) \<and>
     (\<forall>h m. ls_messages s h = Some m \<longrightarrow> h = lx_hash_message LX m \<and> message_verified LX cfg m) \<and>
     (\<forall>h. TransitionRecorded h \<in> set (ls_events s) \<longleftrightarrow> ls_transitions s h \<noteq> None)"

lemma legacy_inv_init: "legacy_inv LX cfg (legacy_init cfg)"
  by (simp add: legacy_inv_def legacy_init_def)

lemma legacy_inv_record:
  assumes "legacy_inv LX cfg s" and "lx_valid_transition LX t"
  shows "legacy_inv LX cfg (legacy_deposit (TransitionRecorded (lx_hash_transition LX t))
    (s\<lparr>ls_transitions := (ls_transitions s)(lx_hash_transition LX t \<mapsto> t)\<rparr>))"
  using assms by (auto simp: legacy_inv_def legacy_deposit_def)

lemma legacy_inv_proof:
  assumes "legacy_inv LX cfg s" and "ls_transitions s h = Some t" and "proof_origin LX cfg t p"
    and "lx_encoded_size LX p \<le> unat (lx_max_proof_size LX)"
  shows "legacy_inv LX cfg (legacy_deposit (LegacyProofGenerated h ty) (s\<lparr>ls_proofs := (ls_proofs s)(h \<mapsto> p)\<rparr>))"
  using assms by (auto simp: legacy_inv_def legacy_deposit_def)

lemma legacy_inv_message:
  assumes "legacy_inv LX cfg s" and "message_verified LX cfg m"
  shows "legacy_inv LX cfg (legacy_deposit (MessageVerified (lx_hash_message LX m))
    (s\<lparr>ls_messages := (ls_messages s)(lx_hash_message LX m \<mapsto> m)\<rparr>))"
  using assms by (auto simp: legacy_inv_def legacy_deposit_def)

lemma legacy_inv_run:
  assumes "legacy_inv LX cfg s"
  shows "legacy_inv LX cfg (snd (legacy_run LX c s))"
proof (cases "is_ok (fst (legacy_run LX c s))")
  case False
  then have "snd (legacy_run LX c s) = s" using legacy_run_not_Ok by (metis prod.collapse)
  with assms show ?thesis by simp
next
  case True
  then obtain s' where run: "legacy_run LX c s = (Ok (), s')"
    by (metis (full_types) is_ok_iff old.unit.exhaust prod.collapse)
  have cfg: "ls_proof_config s = cfg" using assms by (simp add: legacy_inv_def)
  have "legacy_inv LX cfg s'"
  proof (cases c)
    case (RecordTransition is_fin orig t)
    with run show ?thesis
      by (auto simp: legacy_run_def record_transition_Ok intro: legacy_inv_record [OF assms])
  next
    case (GenerateProof orig h ty)
    with run obtain t gen p where p: "ls_transitions s h = Some t" "legacy_generator LX ty = Ok gen"
      "gen t (cfg\<lparr>lc_proof_type := ty\<rparr>) = Ok p" "lx_encoded_size LX p \<le> unat (lx_max_proof_size LX)"
      and s': "s' = legacy_deposit (LegacyProofGenerated h ty) (s\<lparr>ls_proofs := (ls_proofs s)(h \<mapsto> p)\<rparr>)"
      by (auto simp: legacy_run_def legacy_generate_proof_Ok cfg)
    have "proof_origin LX cfg t p" using p(2,3) by (auto simp: legacy_generator_Ok proof_origin_def)
    then show ?thesis unfolding s' by (rule legacy_inv_proof [OF assms p(1) _ p(4)])
  next
    case (VerifyMessage orig m)
    with run obtain verify where m: "lx_valid_message LX m" "legacy_verifier LX (type_of_proof (lx_message_proof LX m)) = Ok verify"
      "verify (lx_message_proof LX m) cfg = Ok True"
      and s': "s' = legacy_deposit (MessageVerified (lx_hash_message LX m))
        (s\<lparr>ls_messages := (ls_messages s)(lx_hash_message LX m \<mapsto> m)\<rparr>)"
      by (auto simp: legacy_run_def verify_message_Ok cfg)
    have "message_verified LX cfg m" using m by (auto simp: legacy_verifier_Ok message_verified_def)
    then show ?thesis unfolding s' by (rule legacy_inv_message [OF assms])
  next
    case (UpdateLatestBlock b)
    with run assms show ?thesis
      by (auto simp: legacy_run_def update_latest_block_def legacy_inv_def legacy_deposit_def)
  qed
  then show ?thesis by (simp add: run)
qed

lemma legacy_inv_runs: "legacy_inv LX cfg s \<Longrightarrow> legacy_inv LX cfg (legacy_runs LX cs s)"
  unfolding legacy_runs_def by (induction cs arbitrary: s) (simp_all add: legacy_inv_run)

section \<open>The order of events\<close>

text \<open>A proof is announced only after a transition with its hash.\<close>

definition proofs_follow :: "'h legacy_event list \<Rightarrow> bool" where
  "proofs_follow evs \<longleftrightarrow> (\<forall>us h ty vs. evs = us @ LegacyProofGenerated h ty # vs \<longrightarrow> TransitionRecorded h \<in> set us)"

lemma proofs_follow_snoc:
  "proofs_follow (evs @ [ev]) \<longleftrightarrow>
   proofs_follow evs \<and> (\<forall>h ty. ev = LegacyProofGenerated h ty \<longrightarrow> TransitionRecorded h \<in> set evs)"
proof
  assume all: "proofs_follow (evs @ [ev])"
  have "proofs_follow evs"
    using all unfolding proofs_follow_def by (metis append.assoc append_Cons)
  moreover have "TransitionRecorded h \<in> set evs" if "ev = LegacyProofGenerated h ty" for h ty
    using all that unfolding proofs_follow_def by blast
  ultimately show "proofs_follow evs \<and> (\<forall>h ty. ev = LegacyProofGenerated h ty \<longrightarrow> TransitionRecorded h \<in> set evs)"
    by blast
next
  assume split: "proofs_follow evs \<and> (\<forall>h ty. ev = LegacyProofGenerated h ty \<longrightarrow> TransitionRecorded h \<in> set evs)"
  show "proofs_follow (evs @ [ev])"
    unfolding proofs_follow_def
  proof (intro allI impI)
    fix us h ty vs assume eq: "evs @ [ev] = us @ LegacyProofGenerated h ty # vs"
    show "TransitionRecorded h \<in> set us"
    proof (cases vs rule: rev_cases)
      case Nil
      with eq split show ?thesis by auto
    next
      case (snoc ws w)
      with eq have "evs = us @ LegacyProofGenerated h ty # ws" by simp
      with split show ?thesis unfolding proofs_follow_def by blast
    qed
  qed
qed

lemma legacy_run_event:
  assumes "legacy_run LX c s = (Ok (), s')"
  obtains ev where "ls_events s' = ls_events s @ [ev]"
    and "\<forall>h ty. ev = LegacyProofGenerated h ty \<longrightarrow> ls_transitions s h \<noteq> None"
    and "\<forall>h. ev = TransitionRecorded h \<longrightarrow> (\<exists>is_fin who t. c = RecordTransition is_fin (Signed who) t \<and>
      lx_hash_transition LX t = h \<and> is_fin (sr_block_ref (tr_pre_state t)) = Ok True)"
proof (cases c)
  case (RecordTransition is_fin orig t)
  with assms that [of "TransitionRecorded (lx_hash_transition LX t)"] show ?thesis
    by (auto simp: legacy_run_def record_transition_Ok legacy_deposit_def)
next
  case (GenerateProof orig h ty)
  with assms that [of "LegacyProofGenerated h ty"] show ?thesis
    by (auto simp: legacy_run_def legacy_generate_proof_Ok legacy_deposit_def)
next
  case (VerifyMessage orig m)
  with assms that [of "MessageVerified (lx_hash_message LX m)"] show ?thesis
    by (auto simp: legacy_run_def verify_message_Ok legacy_deposit_def)
next
  case (UpdateLatestBlock b)
  with assms that [of "StateFinalized b"] show ?thesis
    by (auto simp: legacy_run_def update_latest_block_def legacy_deposit_def)
qed

definition recorded_by :: "('h, 'm) legacy_externs \<Rightarrow> ('h, 'm) legacy_call list \<Rightarrow> 'h \<Rightarrow> bool" where
  "recorded_by LX cs h \<longleftrightarrow> (\<exists>is_fin who t. RecordTransition is_fin (Signed who) t \<in> set cs \<and>
     lx_hash_transition LX t = h \<and> is_fin (sr_block_ref (tr_pre_state t)) = Ok True)"

lemma legacy_runs_snoc: "legacy_runs LX (cs @ [c]) s = snd (legacy_run LX c (legacy_runs LX cs s))"
  by (simp add: legacy_runs_def)

lemma legacy_events:
  "proofs_follow (ls_events (legacy_runs LX cs (legacy_init cfg))) \<and>
   (\<forall>h. TransitionRecorded h \<in> set (ls_events (legacy_runs LX cs (legacy_init cfg))) \<longrightarrow> recorded_by LX cs h)"
proof (induction cs rule: rev_induct)
  case Nil
  show ?case by (simp add: legacy_runs_def legacy_init_def proofs_follow_def)
next
  case (snoc c cs)
  let ?s = "legacy_runs LX cs (legacy_init cfg)"
  have mono: "recorded_by LX cs h \<Longrightarrow> recorded_by LX (cs @ [c]) h" for h by (auto simp: recorded_by_def)
  have inv: "\<forall>h. TransitionRecorded h \<in> set (ls_events ?s) \<longleftrightarrow> ls_transitions ?s h \<noteq> None"
    using legacy_inv_runs [OF legacy_inv_init, of LX cfg cs] by (simp add: legacy_inv_def)
  obtain r s' where run: "legacy_run LX c ?s = (r, s')" by (cases "legacy_run LX c ?s")
  show ?case
  proof (cases "is_ok r")
    case True
    then have "legacy_run LX c ?s = (Ok (), s')" using run by (auto simp: is_ok_iff)
    from legacy_run_event [OF this] obtain ev where ev: "ls_events s' = ls_events ?s @ [ev]"
      and p: "\<forall>h ty. ev = LegacyProofGenerated h ty \<longrightarrow> ls_transitions ?s h \<noteq> None"
      and t: "\<forall>h. ev = TransitionRecorded h \<longrightarrow> (\<exists>is_fin who t. c = RecordTransition is_fin (Signed who) t \<and>
        lx_hash_transition LX t = h \<and> is_fin (sr_block_ref (tr_pre_state t)) = Ok True)" .
    have "proofs_follow (ls_events s')" using snoc p inv by (simp add: ev proofs_follow_snoc)
    moreover have "recorded_by LX (cs @ [c]) h" if "ev = TransitionRecorded h" for h
      using t that by (auto simp: recorded_by_def)
    ultimately show ?thesis using snoc mono by (auto simp: legacy_runs_snoc run ev)
  next
    case False
    with run have "s' = ?s" by (rule legacy_run_not_Ok)
    then show ?thesis using snoc mono by (simp add: legacy_runs_snoc run)
  qed
qed

section \<open>Properties\<close>

text \<open>C25. The storage of the older pallet after any sequence of calls: transitions are valid and stored
  under their hashes, and are exactly those announced; a proof is stored only where a transition is, was
  made by the generator of its type for a valid transition with that hash and fits the size limit; messages
  are valid, verified by the generator of their proof's type and stored under their hashes.\<close>

theorem legacy_storage_sound:
  "let s = legacy_runs LX cs (legacy_init cfg) in
     (\<forall>h t. ls_transitions s h = Some t \<longrightarrow> h = lx_hash_transition LX t \<and> lx_valid_transition LX t) \<and>
     (\<forall>h. TransitionRecorded h \<in> set (ls_events s) \<longleftrightarrow> ls_transitions s h \<noteq> None) \<and>
     (\<forall>h p. ls_proofs s h = Some p \<longrightarrow> ls_transitions s h \<noteq> None \<and>
        lx_encoded_size LX p \<le> unat (lx_max_proof_size LX) \<and>
        (\<exists>t. lx_hash_transition LX t = h \<and> lx_valid_transition LX t \<and> proof_origin LX cfg t p)) \<and>
     (\<forall>h m. ls_messages s h = Some m \<longrightarrow> h = lx_hash_message LX m \<and> message_verified LX cfg m)"
  using legacy_inv_runs [OF legacy_inv_init, of LX cfg cs] unfolding legacy_inv_def Let_def by blast

text \<open>A library and a list of calls, for the witnesses.\<close>

definition sample_legacy_proof :: state_proof where
  "sample_legacy_proof = \<lparr>proof_transition = sample_transition None, proof_content = \<lparr>pd_proof_type = PtSignature,
     pd_data = [], pd_metadata = None, pd_generated_at = 0, pd_expires_at = None, pd_version = 1\<rparr>\<rparr>"

definition sample_legacy :: "(bytes, state_proof) legacy_externs" where
  "sample_legacy = \<lparr>lx_valid_transition = (\<lambda>t. True), lx_hash_transition = (\<lambda>t. [1]), lx_valid_message = (\<lambda>m. True),
     lx_hash_message = (\<lambda>m. [2]), lx_message_proof = (\<lambda>m. m), lx_merkle_generate = (\<lambda>t c. Err (Internal [])),
     lx_bls_generate = (\<lambda>t c. Ok sample_legacy_proof), lx_merkle_verify = (\<lambda>p c. Ok False),
     lx_bls_verify = (\<lambda>p c. Ok True), lx_encoded_size = (\<lambda>p. 96), lx_max_proof_size = 100\<rparr>"

definition sample_calls :: "(bytes, state_proof) legacy_call list" where
  "sample_calls = [GenerateProof (Signed [7]) [1] PtSignature,
     RecordTransition (\<lambda>b. Ok True) (Signed [7]) (sample_transition None),
     GenerateProof (Signed [7]) [1] PtSignature, GenerateProof (Signed [7]) [1] PtMerkle]"

lemma sample_legacy_run:
  "ls_events (legacy_runs sample_legacy sample_calls (legacy_init legacy_config_default)) =
     [TransitionRecorded [1], LegacyProofGenerated [1] PtSignature] \<and>
   ls_proofs (legacy_runs sample_legacy sample_calls (legacy_init legacy_config_default)) [1] = Some sample_legacy_proof"
  by (simp add: legacy_runs_def sample_calls_def legacy_run_def record_transition_def legacy_generate_proof_def
      commit_call_def legacy_signed_def ensure_def legacy_generator_def legacy_deposit_def legacy_init_def
      sample_legacy_def Let_def)

theorem legacy_storage_sound_witness:
  "ls_transitions (legacy_runs sample_legacy sample_calls (legacy_init legacy_config_default)) [1] \<noteq> None \<and>
   lx_encoded_size sample_legacy sample_legacy_proof \<le> unat (lx_max_proof_size sample_legacy)"
  using legacy_storage_sound [of sample_legacy sample_calls legacy_config_default] sample_legacy_run
  unfolding Let_def by blast

text \<open>C24. The events of the older pallet are justified by its calls: every recorded transition was submitted
  in a signed call at whose time the predicate reported the block of its pre-state final, and a proof is
  announced only after a transition with its hash was.\<close>

theorem legacy_recorded_only_if_final:
  assumes "ls_events (legacy_runs LX cs (legacy_init cfg)) = us @ ev # vs"
  shows "case ev of
      TransitionRecorded h \<Rightarrow> \<exists>is_fin who t. RecordTransition is_fin (Signed who) t \<in> set cs \<and>
        lx_hash_transition LX t = h \<and> is_fin (sr_block_ref (tr_pre_state t)) = Ok True
    | LegacyProofGenerated h ty \<Rightarrow> TransitionRecorded h \<in> set us
    | MessageVerified h \<Rightarrow> True
    | StateFinalized b \<Rightarrow> True"
proof (cases ev)
  case (TransitionRecorded h)
  then have "TransitionRecorded h \<in> set (ls_events (legacy_runs LX cs (legacy_init cfg)))" using assms by simp
  then have "recorded_by LX cs h" using legacy_events [of LX cs cfg] by blast
  then show ?thesis by (simp add: TransitionRecorded recorded_by_def)
next
  case (LegacyProofGenerated h ty)
  have "proofs_follow (ls_events (legacy_runs LX cs (legacy_init cfg)))" using legacy_events [of LX cs cfg] by blast
  then have "TransitionRecorded h \<in> set us"
    using assms unfolding proofs_follow_def LegacyProofGenerated by blast
  then show ?thesis by (simp add: LegacyProofGenerated)
qed simp_all

theorem legacy_recorded_only_if_final_witness:
  "ls_events (legacy_runs sample_legacy sample_calls (legacy_init legacy_config_default)) =
     [TransitionRecorded [1]] @ LegacyProofGenerated [1] PtSignature # [] \<and>
   TransitionRecorded [1] \<in> set [TransitionRecorded [1] :: bytes legacy_event]"
  using legacy_recorded_only_if_final [of sample_legacy sample_calls legacy_config_default
      "[TransitionRecorded [1]]" "LegacyProofGenerated [1] PtSignature" "[]"] sample_legacy_run
  by simp


end
