(* ===== verification/Spec2Isabelle.thy ===== *)
theory Spec2Isabelle
  imports Tasks Chain_Reads Legacy_Pallet
begin

text \<open>
  This library models the crate \<open>ssmp-pallet\<close> of frost-substrate: a FRAME pallet that lets accounts
  register watch targets, an observer that reacts to GRANDPA finality notifications by matching the events
  of a finalized block against those targets, generating a proof of a state transition and routing a
  message, and the finality machinery under it. Every theory opens with the files and lines it models.

  \<^bold>\<open>Parts and theories\<close>, from the bottom up.
  \<^item> \<open>Prelude\<close>: Rust's \<open>Result\<close> with panics as a third outcome (\<open>res\<close>), the \<open>?\<close> operator with and
    without a threaded state (\<open>try_then\<close>, \<open>and_then\<close>), saturating arithmetic on words.
  \<^item> \<open>F64\<close>: IEEE binary64 with round to nearest even on finite values, infinities and NaN; the rates and
    confidences of the source are computed with it, so the properties hold of the rounded values.
  \<^item> \<open>Metrics\<close>, \<open>Authority\<close>: the lazy metrics and \<open>AuthoritySetManager\<close> (\<open>src/finality/mod.rs\<close>).
  \<^item> \<open>Protocol_Types\<close>: data shared with \<open>frost_protocol\<close>, Substrate and \<open>finality-grandpa\<close>, the snapshot
    \<open>client\<close> of the backend and the record \<open>externs\<close> of library functions; what the source relies on in
    \<open>VoterSet\<close> is \<open>voter_set_laws\<close>, which \<open>list_externs\<close> satisfies.
  \<^item> \<open>Chain_Config\<close>, \<open>Finality_Predicate\<close>: configuration and errors; \<open>GrandpaFinality\<close> as a predicate over
    any verification client, and its polling loop. The locales \<open>verification_client\<close>,
    \<open>finality_predicate\<close> and \<open>grandpa_predicate\<close> are the contracts between caller and client.
  \<^item> \<open>Justification\<close>, \<open>Verification_Client\<close>, \<open>Node_Runs\<close>: \<open>SubstrateVerificationClient\<close>: its state
    (\<open>node\<close>), justifications, finality status and cache, the trait operations, and the runs of a node.
  \<^item> \<open>Grandpa_Finality\<close>: \<open>GrandpaFinality\<close> over that client, and the interpretation of the contracts.
  \<^item> \<open>Chain_Reads\<close>: one finality check with a separate state of the chain behind each of its eight reads.
  \<^item> \<open>Proof_Generator\<close>, \<open>Wrapper_Types\<close>, \<open>Registry\<close>, \<open>Routing\<close>: \<open>src/proof/generator.rs\<close>,
    \<open>src/wrapper_types.rs\<close>, \<open>src/verification/mod.rs\<close>, \<open>src/routing/mod.rs\<close> and the mock router of
    \<open>src/tests.rs\<close>, with the locales \<open>proof_generator\<close>, \<open>proof_system\<close>, \<open>message_router\<close> and
    \<open>adapted_router\<close>.
  \<^item> \<open>Observer\<close>, \<open>Pallet\<close>, \<open>System\<close>: \<open>src/observer/mod.rs\<close>, \<open>src/lib.rs\<close>, and the wired system, on which
    the locale \<open>finality_observer\<close> is interpreted.
  \<^item> \<open>Worker\<close>: \<open>SSMPWorker\<close>, and the runs in which notifications, registrations of targets, operations of
    the node and the clock interleave.
  \<^item> \<open>Tasks\<close>: the same method as an \<open>async\<close> task that is suspended at every \<open>await\<close>, and pools of such tasks in
    any interleaving with registrations and the node, the checks of a task with the torn reads of
    \<open>Chain_Reads\<close>. A task alone refines the sequential definition.
  \<^item> \<open>Legacy_Pallet\<close>: the older pallet of \<open>src/pallet/mod.rs\<close>, which no module declares; the versions of the
    finality and proof API it calls are not in the repository and are its record of parameters.

  \<^bold>\<open>How state and operations correspond.\<close> A method on \<open>&self\<close> or \<open>&mut self\<close> is a function that takes the
  record of the object and returns its result and the record it leaves. Locks are held for single
  assignments, so a lock is not part of the state; the exception is the poisonable lock of the
  observer table in \<open>Pallet\<close>. One call of a verification operation reads one snapshot of the chain
  (\<open>nd_client\<close>), a simplification that \<open>Chain_Reads\<close> lifts for the finality check and \<open>Tasks\<close> for concurrent
  tasks; between the awaited calls of \<open>is_final\<close> and during the sleeps of \<open>wait_for_finality\<close> an
  arbitrary environment \<open>env\<close> may change the node, and the safety properties hold for every environment
  in which the chain only grows. Clocks are arguments.

  \<^bold>\<open>What the lemmas show.\<close> The properties are numbered \<open>C1\<close> to \<open>Cn\<close> in order of importance, across the
  theories: the safety of \<open>is_final\<close>, of waiting and of routing, for single calls, for torn reads of the chain
  and for every message of an interleaved run; that waiting and registered targets are served when the chain
  delivers; that no generator of the crate ever serves the observer; that concurrent tasks neither lose nor duplicate messages, act only on blocks that are still
  confirmed and finish whatever the others do; the exact two-thirds bound behind the f64
  comparison; invariants of the reachable states of a node, of the authority manager, of the status cache
  and of the two pallets; refinements of the activation loop and of the handler by its tasks; round trips
  and the ambiguity of the Merkle leaves; and a number of theorems about what the code does on
  its less happy paths, among them the panicking constructor of the observer.

  \<^bold>\<open>Bounds and fuel.\<close> The polling loop is a \<open>partial_function\<close>, and it is proved to return by the
  evaluation number \<open>timeout / 2 s + 1\<close>, because every retry sleeps two seconds. A task takes at most three steps
  per target and four more. The pending-queue loop, the
  chunking and the UTF-8 decoder are total by a length measure. Block numbers are \<open>u32\<close>, the type the
  pallet demands; integer overflow wraps as in a release build.

  \<^bold>\<open>Not modelled.\<close> The code of the libraries (Substrate, \<open>finality-grandpa\<close>, \<open>frost_protocol\<close>,
  \<open>rs_merkle\<close>, \<open>serde_json\<close>, the SCALE codec) is a parameter. Log lines, the unused structs
  \<open>VotingRoundInfo\<close> and \<open>ProcessingStats\<close>, the runtime-API declaration and the mock runtime have no content to
  model. In \<open>Tasks\<close> a call of the router is one step, and so are the two header reads of a generator; between
  the reads of one check of the verification client only the chain moves.
\<close>

section \<open>Safety of routing\<close>



section \<open>Delivery\<close>



lemma crate_stream_sends_nothing:
  assumes "merkle_root_laws PX"
  shows "sent_messages (snd (run_with_finality_stream OX (system_observer X cfg (crate_generator PX g) evs ts) ns s)) =
    sent_messages s"
proof (induction ns arbitrary: s)
  case (Cons n ns)
  let ?ob = "system_observer X cfg (crate_generator PX g) evs ts"
  obtain r s1 where h: "handle_finality_notification OX ?ob n s = (r, s1)"
    by (cases "handle_finality_notification OX ?ob n s")
  have "sent_messages s1 = sent_messages s"
  proof (rule ccontr)
    assume sent: "sent_messages s1 \<noteq> sent_messages s"
    then obtain nd where f: "grandpa_is_final X cfg (\<lambda>_ nd. nd) (notified_block OX n) (sys_node s) = (Ok True, nd)"
      using delivered [OF h] by blast
    from handled_final(2) [OF h f] obtain us ps where
      ps: "sent_messages s1 = sent_messages s @ map (routed_message OX) ps"
        "list_all2 (proof_for OX ?ob (notified_block OX n) (s\<lparr>sys_node := nd\<rparr>)) us ps" by blast
    then have "ps = []"
      by (cases us; cases ps) (simp_all add: crate_never_proves [OF assms])
    with ps sent show False by simp
  qed
  with Cons h show ?case by (cases r) simp_all
qed simp

lemma crate_pool_sends_nothing:
  assumes laws: "merkle_root_laws PX"
    and run: "pool_reachable OX X cfg (pool_start (system_observer X cfg (crate_generator PX g) evs ts) s) p"
    and ok: "node_ok (sys_node s)"
  shows "sent_messages (pl_system p) = sent_messages s"
proof -
  have none: "\<not> made_for OX (crate_generator PX g) b t q" for b t q
    by (auto simp: made_for_def crate_generator_def crate_never_generates [OF laws])
  have "ms = []" if "served OX (crate_generator PX g) evs b us ms" for b us ms
    using that by (cases "filter (event_hits OX evs b) us"; cases ms) (simp_all add: served_def none)
  then have "tk_sent tk = []" if "tk \<in> set (pl_tasks p)" for tk
    using pool_start_task [OF run ok that] by (auto split: option.splits)
  then have "(\<Sum>tk \<leftarrow> pl_tasks p. mset (tk_sent tk)) = {#}" by (simp cong: map_cong)
  then show ?thesis using pool_start_reachable_inv [OF run ok] unfolding pool_inv_def by auto
qed

text \<open>C21. With a proof generator of this crate, nothing is ever sent. The observer asks for the default proof
  type, which the BLS generator refuses, and its transitions carry no proof data, over which the Merkle tree of
  the other generator has no root. So every stream of notifications, and every pool of concurrent tasks,
  leaves the messages of the router as they were, whatever the chain, the targets and the events.\<close>

theorem crate_generators_send_nothing:
  assumes "merkle_root_laws PX" and "f64_nonneg (min_participation (nd_params (sys_node s)))"
  shows "sent_messages (snd (run_with_finality_stream OX (system_observer X cfg (crate_generator PX g) evs ts) ns s)) =
      sent_messages s \<and>
    (\<forall>p. pool_reachable OX X cfg (pool_start (system_observer X cfg (crate_generator PX g) evs ts) s) p \<longrightarrow>
      sent_messages (pl_system p) = sent_messages s)"
  using crate_stream_sends_nothing [OF assms(1)] crate_pool_sends_nothing [OF assms(1) _ assms(2)] by blast

theorem crate_generators_send_nothing_witness:
  "sent_messages (snd (run_with_finality_stream sys_externs
     (sample_observer (crate_generator sample_proof_externs (DynBls (bls_generator_new id []))))
     [sample_notification, sample_notification] sample_system)) = []"
proof -
  have "f64_nonneg (min_participation (nd_params (sys_node sample_system)))"
    using sample_node_ok [of 2 3] by (simp add: sample_system_def)
  moreover have "sent_messages sample_system = []"
    by (simp add: sent_messages_def sample_system_def adapter_new_def mock_network_default_def)
  ultimately show ?thesis using crate_generators_send_nothing [OF sample_merkle_laws] by metis
qed

text \<open>With the generator that the pallet installs, the worker sends nothing.\<close>

lemma merkle_observer_sends_nothing:
  assumes "merkle_root_laws PX"
  shows "sent_messages (snd (run_with_finality_stream OX (system_observer X cfg (merkle_generate PX) evs ts) ns s)) =
    sent_messages s"
  using crate_stream_sends_nothing [OF assms, of OX X cfg pallet_generator] by (simp add: pallet_generator_merkle)

lemma merkle_observer_sends_nothing_witness:
  "sent_messages (snd (run_with_finality_stream sys_externs (sample_observer (merkle_generate sample_proof_externs))
     [sample_notification, sample_notification] sample_system)) = []"
  by (subst merkle_observer_sends_nothing [OF sample_merkle_laws])
    (simp add: sent_messages_def sample_system_def adapter_new_def mock_network_default_def)

end
